(* ===== verification/Prelude.thy ===== *)
theory Prelude
  imports Main "HOL-Library.Word" "HOL-Library.Sublist"
begin

text \<open>
  Shared vocabulary of the development: the byte and integer types of the Rust
  sources, the parts of the Rust standard library that several components call
  (big-endian byte conversion, \<open>checked_add\<close>, \<open>saturating_add\<close>,
  \<open>partition_point\<close>, \<open>Vec::insert\<close>), and the collections of facts the component
  theories feed and use.

  A Rust \<open>String\<close> or \<open>&str\<close> is a \<^typ>\<open>string\<close>: the list of its UTF-8 code units, so
  \<open>s.len()\<close> is \<^term>\<open>length s\<close>.  A \<open>Result<T, E>\<close> is the sum \<open>'e + 't\<close> with the error on
  the left.  A third-party serializer is a value of the record \<open>codec\<close>.
\<close>

named_theorems bytes_simps "facts about fixed-width byte encodings"
named_theorems scope_defs "definitions of the canonical signed scopes"
named_theorems log_intros "introduction rules for log invariants"

type_synonym byte = "8 word"
type_synonym u8 = "8 word"
type_synonym u32 = "32 word"
type_synonym u64 = "64 word"

text \<open>A third-party serializer for one type: what \<open>postcard::to_allocvec\<close> and
  \<open>postcard::from_bytes\<close> do on it is a parameter; a rejected input carries the text
  of the library's error.\<close>

record 'a codec =
  enc :: "'a \<Rightarrow> byte list"
  dec :: "byte list \<Rightarrow> string + 'a"

definition codec_ok :: "'a codec \<Rightarrow> bool" where
  "codec_ok c \<longleftrightarrow> (\<forall>x. dec c (enc c x) = Inr x)"

text \<open>\<open>uN::to_be_bytes\<close> on the numeric value and its inverse \<open>uN::from_be_bytes\<close>.\<close>

fun be_bytes :: "nat \<Rightarrow> nat \<Rightarrow> byte list" where
  "be_bytes 0 v = []"
| "be_bytes (Suc n) v = be_bytes n (v div 256) @ [of_nat (v mod 256)]"

definition from_be :: "byte list \<Rightarrow> nat" where
  "from_be bs = foldl (\<lambda>a b. a * 256 + unat b) 0 bs"

definition to_be_bytes_u64 :: "u64 \<Rightarrow> byte list" where
  "to_be_bytes_u64 w = be_bytes 8 (unat w)"

definition str_bytes :: "string \<Rightarrow> byte list" where
  "str_bytes s = map of_char s"

text \<open>\<open>u64::checked_add(1)\<close>, \<open>u64::saturating_add(1)\<close> and \<open>u64::saturating_sub\<close>.\<close>

definition u64_MAX :: u64 where
  "u64_MAX = - 1"

definition checked_add_1 :: "u64 \<Rightarrow> u64 option" where
  "checked_add_1 w = (if w = u64_MAX then None else Some (w + 1))"

definition saturating_add_1 :: "u64 \<Rightarrow> u64" where
  "saturating_add_1 w = (if w = u64_MAX then u64_MAX else w + 1)"

definition saturating_sub :: "u64 \<Rightarrow> u64 \<Rightarrow> u64" where
  "saturating_sub a b = (if a < b then 0 else a - b)"

text \<open>
  \<open>slice::partition_point\<close>, as the binary search the standard library runs: on a
  slice that is not partitioned by the predicate it returns whatever the
  bisection meets.  \<open>pp_search P xs base sz\<close> is the loop with \<open>sz\<close> elements left
  from \<open>base\<close> on; it narrows until one element is left, then compares it.
\<close>

function pp_search :: "('a \<Rightarrow> bool) \<Rightarrow> 'a list \<Rightarrow> nat \<Rightarrow> nat \<Rightarrow> nat" where
  "pp_search P xs base sz =
    (if sz = 0 then base
     else if sz = 1 then (if P (xs ! base) then base + 1 else base)
     else let half = sz div 2; mid = base + half
          in pp_search P xs (if P (xs ! mid) then mid else base) (sz - half))"
  by pat_completeness auto
termination
  by (relation "measure (\<lambda>(P, xs, base, sz). sz)") auto

declare pp_search.simps [simp del]

definition partition_point :: "('a \<Rightarrow> bool) \<Rightarrow> 'a list \<Rightarrow> nat" where
  "partition_point P xs = pp_search P xs 0 (length xs)"

definition insert_at :: "nat \<Rightarrow> 'a \<Rightarrow> 'a list \<Rightarrow> 'a list" where
  "insert_at i x xs = take i xs @ x # drop i xs"

definition partitioned :: "('a \<Rightarrow> bool) \<Rightarrow> 'a list \<Rightarrow> bool" where
  "partitioned P xs \<longleftrightarrow> (\<forall>i j. i < j \<and> j < length xs \<and> P (xs ! j) \<longrightarrow> P (xs ! i))"

subsection \<open>Byte encodings\<close>

lemma codec_okD: "codec_ok c \<Longrightarrow> dec c (enc c x) = Inr x"
  by (simp add: codec_ok_def)

lemma codec_ok_inj:
  assumes "codec_ok c"
  shows "enc c x = enc c y \<longleftrightarrow> x = y"
proof
  assume "enc c x = enc c y"
  then have "dec c (enc c x) = dec c (enc c y)" by (rule arg_cong)
  then show "x = y" by (simp only: codec_okD [OF assms] sum.inject)
qed simp

lemma length_be_bytes [simp, bytes_simps]: "length (be_bytes n v) = n"
  by (induction n arbitrary: v) auto

lemma length_to_be_bytes_u64 [simp, bytes_simps]: "length (to_be_bytes_u64 w) = 8"
  by (simp add: to_be_bytes_u64_def)

lemma from_be_snoc: "from_be (bs @ [b]) = from_be bs * 256 + unat b"
  by (simp add: from_be_def)

lemma from_be_Nil [simp]: "from_be [] = 0"
  by (simp add: from_be_def)

lemma from_be_be_bytes: "from_be (be_bytes n v) = v mod 256 ^ n"
proof (induction n arbitrary: v)
  case (Suc n)
  have "unat (of_nat (v mod 256) :: byte) = v mod 256"
    by (simp add: unat_of_nat)
  then show ?case
    using Suc by (simp add: from_be_snoc mod_mult2_eq mult.commute)
qed simp

lemma be_bytes_inj:
  assumes "v < 256 ^ n" "w < 256 ^ n"
  shows "be_bytes n v = be_bytes n w \<longleftrightarrow> v = w"
proof
  assume "be_bytes n v = be_bytes n w"
  then have "from_be (be_bytes n v) = from_be (be_bytes n w)" by (rule arg_cong)
  then show "v = w" by (simp only: from_be_be_bytes mod_less assms)
qed simp

lemma from_be_bound: "from_be bs < 256 ^ length bs"
proof (induction bs rule: rev_induct)
  case (snoc b bs)
  have "unat b < 256" using unsigned_less [of b] by simp
  with snoc show ?case by (simp add: from_be_snoc)
qed simp

lemma be_bytes_from_be: "be_bytes (length bs) (from_be bs) = bs"
proof (induction bs rule: rev_induct)
  case (snoc b bs)
  have "unat b < 256" using unsigned_less [of b] by simp
  with snoc show ?case by (simp add: from_be_snoc)
qed simp

lemma to_be_bytes_u64_inj [simp, bytes_simps]: "to_be_bytes_u64 v = to_be_bytes_u64 w \<longleftrightarrow> v = w"
proof
  have bound: "unat u < 256 ^ 8" for u :: u64
    using unsigned_less [of u] by simp
  assume "to_be_bytes_u64 v = to_be_bytes_u64 w"
  then have "unat v = unat w"
    unfolding to_be_bytes_u64_def by (simp only: be_bytes_inj [OF bound bound])
  then show "v = w" by (rule unsigned_word_eqI)
qed simp

lemma length_str_bytes [simp, bytes_simps]: "length (str_bytes s) = length s"
  by (simp add: str_bytes_def)

lemma unat_of_char [simp]: "unat (of_char c :: byte) = of_char c"
proof -
  have "unat (of_char c :: byte) = unat (of_nat (of_char c) :: byte)" by (simp only: of_nat_of_char)
  also have "\<dots> = of_char c mod 2 ^ 8" by (simp only: unat_of_nat) simp
  also have "\<dots> = of_char c" by (rule mod_less) simp
  finally show ?thesis .
qed

lemma of_char_byte_inj [simp]: "(of_char c :: byte) = of_char d \<longleftrightarrow> c = d"
proof
  assume "(of_char c :: byte) = of_char d"
  then have "unat (of_char c :: byte) = unat (of_char d :: byte)" by (rule arg_cong)
  then have "(of_char c :: nat) = of_char d" by (simp only: unat_of_char)
  then show "c = d" by (simp only: of_char_eq_iff)
qed simp

lemma str_bytes_inj [simp, bytes_simps]: "str_bytes s = str_bytes t \<longleftrightarrow> s = t"
  unfolding str_bytes_def by (rule inj_map_eq_map) (simp add: inj_def)

subsection \<open>Checked and saturating arithmetic\<close>

lemma unat_add_1: "w \<noteq> u64_MAX \<Longrightarrow> unat (w + 1) = unat w + 1"
  using unatSuc [of w] by (simp add: u64_MAX_def add_eq_0_iff add.commute)

lemma checked_add_1_Some: "checked_add_1 w = Some v \<longleftrightarrow> w \<noteq> u64_MAX \<and> v = w + 1"
  by (auto simp: checked_add_1_def)

lemma less_add_1: "w \<noteq> u64_MAX \<Longrightarrow> w < w + 1"
  by (simp add: word_less_nat_alt unat_add_1)

lemma le_u64_MAX [simp]: "w \<le> u64_MAX"
  by (simp add: u64_MAX_def)

lemma saturating_add_1_mono: "w \<le> saturating_add_1 w"
  by (auto simp: saturating_add_1_def dest: less_add_1)

lemma saturating_add_1_less: "w \<noteq> u64_MAX \<Longrightarrow> w < saturating_add_1 w"
  by (simp add: saturating_add_1_def less_add_1)

subsection \<open>Bisection and insertion\<close>

lemma partitionedD: "\<lbrakk>partitioned P xs; P (xs ! j); i \<le> j; j < length xs\<rbrakk> \<Longrightarrow> P (xs ! i)"
  unfolding partitioned_def by (cases "i = j") (auto dest: le_neq_implies_less)

lemma pp_search_spec:
  assumes "partitioned P xs" "base + sz \<le> length xs" "0 < sz \<or> length xs = 0"
    and "\<forall>i < base. P (xs ! i)" "\<forall>i. base + sz \<le> i \<and> i < length xs \<longrightarrow> \<not> P (xs ! i)"
  shows "pp_search P xs base sz \<le> length xs
    \<and> (\<forall>i < pp_search P xs base sz. P (xs ! i))
    \<and> (\<forall>i. pp_search P xs base sz \<le> i \<and> i < length xs \<longrightarrow> \<not> P (xs ! i))"
  using assms
proof (induction P xs base sz rule: pp_search.induct)
  case (1 P xs base sz)
  show ?case
  proof (cases "sz \<le> 1")
    case True
    then consider "sz = 0" | "sz = 1" by linarith
    then show ?thesis
    proof cases
      case 1
      then show ?thesis using "1.prems" by (auto simp: pp_search.simps [of _ _ _ 0])
    next
      case 2
      have "\<not> P (xs ! i)" if "\<not> P (xs ! base)" "base \<le> i" "i < length xs" for i
        using that 2 "1.prems"(5) by (cases "i = base") auto
      with 2 show ?thesis
        using "1.prems" by (auto simp: pp_search.simps [of _ _ _ "Suc 0"] less_Suc_eq)
    qed
  next
    case False
    let ?h = "sz div 2"
    let ?b = "if P (xs ! (base + ?h)) then base + ?h else base"
    have step: "pp_search P xs base sz = pp_search P xs ?b (sz - ?h)"
      using False by (subst pp_search.simps) (simp add: Let_def)
    have "base + ?h < length xs" using "1.prems"(2) False by linarith
    with "1.prems"(1,4) have below: "\<forall>i < ?b. P (xs ! i)"
      by (auto elim: partitionedD)
    have above: "\<forall>i. ?b + (sz - ?h) \<le> i \<and> i < length xs \<longrightarrow> \<not> P (xs ! i)"
    proof (intro allI impI)
      fix i assume i: "?b + (sz - ?h) \<le> i \<and> i < length xs"
      show "\<not> P (xs ! i)"
      proof (cases "P (xs ! (base + ?h))")
        case True
        with i "1.prems"(5) show ?thesis by simp
      next
        case n: False
        with i have "base + (sz - ?h) \<le> i" by simp
        then have "base + ?h \<le> i" by linarith
        with n i "1.prems"(1) show ?thesis by (blast dest: partitionedD)
      qed
    qed
    have "sz \<noteq> 0" "sz \<noteq> 1" "?b + (sz - ?h) \<le> length xs" "0 < sz - ?h \<or> length xs = 0"
      using "1.prems"(2) False by (simp, simp, simp split: if_split, linarith, linarith)
    from "1.IH" [OF this(1,2) refl refl "1.prems"(1) this(3,4) below above]
    show ?thesis unfolding step .
  qed
qed

lemma partition_point_spec:
  assumes "partitioned P xs"
  shows "partition_point P xs \<le> length xs"
    and "i < partition_point P xs \<Longrightarrow> P (xs ! i)"
    and "\<lbrakk>partition_point P xs \<le> i; i < length xs\<rbrakk> \<Longrightarrow> \<not> P (xs ! i)"
proof -
  have "0 < length xs \<or> length xs = 0" "\<forall>i. 0 + length xs \<le> i \<and> i < length xs \<longrightarrow> \<not> P (xs ! i)"
    by auto
  note spec = pp_search_spec [OF assms _ this(1) _ this(2), simplified, folded partition_point_def]
  show "partition_point P xs \<le> length xs" by (rule conjunct1 [OF spec])
  show "i < partition_point P xs \<Longrightarrow> P (xs ! i)" using spec by blast
  show "\<lbrakk>partition_point P xs \<le> i; i < length xs\<rbrakk> \<Longrightarrow> \<not> P (xs ! i)" using spec by blast
qed

lemma partition_point_takeWhile:
  assumes "partitioned P xs"
  shows "partition_point P xs = length (takeWhile P xs)"
proof (rule antisym)
  let ?n = "partition_point P xs" and ?w = "length (takeWhile P xs)"
  show "?w \<le> ?n"
  proof (rule ccontr)
    assume "\<not> ?w \<le> ?n"
    then have "?n < length xs" "P (xs ! ?n)"
      using length_takeWhile_le [of P xs] takeWhile_nth [of ?n P xs] set_takeWhileD [of "xs ! ?n" P xs]
      by auto (metis not_le nth_mem set_takeWhileD)
    then show False using partition_point_spec(3) [OF assms] by blast
  qed
  show "?n \<le> ?w"
  proof (rule ccontr)
    assume w: "\<not> ?n \<le> ?w"
    then have "?w < length xs" using partition_point_spec(1) [OF assms] by simp
    then have "\<not> P (xs ! ?w)" by (rule nth_length_takeWhile)
    with w show False using partition_point_spec(2) [OF assms, of ?w] by simp
  qed
qed

lemma set_insert_at [simp]: "set (insert_at i x xs) = insert x (set xs)"
proof -
  have "set (take i xs) \<union> set (drop i xs) = set xs"
    by (simp flip: set_append)
  then show ?thesis by (simp add: insert_at_def)
qed

lemma length_insert_at [simp]: "length (insert_at i x xs) = Suc (length xs)"
  by (simp add: insert_at_def)

end
