(* ===== verification/Ids.thy ===== *)
theory Ids
  imports Prelude
begin

unbundle bit_operations_syntax

text \<open>
  The identifiers of \<open>artel-protocol/src/ids.rs\<close>.  A fixed byte array \<open>[u8; N]\<close> behind a
  newtype is a word of \<open>8 * N\<close> bits, read big-endian, so that every value of the model
  type is a value of the Rust type and the derived byte-wise order is the order of
  the word.  The hex codec of \<open>serde_bytes_array\<close> works on byte lists, for every \<open>N\<close>.
\<close>

subsection \<open>Newtypes\<close>

datatype session_id = SessionId (sid_uuid: "128 word")
datatype ticket_id = TicketId (tid_uuid: "128 word")
datatype peer_id = PeerId (pid_bits: "256 word")
datatype seq = Seq (seq_get: u64)

definition sid_as_bytes :: "session_id \<Rightarrow> byte list" where
  "sid_as_bytes s = be_bytes 16 (unat (sid_uuid s))"

definition tid_as_bytes :: "ticket_id \<Rightarrow> byte list" where
  "tid_as_bytes t = be_bytes 16 (unat (tid_uuid t))"

definition pid_as_bytes :: "peer_id \<Rightarrow> byte list" where
  "pid_as_bytes p = be_bytes 32 (unat (pid_bits p))"

definition pid_from_bytes :: "byte list \<Rightarrow> peer_id" where
  "pid_from_bytes bs = PeerId (of_nat (from_be bs))"

definition Seq_ZERO :: seq where
  "Seq_ZERO = Seq 0"

definition seq_next :: "seq \<Rightarrow> seq option" where
  "seq_next s = map_option Seq (checked_add_1 (seq_get s))"

text \<open>The derived \<open>PartialOrd\<close>/\<open>Ord\<close> of the newtypes compare the wrapped value.\<close>

instantiation seq :: linorder
begin
definition less_eq_seq :: "seq \<Rightarrow> seq \<Rightarrow> bool" where
  "s \<le> t \<longleftrightarrow> seq_get s \<le> seq_get t"
definition less_seq :: "seq \<Rightarrow> seq \<Rightarrow> bool" where
  "s < t \<longleftrightarrow> seq_get s < seq_get t"
instance
  by standard (auto simp: less_eq_seq_def less_seq_def intro: seq.expand)
end

instantiation peer_id :: linorder
begin
definition less_eq_peer_id :: "peer_id \<Rightarrow> peer_id \<Rightarrow> bool" where
  "p \<le> q \<longleftrightarrow> pid_bits p \<le> pid_bits q"
definition less_peer_id :: "peer_id \<Rightarrow> peer_id \<Rightarrow> bool" where
  "p < q \<longleftrightarrow> pid_bits p < pid_bits q"
instance
  by standard (auto simp: less_eq_peer_id_def less_peer_id_def intro: peer_id.expand)
end

subsection \<open>The hex form\<close>

definition HEX_LOWER :: string where
  "HEX_LOWER = ''0123456789abcdef''"

definition hex_byte :: "byte \<Rightarrow> string" where
  "hex_byte b = [HEX_LOWER ! unat (drop_bit 4 b), HEX_LOWER ! unat (b AND 0x0f)]"

definition serialize_hex :: "byte list \<Rightarrow> string" where
  "serialize_hex bs = concat (map hex_byte bs)"

definition to_hex :: "peer_id \<Rightarrow> string" where
  "to_hex p = serialize_hex (pid_as_bytes p)"

definition decode_nibble :: "byte \<Rightarrow> byte option" where
  "decode_nibble b =
    (if of_char (CHR ''0'') \<le> b \<and> b \<le> of_char (CHR ''9'') then Some (b - of_char (CHR ''0''))
     else if of_char (CHR ''a'') \<le> b \<and> b \<le> of_char (CHR ''f'') then Some (b - of_char (CHR ''a'') + 10)
     else if of_char (CHR ''A'') \<le> b \<and> b \<le> of_char (CHR ''F'') then Some (b - of_char (CHR ''A'') + 10)
     else None)"

datatype array_error = InvalidLength nat | InvalidHex

fun decode_chunks :: "byte list \<Rightarrow> array_error + byte list" where
  "decode_chunks (c0 # c1 # rest) =
    (case decode_nibble c0 of
      None \<Rightarrow> Inl InvalidHex
    | Some hi \<Rightarrow>
        (case decode_nibble c1 of
          None \<Rightarrow> Inl InvalidHex
        | Some lo \<Rightarrow>
            (case decode_chunks rest of
              Inl e \<Rightarrow> Inl e
            | Inr out \<Rightarrow> Inr ((push_bit 4 hi OR lo) # out))))"
| "decode_chunks _ = Inr []"

definition visit_str :: "nat \<Rightarrow> string \<Rightarrow> array_error + byte list" where
  "visit_str N s =
    (if length s \<noteq> N * 2 then Inl (InvalidLength (length s))
     else decode_chunks (str_bytes s))"

definition visit_bytes :: "nat \<Rightarrow> byte list \<Rightarrow> array_error + byte list" where
  "visit_bytes N v = (if length v = N then Inr v else Inl (InvalidLength (length v)))"

text \<open>\<open>visit_seq\<close> pulls elements one by one: the first missing one is reported by its index,
  a surplus one as \<open>N + 1\<close>.\<close>

definition visit_seq :: "nat \<Rightarrow> byte list \<Rightarrow> array_error + byte list" where
  "visit_seq N xs =
    (if length xs < N then Inl (InvalidLength (length xs))
     else if length xs > N then Inl (InvalidLength (N + 1))
     else Inr xs)"

subsection \<open>Facts about the identifiers\<close>

lemma unat_bound_bytes: "LENGTH('a) = 8 * n \<Longrightarrow> unat (w :: 'a::len word) < 256 ^ n"
  using unsigned_less [of w, where ?'a = nat] by (simp add: power_mult)

lemma be_bytes_word_inj:
  "LENGTH('a) = 8 * n \<Longrightarrow> be_bytes n (unat v) = be_bytes n (unat (w :: 'a::len word)) \<longleftrightarrow> v = w"
  by (simp only: be_bytes_inj unat_bound_bytes word_unat_eq_iff)

lemma length_ids [simp, bytes_simps]:
  "length (sid_as_bytes s) = 16" "length (tid_as_bytes t) = 16" "length (pid_as_bytes p) = 32"
  by (simp_all only: sid_as_bytes_def tid_as_bytes_def pid_as_bytes_def length_be_bytes)

lemma ids_as_bytes_inj [simp, bytes_simps]:
  "sid_as_bytes s = sid_as_bytes s' \<longleftrightarrow> s = s'"
  "tid_as_bytes t = tid_as_bytes t' \<longleftrightarrow> t = t'"
  "pid_as_bytes p = pid_as_bytes p' \<longleftrightarrow> p = p'"
  unfolding sid_as_bytes_def tid_as_bytes_def pid_as_bytes_def
  by (subst be_bytes_word_inj; auto simp: session_id.expand ticket_id.expand peer_id.expand)+

lemma pid_from_as_bytes [simp]: "pid_from_bytes (pid_as_bytes p) = p"
proof -
  have "unat (pid_bits p) < 256 ^ 32" by (rule unat_bound_bytes) simp
  then show ?thesis
    by (simp add: pid_from_bytes_def pid_as_bytes_def from_be_be_bytes del: be_bytes.simps)
qed

lemma pid_as_from_bytes: "length bs = 32 \<Longrightarrow> pid_as_bytes (pid_from_bytes bs) = bs"
  using from_be_bound [of bs] be_bytes_from_be [of bs]
  by (simp add: pid_from_bytes_def pid_as_bytes_def unat_of_nat del: be_bytes.simps)

lemma seq_next_Some: "seq_next s = Some t \<longleftrightarrow> seq_get s \<noteq> u64_MAX \<and> t = Seq (seq_get s + 1)"
  by (auto simp: seq_next_def checked_add_1_def)

lemma seq_next_less: "seq_next s = Some t \<Longrightarrow> s < t"
  by (auto simp: seq_next_Some less_seq_def less_add_1)

subsection \<open>The hex round trip\<close>

lemma decode_nibble_hex:
  assumes "n < 16"
  shows "decode_nibble (of_char (HEX_LOWER ! n)) = Some (of_nat n)"
proof -
  have "\<forall>i\<in>set [0..<16]. decode_nibble (of_char (HEX_LOWER ! i)) = Some (of_nat i)"
    by code_simp
  with assms show ?thesis by simp
qed

lemma and_0x0f: "b AND 0x0f = take_bit 4 (b :: byte)"
  by (simp add: take_bit_eq_mask mask_eq_exp_minus_1)

lemma nibbles_lt: "unat (drop_bit 4 (b :: byte)) < 16" "unat (b AND 0x0f :: byte) < 16"
proof -
  have "unat b < 256" using unsigned_less [of b] by simp
  then show "unat (drop_bit 4 b) < 16" by (simp add: drop_bit_eq_div unat_div)
  show "unat (b AND 0x0f :: byte) < 16"
    by (simp add: and_0x0f take_bit_eq_mod unat_mod)
qed

lemma byte_of_nibbles: "push_bit 4 (drop_bit 4 b) OR (b AND 0x0f) = (b :: byte)"
  unfolding and_0x0f by (rule bit_word_eqI) (auto simp: bit_simps)

lemma decode_chunks_hex: "decode_chunks (str_bytes (serialize_hex bs)) = Inr bs"
proof (induction bs)
  case (Cons b bs)
  then show ?case
    by (simp add: serialize_hex_def hex_byte_def str_bytes_def decode_nibble_hex nibbles_lt byte_of_nibbles)
qed (simp add: serialize_hex_def str_bytes_def)

lemma length_serialize_hex [simp]: "length (serialize_hex bs) = length bs * 2"
  by (induction bs) (simp_all add: serialize_hex_def hex_byte_def)

lemma decode_chunks_length: "decode_chunks cs = Inr bs \<Longrightarrow> length bs = length cs div 2"
  by (induction cs arbitrary: bs rule: decode_chunks.induct)
    (auto split: option.splits sum.splits)

lemma serialize_hex_inj: "serialize_hex bs = serialize_hex cs \<longleftrightarrow> bs = cs"
  by (metis decode_chunks_hex sum.inject(2))

end
