(* ===== verification/Message.thy ===== *)
theory Message
  imports Ids
begin

text \<open>
  The wire data of \<open>artel-protocol\<close>: \<open>message.rs\<close> (the session message envelope),
  \<open>capability.rs\<close> (tiers and the grant/revoke verb), \<open>version.rs\<close> and \<open>error.rs\<close>.
  The postcard encoding of a \<open>CapabilityAction\<close> is a \<open>codec\<close> parameter.
\<close>

subsection \<open>Versions and errors\<close>

datatype protocol_version = ProtocolVersion (pv_get: u32)

definition PROTOCOL_VERSION :: protocol_version where
  "PROTOCOL_VERSION = ProtocolVersion 14"

record version_mismatch =
  vm_client :: protocol_version
  vm_daemon :: protocol_version

datatype protocol_error =
    PVersionMismatch version_mismatch
  | PUnknownSession session_id
  | PNotSubscribed session_id
  | PInvalidTicket
  | PNotReady
  | PNotHost
  | PSessionConflict session_id
  | PSignature string
  | PCapability string
  | PInternal string
  | PUnknownTicket ticket_id
  | PPayloadTooLarge (ptl_size: u64) (ptl_max: u64)

fun slug :: "protocol_error \<Rightarrow> string" where
  "slug (PVersionMismatch _) = ''version_mismatch''"
| "slug (PUnknownSession _) = ''unknown_session''"
| "slug (PNotSubscribed _) = ''not_subscribed''"
| "slug PInvalidTicket = ''invalid_ticket''"
| "slug PNotReady = ''not_ready''"
| "slug PNotHost = ''not_host''"
| "slug (PSessionConflict _) = ''session_conflict''"
| "slug (PSignature _) = ''signature''"
| "slug (PCapability _) = ''capability''"
| "slug (PUnknownTicket _) = ''unknown_ticket''"
| "slug (PInternal _) = ''internal''"
| "slug (PPayloadTooLarge _ _) = ''payload_too_large''"

subsection \<open>The message envelope\<close>

datatype message_format = MessageFormat (mf_get: u8)

definition MESSAGE_FORMAT :: message_format where
  "MESSAGE_FORMAT = MessageFormat 3"

instantiation message_format :: linorder
begin
definition less_eq_message_format :: "message_format \<Rightarrow> message_format \<Rightarrow> bool" where
  "v \<le> w \<longleftrightarrow> mf_get v \<le> mf_get w"
definition less_message_format :: "message_format \<Rightarrow> message_format \<Rightarrow> bool" where
  "v < w \<longleftrightarrow> mf_get v < mf_get w"
instance
  by standard (auto simp: less_eq_message_format_def less_message_format_def intro: message_format.expand)
end

text \<open>\<open>SigBytes = [u8; 64]\<close>.\<close>

type_synonym sig_bytes = "512 word"

definition SIGNATURE_UNSIGNED :: sig_bytes where
  "SIGNATURE_UNSIGNED = 0"

definition sig_as_bytes :: "sig_bytes \<Rightarrow> byte list" where
  "sig_as_bytes s = be_bytes 64 (unat s)"

text \<open>\<open>signature_serde\<close>: the human-readable form is the hex form of the 64 bytes.\<close>

definition sig_serialize_hex :: "sig_bytes \<Rightarrow> string" where
  "sig_serialize_hex s = serialize_hex (sig_as_bytes s)"

definition sig_visit_str :: "string \<Rightarrow> array_error + sig_bytes" where
  "sig_visit_str s =
    (if length s \<noteq> 128 then Inl (InvalidLength (length s))
     else case decode_chunks (str_bytes s) of
       Inl e \<Rightarrow> Inl e
     | Inr out \<Rightarrow> Inr (of_nat (from_be out)))"

definition sig_visit_bytes :: "byte list \<Rightarrow> array_error + sig_bytes" where
  "sig_visit_bytes v =
    (if length v = 64 then Inr (of_nat (from_be v)) else Inl (InvalidLength (length v)))"

definition UPGRADE_ACTION :: string where
  "UPGRADE_ACTION = ''workspace.upgrade''"

definition DOWNGRADE_ACTION :: string where
  "DOWNGRADE_ACTION = ''workspace.downgrade''"

definition ROTATE_ACTION :: string where
  "ROTATE_ACTION = ''workspace.rotate''"

definition TICKET_ACTION :: string where
  "TICKET_ACTION = ''workspace.ticket''"

lemmas reserved_action_defs = UPGRADE_ACTION_def DOWNGRADE_ACTION_def ROTATE_ACTION_def TICKET_ACTION_def

record peer_info =
  pi_id :: peer_id
  pi_display_name :: string

datatype message_kind = Chat | Tool | System | CapabilityKind

record session_message =
  m_version :: message_format
  m_seq :: seq
  m_timestamp_ms :: u64
  m_peer :: peer_info
  m_kind :: message_kind
  m_action :: string
  m_payload :: "byte list"
  m_signature :: sig_bytes
  m_host_sig :: sig_bytes

definition session_message_new ::
  "seq \<Rightarrow> u64 \<Rightarrow> peer_info \<Rightarrow> message_kind \<Rightarrow> string \<Rightarrow> byte list \<Rightarrow> sig_bytes \<Rightarrow> sig_bytes
    \<Rightarrow> session_message" where
  "session_message_new sq ts peer kind action payload sig hsig =
    \<lparr> m_version = MESSAGE_FORMAT, m_seq = sq, m_timestamp_ms = ts, m_peer = peer, m_kind = kind,
      m_action = action, m_payload = payload, m_signature = sig, m_host_sig = hsig \<rparr>"

subsection \<open>Capabilities\<close>

definition ACTION_GRANT :: string where
  "ACTION_GRANT = ''capability.grant''"

definition ACTION_REVOKE :: string where
  "ACTION_REVOKE = ''capability.revoke''"

datatype capability = Read | ReadWrite

fun permits_write :: "capability \<Rightarrow> bool" where
  "permits_write ReadWrite = True"
| "permits_write Read = False"

datatype capability_action =
    Grant (ca_peer: peer_id) (ca_cap: capability)
  | Revoke (ca_peer: peer_id)

definition encode_cap_action :: "capability_action codec \<Rightarrow> capability_action \<Rightarrow> byte list" where
  "encode_cap_action pc a = enc pc a"

definition decode_cap_action :: "capability_action codec \<Rightarrow> byte list \<Rightarrow> protocol_error + capability_action" where
  "decode_cap_action pc bytes =
    (case dec pc bytes of
      Inl e \<Rightarrow> Inl (PCapability (''malformed capability payload: '' @ e))
    | Inr a \<Rightarrow> Inr a)"

fun action_str :: "capability_action \<Rightarrow> string" where
  "action_str (Grant _ _) = ACTION_GRANT"
| "action_str (Revoke _) = ACTION_REVOKE"

subsection \<open>Facts\<close>

lemma length_sig_as_bytes [simp, bytes_simps]: "length (sig_as_bytes s) = 64"
  by (simp only: sig_as_bytes_def length_be_bytes)

lemma sig_as_bytes_inj [simp, bytes_simps]: "sig_as_bytes s = sig_as_bytes t \<longleftrightarrow> s = t"
  unfolding sig_as_bytes_def by (rule be_bytes_word_inj) simp

lemma decode_encode_cap_action [simp]:
  "codec_ok pc \<Longrightarrow> decode_cap_action pc (encode_cap_action pc a) = Inr a"
  by (simp add: decode_cap_action_def encode_cap_action_def codec_okD)

lemma permits_write_iff [simp]: "permits_write c \<longleftrightarrow> c = ReadWrite"
  by (cases c) simp_all

lemma sig_from_as_bytes: "of_nat (from_be (sig_as_bytes s)) = s"
proof -
  have "unat s < 256 ^ 64" by (rule unat_bound_bytes) simp
  then show ?thesis by (simp add: sig_as_bytes_def from_be_be_bytes del: be_bytes.simps)
qed

end
