(* ===== verification/Sample_Codec.thy ===== *)
theory Sample_Codec
  imports Message
begin

text \<open>
  Concrete serializers, built from self-delimiting parsers, that satisfy the round trip
  hypothesis \<^const>\<open>codec_ok\<close> made about postcard.  They are used only to instantiate
  the serializer parameters where a theorem is applied to concrete data; no model
  definition mentions them.
\<close>

type_synonym 'a pcodec = "('a \<Rightarrow> byte list) \<times> (byte list \<Rightarrow> ('a \<times> byte list) option)"

definition self_delim :: "'a pcodec \<Rightarrow> bool" where
  "self_delim p \<longleftrightarrow> (\<forall>x rest. snd p (fst p x @ rest) = Some (x, rest))"

definition to_codec :: "'a pcodec \<Rightarrow> 'a codec" where
  "to_codec p = \<lparr> enc = fst p,
    dec = (\<lambda>bs. case snd p bs of Some (x, []) \<Rightarrow> Inr x | _ \<Rightarrow> Inl ''malformed'') \<rparr>"

definition sd_unit :: "unit pcodec" where
  "sd_unit = (\<lambda>_. [], \<lambda>bs. Some ((), bs))"

definition sd_pair :: "'a pcodec \<Rightarrow> 'b pcodec \<Rightarrow> ('a \<times> 'b) pcodec" where
  "sd_pair p q = (\<lambda>(a, b). fst p a @ fst q b,
    \<lambda>bs. case snd p bs of None \<Rightarrow> None
      | Some (a, r) \<Rightarrow> (case snd q r of None \<Rightarrow> None | Some (b, r') \<Rightarrow> Some ((a, b), r')))"

definition sd_sum :: "'a pcodec \<Rightarrow> 'b pcodec \<Rightarrow> ('a + 'b) pcodec" where
  "sd_sum p q = (\<lambda>s. case s of Inl a \<Rightarrow> 0 # fst p a | Inr b \<Rightarrow> 1 # fst q b,
    \<lambda>bs. case bs of [] \<Rightarrow> None
      | t # r \<Rightarrow> if t = 0 then map_option (apfst Inl) (snd p r)
                 else if t = 1 then map_option (apfst Inr) (snd q r) else None)"

definition sd_iso :: "('a \<Rightarrow> 'b) \<Rightarrow> ('b \<Rightarrow> 'a) \<Rightarrow> 'b pcodec \<Rightarrow> 'a pcodec" where
  "sd_iso f g p = (\<lambda>x. fst p (f x), \<lambda>bs. map_option (apfst g) (snd p bs))"

definition sd_word :: "nat \<Rightarrow> 'a::len word pcodec" where
  "sd_word n = (\<lambda>w. be_bytes n (unat w),
    \<lambda>bs. if length bs < n then None else Some (of_nat (from_be (take n bs)), drop n bs))"

fun get_bytes :: "byte list \<Rightarrow> (byte list \<times> byte list) option" where
  "get_bytes [] = None"
| "get_bytes (t # r) =
    (if t = 0 then Some ([], r)
     else case r of [] \<Rightarrow> None | b # r' \<Rightarrow> map_option (apfst (Cons b)) (get_bytes r'))"

definition sd_bytes :: "byte list pcodec" where
  "sd_bytes = (\<lambda>bs. concat (map (\<lambda>b. [1, b]) bs) @ [0], get_bytes)"

text \<open>Lists: the number of elements in unary, then the elements.\<close>

fun get_count :: "byte list \<Rightarrow> (nat \<times> byte list) option" where
  "get_count [] = None"
| "get_count (t # r) = (if t = 0 then Some (0, r) else map_option (apfst Suc) (get_count r))"

fun get_list :: "'a pcodec \<Rightarrow> nat \<Rightarrow> byte list \<Rightarrow> ('a list \<times> byte list) option" where
  "get_list p 0 bs = Some ([], bs)"
| "get_list p (Suc n) bs =
    (case snd p bs of None \<Rightarrow> None | Some (x, r) \<Rightarrow> map_option (apfst (Cons x)) (get_list p n r))"

definition sd_list :: "'a pcodec \<Rightarrow> 'a list pcodec" where
  "sd_list p = (\<lambda>xs. replicate (length xs) 1 @ [0] @ concat (map (fst p) xs),
    \<lambda>bs. case get_count bs of None \<Rightarrow> None | Some (n, r) \<Rightarrow> get_list p n r)"

definition sd_string :: "string pcodec" where
  "sd_string = sd_iso (map of_char) (map (\<lambda>b :: byte. char_of (unat b))) sd_bytes"

definition sd_peer_info :: "peer_info pcodec" where
  "sd_peer_info = sd_iso (\<lambda>p. (pid_bits (pi_id p), pi_display_name p))
    (\<lambda>(i, n). \<lparr> pi_id = PeerId i, pi_display_name = n \<rparr>) (sd_pair (sd_word 32) sd_string)"

definition sd_kind :: "message_kind pcodec" where
  "sd_kind = sd_iso (\<lambda>k. case k of Chat \<Rightarrow> 0 | Tool \<Rightarrow> 1 | System \<Rightarrow> 2 | CapabilityKind \<Rightarrow> (3 :: byte))
    (\<lambda>b. if b = 0 then Chat else if b = 1 then Tool else if b = 2 then System else CapabilityKind)
    (sd_word 1)"

definition sd_message :: "session_message pcodec" where
  "sd_message = sd_iso
    (\<lambda>m. ((mf_get (m_version m), seq_get (m_seq m)), (m_timestamp_ms m, m_peer m), (m_kind m, m_action m),
      m_payload m, m_signature m, m_host_sig m))
    (\<lambda>((v, s), (t, p), (k, a), pl, sg, hs).
      \<lparr> m_version = MessageFormat v, m_seq = Seq s, m_timestamp_ms = t, m_peer = p, m_kind = k,
        m_action = a, m_payload = pl, m_signature = sg, m_host_sig = hs \<rparr>)
    (sd_pair (sd_pair (sd_word 1) (sd_word 8)) (sd_pair (sd_pair (sd_word 8) sd_peer_info)
      (sd_pair (sd_pair sd_kind sd_string) (sd_pair sd_bytes (sd_pair (sd_word 64) (sd_word 64))))))"

definition sd_cap :: "capability pcodec" where
  "sd_cap = sd_iso (\<lambda>c. case c of Read \<Rightarrow> 0 | ReadWrite \<Rightarrow> (1 :: byte))
    (\<lambda>b. if b = 0 then Read else ReadWrite) (sd_word 1)"

definition sd_cap_action :: "capability_action pcodec" where
  "sd_cap_action = sd_iso
    (\<lambda>a. case a of Grant p c \<Rightarrow> Inl (pid_bits p, c) | Revoke p \<Rightarrow> Inr (pid_bits p))
    (\<lambda>s. case s of Inl (p, c) \<Rightarrow> Grant (PeerId p) c | Inr p \<Rightarrow> Revoke (PeerId p))
    (sd_sum (sd_pair (sd_word 32) sd_cap) (sd_word 32))"

definition sd_error :: "protocol_error pcodec" where
  "sd_error = sd_iso
    (\<lambda>e. case e of
        PVersionMismatch v \<Rightarrow> ((0, 0, []), ucast (pv_get (vm_client v)), ucast (pv_get (vm_daemon v)))
      | PUnknownSession s \<Rightarrow> ((1, sid_uuid s, []), 0, 0)
      | PNotSubscribed s \<Rightarrow> ((2, sid_uuid s, []), 0, 0)
      | PInvalidTicket \<Rightarrow> ((3, 0, []), 0, 0)
      | PNotReady \<Rightarrow> ((4, 0, []), 0, 0)
      | PNotHost \<Rightarrow> ((5, 0, []), 0, 0)
      | PSessionConflict s \<Rightarrow> ((6, sid_uuid s, []), 0, 0)
      | PSignature t \<Rightarrow> ((7, 0, t), 0, 0)
      | PCapability t \<Rightarrow> ((8, 0, t), 0, 0)
      | PInternal t \<Rightarrow> ((9, 0, t), 0, 0)
      | PUnknownTicket i \<Rightarrow> ((10, tid_uuid i, []), 0, 0)
      | PPayloadTooLarge a b \<Rightarrow> ((11 :: byte, 0, []), a, b))
    (\<lambda>((t, i, s), a, b).
      if t = 0 then PVersionMismatch \<lparr> vm_client = ProtocolVersion (ucast a), vm_daemon = ProtocolVersion (ucast b) \<rparr>
      else if t = 1 then PUnknownSession (SessionId i) else if t = 2 then PNotSubscribed (SessionId i)
      else if t = 3 then PInvalidTicket else if t = 4 then PNotReady else if t = 5 then PNotHost
      else if t = 6 then PSessionConflict (SessionId i) else if t = 7 then PSignature s
      else if t = 8 then PCapability s else if t = 9 then PInternal s
      else if t = 10 then PUnknownTicket (TicketId i) else PPayloadTooLarge a b)
    (sd_pair (sd_pair (sd_word 1) (sd_pair (sd_word 16) sd_string)) (sd_pair (sd_word 8) (sd_word 8)))"

lemma to_codec_ok: "self_delim p \<Longrightarrow> codec_ok (to_codec p)"
  unfolding self_delim_def codec_ok_def to_codec_def
  by (metis (no_types, lifting) append_Nil2 codec.select_convs list.simps(4) old.prod.case option.simps(5))

named_theorems sd_intros

lemma sd_unit [sd_intros]: "self_delim sd_unit"
  by (simp add: self_delim_def sd_unit_def)

lemma sd_pair [sd_intros]: "\<lbrakk>self_delim p; self_delim q\<rbrakk> \<Longrightarrow> self_delim (sd_pair p q)"
  by (simp add: self_delim_def sd_pair_def)

lemma sd_sum [sd_intros]: "\<lbrakk>self_delim p; self_delim q\<rbrakk> \<Longrightarrow> self_delim (sd_sum p q)"
  by (simp add: self_delim_def sd_sum_def split: sum.splits)

lemma sd_iso: "\<lbrakk>self_delim p; \<And>x. g (f x) = x\<rbrakk> \<Longrightarrow> self_delim (sd_iso f g p)"
  by (simp add: self_delim_def sd_iso_def)

lemma sd_word [sd_intros]: "LENGTH('a::len) = 8 * n \<Longrightarrow> self_delim (sd_word n :: 'a word pcodec)"
  using unat_bound_bytes [where 'a = 'a and n = n]
  by (simp add: self_delim_def sd_word_def from_be_be_bytes)

lemma sd_bytes [sd_intros]: "self_delim sd_bytes"
proof -
  have "get_bytes (concat (map (\<lambda>b. [1, b]) x) @ 0 # rest) = Some (x, rest)" for x rest
    by (induction x) simp_all
  then show ?thesis by (simp add: self_delim_def sd_bytes_def)
qed

lemma sd_list [sd_intros]:
  assumes "self_delim p"
  shows "self_delim (sd_list p)"
proof -
  have count: "get_count (replicate n 1 @ 0 # r) = Some (n, r)" for n r
    by (induction n) simp_all
  have "get_list p (length xs) (concat (map (fst p) xs) @ r) = Some (xs, r)" for xs r
    using assms by (induction xs) (simp_all add: self_delim_def)
  with count show ?thesis by (simp add: self_delim_def sd_list_def)
qed

lemma sd_string [sd_intros]: "self_delim sd_string"
  unfolding sd_string_def by (intro sd_iso sd_intros) (simp add: comp_def)

lemma sd_peer_info [sd_intros]: "self_delim sd_peer_info"
  unfolding sd_peer_info_def by (intro sd_iso sd_intros) simp_all

lemma sd_kind [sd_intros]: "self_delim sd_kind"
  unfolding sd_kind_def by (intro sd_iso sd_intros) (simp_all split: message_kind.splits)

lemma sd_message [sd_intros]: "self_delim sd_message"
  unfolding sd_message_def by (intro sd_iso sd_intros) simp_all

lemma sd_cap [sd_intros]: "self_delim sd_cap"
  unfolding sd_cap_def by (intro sd_iso sd_intros) (simp_all split: capability.splits)

lemma sd_cap_action [sd_intros]: "self_delim sd_cap_action"
  unfolding sd_cap_action_def by (intro sd_iso sd_intros) (simp_all split: capability_action.splits)

lemma sd_error [sd_intros]: "self_delim sd_error"
proof -
  have "ucast (ucast w :: u64) = w" for w :: u32
    by (rule bit_word_eqI) (simp add: bit_simps)
  then show ?thesis
    unfolding sd_error_def by (intro sd_iso sd_intros) (simp_all split: protocol_error.splits)
qed

end
