(* ===== verification/Signing.thy ===== *)
theory Signing
  imports Sample_Codec
begin

text \<open>
  \<open>artel-protocol/src/signing.rs\<close>: the five domain-separated byte layouts that are signed,
  the sign functions and the verify functions.  The ed25519 library is the parameter
  record \<open>ed25519\<close>; postcard on messages and errors (inside an ack) is a \<open>codec\<close>.  The
  \<open>expect\<close> on a 4 GiB length is the value \<^const>\<open>None\<close> of the body layout, and
  \<open>VerifyPanic\<close> in a verifier.
\<close>

subsection \<open>The signature library\<close>

record 'k ed25519 =
  ed_public :: "'k \<Rightarrow> peer_id"
  ed_sign :: "'k \<Rightarrow> byte list \<Rightarrow> sig_bytes"
  ed_valid_key :: "byte list \<Rightarrow> bool"
  ed_verify_strict :: "byte list \<Rightarrow> byte list \<Rightarrow> sig_bytes \<Rightarrow> bool"

text \<open>Documented behaviour: a signature verifies under the key's own public half, and strict
  verification rejects the all-zero signature (its \<open>R\<close> is a small-order point).\<close>

definition ed25519_ok :: "'k ed25519 \<Rightarrow> bool" where
  "ed25519_ok ed \<longleftrightarrow>
    (\<forall>k m. ed_valid_key ed (pid_as_bytes (ed_public ed k))
      \<and> ed_verify_strict ed (pid_as_bytes (ed_public ed k)) m (ed_sign ed k m))
    \<and> (\<forall>pk m. \<not> ed_verify_strict ed pk m SIGNATURE_UNSIGNED)"

text \<open>Unforgeability of one key: only byte strings in \<open>S\<close>, the ones its holder signed, verify.\<close>

definition unforgeable :: "'k ed25519 \<Rightarrow> peer_id \<Rightarrow> byte list set \<Rightarrow> bool" where
  "unforgeable ed pk S \<longleftrightarrow> (\<forall>m s. ed_verify_strict ed (pid_as_bytes pk) m s \<longrightarrow> m \<in> S)"

datatype verify_error =
    SentinelUnsigned
  | VersionTooOld (vto_version: u8) (vto_floor: u8)
  | BadKey
  | BadSig
  | VerifyPanic

fun verify_reason :: "verify_error \<Rightarrow> string" where
  "verify_reason SentinelUnsigned = ''unsigned sentinel''"
| "verify_reason (VersionTooOld _ _) = ''message version below signed floor''"
| "verify_reason BadKey = ''peer.id is not a valid ed25519 key''"
| "verify_reason BadSig = ''signature does not verify''"
| "verify_reason VerifyPanic = ''''"

text \<open>The tail every verifier shares: parse the key, build the bytes, verify strictly.\<close>

definition strict_check ::
  "'k ed25519 \<Rightarrow> peer_id \<Rightarrow> byte list option \<Rightarrow> sig_bytes \<Rightarrow> verify_error + unit" where
  "strict_check ed pk obytes s =
    (if \<not> ed_valid_key ed (pid_as_bytes pk) then Inl BadKey
     else case obytes of
       None \<Rightarrow> Inl VerifyPanic
     | Some bytes \<Rightarrow> if ed_verify_strict ed (pid_as_bytes pk) bytes s then Inr () else Inl BadSig)"

subsection \<open>Author signatures\<close>

definition DOMAIN_TAG :: "byte list" where
  "DOMAIN_TAG = str_bytes ''artel/sig-v1''"

fun kind_tag :: "message_kind \<Rightarrow> u8" where
  "kind_tag Chat = 0"
| "kind_tag Tool = 1"
| "kind_tag System = 2"
| "kind_tag CapabilityKind = 3"

text \<open>\<open>u32::try_from(len).expect(..).to_be_bytes()\<close>.\<close>

definition u32_be_len :: "byte list \<Rightarrow> byte list option" where
  "u32_be_len xs = (if length xs < 2 ^ 32 then Some (be_bytes 4 (length xs)) else None)"

definition canonical_bytes ::
  "session_id \<Rightarrow> message_format \<Rightarrow> u64 \<Rightarrow> peer_info \<Rightarrow> message_kind \<Rightarrow> string \<Rightarrow> byte list
    \<Rightarrow> byte list option" where
  "canonical_bytes sid version ts peer kind action payload =
    (let action = str_bytes action in
     case u32_be_len action of
       None \<Rightarrow> None
     | Some alen \<Rightarrow>
       (case u32_be_len payload of
          None \<Rightarrow> None
        | Some plen \<Rightarrow>
            Some (DOMAIN_TAG @ sid_as_bytes sid @ [mf_get version] @ to_be_bytes_u64 ts
              @ pid_as_bytes (pi_id peer) @ [kind_tag kind] @ alen @ action @ plen @ payload)))"

definition sign_body ::
  "'k ed25519 \<Rightarrow> 'k \<Rightarrow> session_id \<Rightarrow> message_format \<Rightarrow> u64 \<Rightarrow> peer_info \<Rightarrow> message_kind \<Rightarrow> string
    \<Rightarrow> byte list \<Rightarrow> sig_bytes option" where
  "sign_body ed key sid version ts peer kind action payload =
    map_option (ed_sign ed key) (canonical_bytes sid version ts peer kind action payload)"

definition verify_message ::
  "'k ed25519 \<Rightarrow> session_id \<Rightarrow> session_message \<Rightarrow> sig_bytes \<Rightarrow> verify_error + unit" where
  "verify_message ed sid m s =
    (if s = SIGNATURE_UNSIGNED then Inl SentinelUnsigned
     else if m_version m < MESSAGE_FORMAT
       then Inl (VersionTooOld (mf_get (m_version m)) (mf_get MESSAGE_FORMAT))
     else strict_check ed (pi_id (m_peer m))
       (canonical_bytes sid (m_version m) (m_timestamp_ms m) (m_peer m) (m_kind m) (m_action m)
         (m_payload m)) s)"

subsection \<open>Host signatures\<close>

definition SEQ_DOMAIN_TAG :: "byte list" where
  "SEQ_DOMAIN_TAG = str_bytes ''artel/seq-v1''"

definition ACK_DOMAIN_TAG :: "byte list" where
  "ACK_DOMAIN_TAG = str_bytes ''artel/ack-v1''"

definition CTRL_DOMAIN_TAG :: "byte list" where
  "CTRL_DOMAIN_TAG = str_bytes ''artel/ctrl-v2''"

definition TICKET_CAP_DOMAIN_TAG :: "byte list" where
  "TICKET_CAP_DOMAIN_TAG = str_bytes ''artel/ticket-cap-v2''"

lemmas domain_tag_defs =
  DOMAIN_TAG_def SEQ_DOMAIN_TAG_def ACK_DOMAIN_TAG_def CTRL_DOMAIN_TAG_def TICKET_CAP_DOMAIN_TAG_def

datatype ctrl_frame = Close | Beacon

fun ctrl_frame_byte :: "ctrl_frame \<Rightarrow> u8" where
  "ctrl_frame_byte Close = 0"
| "ctrl_frame_byte Beacon = 1"

definition seq_canonical_bytes :: "session_id \<Rightarrow> seq \<Rightarrow> sig_bytes \<Rightarrow> byte list" where
  "seq_canonical_bytes sid sq author_sig =
    SEQ_DOMAIN_TAG @ sid_as_bytes sid @ to_be_bytes_u64 (seq_get sq) @ sig_as_bytes author_sig"

definition sign_seq :: "'k ed25519 \<Rightarrow> 'k \<Rightarrow> session_id \<Rightarrow> seq \<Rightarrow> sig_bytes \<Rightarrow> sig_bytes" where
  "sign_seq ed key sid sq author_sig = ed_sign ed key (seq_canonical_bytes sid sq author_sig)"

definition verify_seq ::
  "'k ed25519 \<Rightarrow> peer_id \<Rightarrow> session_id \<Rightarrow> seq \<Rightarrow> sig_bytes \<Rightarrow> sig_bytes \<Rightarrow> verify_error + unit" where
  "verify_seq ed host sid sq author_sig host_sig =
    (if host_sig = SIGNATURE_UNSIGNED then Inl SentinelUnsigned
     else strict_check ed host (Some (seq_canonical_bytes sid sq author_sig)) host_sig)"

type_synonym ack_result = "protocol_error + session_message"

definition ack_canonical_bytes ::
  "session_message codec \<Rightarrow> protocol_error codec \<Rightarrow> session_id \<Rightarrow> 128 word \<Rightarrow> ack_result \<Rightarrow> byte list" where
  "ack_canonical_bytes pcm pce sid req_id result =
    (let (disc, body) = (case result of
        Inr msg \<Rightarrow> (0, enc pcm msg)
      | Inl err \<Rightarrow> (1, enc pce err))
     in ACK_DOMAIN_TAG @ sid_as_bytes sid @ be_bytes 16 (unat req_id) @ [disc] @ body)"

definition sign_ack ::
  "'k ed25519 \<Rightarrow> session_message codec \<Rightarrow> protocol_error codec \<Rightarrow> 'k \<Rightarrow> session_id \<Rightarrow> 128 word
    \<Rightarrow> ack_result \<Rightarrow> sig_bytes" where
  "sign_ack ed pcm pce key sid req_id result =
    ed_sign ed key (ack_canonical_bytes pcm pce sid req_id result)"

definition verify_ack ::
  "'k ed25519 \<Rightarrow> session_message codec \<Rightarrow> protocol_error codec \<Rightarrow> peer_id \<Rightarrow> session_id \<Rightarrow> 128 word
    \<Rightarrow> ack_result \<Rightarrow> sig_bytes \<Rightarrow> verify_error + unit" where
  "verify_ack ed pcm pce host sid req_id result host_sig =
    (if host_sig = SIGNATURE_UNSIGNED then Inl SentinelUnsigned
     else strict_check ed host (Some (ack_canonical_bytes pcm pce sid req_id result)) host_sig)"

definition ctrl_canonical_bytes :: "session_id \<Rightarrow> ctrl_frame \<Rightarrow> u64 \<Rightarrow> byte list" where
  "ctrl_canonical_bytes sid frame host_epoch =
    CTRL_DOMAIN_TAG @ sid_as_bytes sid @ [ctrl_frame_byte frame] @ to_be_bytes_u64 host_epoch"

definition sign_ctrl :: "'k ed25519 \<Rightarrow> 'k \<Rightarrow> session_id \<Rightarrow> ctrl_frame \<Rightarrow> u64 \<Rightarrow> sig_bytes" where
  "sign_ctrl ed key sid frame host_epoch = ed_sign ed key (ctrl_canonical_bytes sid frame host_epoch)"

definition verify_ctrl ::
  "'k ed25519 \<Rightarrow> peer_id \<Rightarrow> session_id \<Rightarrow> ctrl_frame \<Rightarrow> u64 \<Rightarrow> sig_bytes \<Rightarrow> verify_error + unit" where
  "verify_ctrl ed host sid frame host_epoch host_sig =
    (if host_sig = SIGNATURE_UNSIGNED then Inl SentinelUnsigned
     else strict_check ed host (Some (ctrl_canonical_bytes sid frame host_epoch)) host_sig)"

fun cap_byte :: "capability \<Rightarrow> u8" where
  "cap_byte Read = 0"
| "cap_byte ReadWrite = 1"

definition ticket_cap_canonical_bytes ::
  "ticket_id \<Rightarrow> session_id \<Rightarrow> capability \<Rightarrow> u64 \<Rightarrow> u64 \<Rightarrow> byte list" where
  "ticket_cap_canonical_bytes tid sid cap expiry_ms host_epoch =
    TICKET_CAP_DOMAIN_TAG @ tid_as_bytes tid @ sid_as_bytes sid @ [cap_byte cap]
      @ to_be_bytes_u64 expiry_ms @ to_be_bytes_u64 host_epoch"

definition sign_ticket_cap ::
  "'k ed25519 \<Rightarrow> 'k \<Rightarrow> ticket_id \<Rightarrow> session_id \<Rightarrow> capability \<Rightarrow> u64 \<Rightarrow> u64 \<Rightarrow> sig_bytes" where
  "sign_ticket_cap ed key tid sid cap expiry_ms host_epoch =
    ed_sign ed key (ticket_cap_canonical_bytes tid sid cap expiry_ms host_epoch)"

definition verify_ticket_cap ::
  "'k ed25519 \<Rightarrow> peer_id \<Rightarrow> ticket_id \<Rightarrow> session_id \<Rightarrow> capability \<Rightarrow> u64 \<Rightarrow> u64 \<Rightarrow> sig_bytes
    \<Rightarrow> verify_error + unit" where
  "verify_ticket_cap ed host tid sid cap expiry_ms host_epoch cap_sig =
    (if cap_sig = SIGNATURE_UNSIGNED then Inl SentinelUnsigned
     else strict_check ed host (Some (ticket_cap_canonical_bytes tid sid cap expiry_ms host_epoch)) cap_sig)"

subsection \<open>Everything a key may sign\<close>

text \<open>One constructor per sign function, with the fields that enter the signed bytes.\<close>

record wire_codecs =
  pc_message :: "session_message codec"
  pc_error :: "protocol_error codec"

datatype sign_request =
    SignBody session_id message_format u64 peer_id message_kind string "byte list"
  | SignSeq session_id seq sig_bytes
  | SignAck session_id "128 word" ack_result
  | SignCtrl session_id ctrl_frame u64
  | SignTicketCap ticket_id session_id capability u64 u64

fun request_bytes :: "wire_codecs \<Rightarrow> sign_request \<Rightarrow> byte list option" where
  "request_bytes cs (SignBody sid v ts p kind action payload) =
    canonical_bytes sid v ts \<lparr> pi_id = p, pi_display_name = [] \<rparr> kind action payload"
| "request_bytes cs (SignSeq sid sq a) = Some (seq_canonical_bytes sid sq a)"
| "request_bytes cs (SignAck sid rid res) =
    Some (ack_canonical_bytes (pc_message cs) (pc_error cs) sid rid res)"
| "request_bytes cs (SignCtrl sid f e) = Some (ctrl_canonical_bytes sid f e)"
| "request_bytes cs (SignTicketCap tid sid c x e) = Some (ticket_cap_canonical_bytes tid sid c x e)"

definition signed_bytes :: "wire_codecs \<Rightarrow> sign_request set \<Rightarrow> byte list set" where
  "signed_bytes cs R = {b. \<exists>r\<in>R. request_bytes cs r = Some b}"

definition wire_codecs_ok :: "wire_codecs \<Rightarrow> bool" where
  "wire_codecs_ok cs \<longleftrightarrow> codec_ok (pc_message cs) \<and> codec_ok (pc_error cs)"

text \<open>Only an ack has postcard output under the signature.\<close>

fun codecs_for :: "wire_codecs \<Rightarrow> sign_request \<Rightarrow> bool" where
  "codecs_for cs (SignAck _ _ _) = wire_codecs_ok cs"
| "codecs_for cs _ = True"

fun request_tag :: "sign_request \<Rightarrow> byte list" where
  "request_tag (SignBody _ _ _ _ _ _ _) = DOMAIN_TAG"
| "request_tag (SignSeq _ _ _) = SEQ_DOMAIN_TAG"
| "request_tag (SignAck _ _ _) = ACK_DOMAIN_TAG"
| "request_tag (SignCtrl _ _ _) = CTRL_DOMAIN_TAG"
| "request_tag (SignTicketCap _ _ _ _ _) = TICKET_CAP_DOMAIN_TAG"

text \<open>Sample signature libraries: one accepts a single byte string, one every non-zero signature.\<close>

definition sample_ed :: "byte list \<Rightarrow> peer_id ed25519" where
  "sample_ed good = \<lparr> ed_public = (\<lambda>k. k), ed_sign = (\<lambda>k m. 1), ed_valid_key = (\<lambda>_. True),
    ed_verify_strict = (\<lambda>pk m s. m = good \<and> s = 1) \<rparr>"

definition open_ed :: "peer_id ed25519" where
  "open_ed = \<lparr> ed_public = (\<lambda>k. k), ed_sign = (\<lambda>k m. 1), ed_valid_key = (\<lambda>_. True),
    ed_verify_strict = (\<lambda>pk m s. s \<noteq> 0) \<rparr>"

definition sample_codecs :: wire_codecs where
  "sample_codecs = \<lparr> pc_message = to_codec sd_message, pc_error = to_codec sd_error \<rparr>"

definition sample_message :: session_message where
  "sample_message = session_message_new (Seq 1) 5 \<lparr> pi_id = PeerId 7, pi_display_name = ''ada'' \<rparr>
    Chat ''chat.message'' [104, 105] 1 1"

definition sample_bytes :: "sign_request \<Rightarrow> byte list" where
  "sample_bytes r = the (request_bytes sample_codecs r)"

definition sample_body :: sign_request where
  "sample_body = SignBody (SessionId 9) MESSAGE_FORMAT 5 (PeerId 7) Chat ''chat.message'' [104, 105]"

subsection \<open>The layouts are injective and disjoint\<close>

lemma u32_be_len_Some: "u32_be_len xs = Some l \<longleftrightarrow> length xs < 2 ^ 32 \<and> l = be_bytes 4 (length xs)"
  by (auto simp: u32_be_len_def)

lemma be_bytes_4_inj: "\<lbrakk>m < 2 ^ 32; n < 2 ^ 32\<rbrakk> \<Longrightarrow> be_bytes 4 m = be_bytes 4 n \<longleftrightarrow> m = n"
  by (rule be_bytes_inj) simp_all

lemma uuid_bytes_inj [simp, bytes_simps]:
  "be_bytes 16 (unat (u :: 128 word)) = be_bytes 16 (unat v) \<longleftrightarrow> u = v"
  by (rule be_bytes_word_inj) simp

lemma tag_bytes_inj [simp]:
  "kind_tag k = kind_tag k' \<longleftrightarrow> k = k'"
  "ctrl_frame_byte f = ctrl_frame_byte f' \<longleftrightarrow> f = f'"
  "cap_byte c = cap_byte c' \<longleftrightarrow> c = c'"
  subgoal by (cases k; cases k') simp_all
  subgoal by (cases f; cases f') simp_all
  subgoal by (cases c; cases c') simp_all
  done

lemma len_prefix_inj:
  assumes "length a < 2 ^ 32" "length a' < 2 ^ 32"
  shows "be_bytes 4 (length a) @ a @ r = be_bytes 4 (length a') @ a' @ r' \<longleftrightarrow> a = a' \<and> r = r'"
  using be_bytes_4_inj [OF assms] by (auto simp: append_eq_append_conv simp del: be_bytes.simps)

lemma canonical_bytes_Some:
  "canonical_bytes sid v ts p kind action payload = Some b \<longleftrightarrow>
    length action < 2 ^ 32 \<and> length payload < 2 ^ 32 \<and>
    b = DOMAIN_TAG @ sid_as_bytes sid @ [mf_get v] @ to_be_bytes_u64 ts @ pid_as_bytes (pi_id p)
      @ [kind_tag kind] @ be_bytes 4 (length (str_bytes action)) @ str_bytes action
      @ be_bytes 4 (length payload) @ payload"
  by (auto simp: canonical_bytes_def u32_be_len_def Let_def simp del: be_bytes.simps)

lemma canonical_bytes_display_name [simp]:
  "canonical_bytes sid v ts \<lparr> pi_id = pi_id p, pi_display_name = n \<rparr> kind action payload =
    canonical_bytes sid v ts p kind action payload"
  by (simp add: canonical_bytes_def Let_def cong: option.case_cong)

lemma canonical_bytes_inj_aux:
  assumes "canonical_bytes sid v ts p kind action payload = Some b"
    and "canonical_bytes sid' v' ts' p' kind' action' payload' = Some b"
  shows "sid = sid' \<and> v = v' \<and> ts = ts' \<and> pi_id p = pi_id p' \<and> kind = kind' \<and> action = action'
    \<and> payload = payload'"
proof -
  from assms have len: "length (str_bytes action) < 2 ^ 32" "length (str_bytes action') < 2 ^ 32"
      "length payload < 2 ^ 32" "length payload' < 2 ^ 32"
    by (simp_all only: canonical_bytes_Some length_str_bytes)
  from assms have "sid = sid' \<and> mf_get v = mf_get v' \<and> ts = ts' \<and> pi_id p = pi_id p'
    \<and> kind = kind' \<and>
    be_bytes 4 (length (str_bytes action)) @ str_bytes action @ be_bytes 4 (length payload) @ payload =
    be_bytes 4 (length (str_bytes action')) @ str_bytes action' @ be_bytes 4 (length payload') @ payload'"
    by (simp add: canonical_bytes_Some append_eq_append_conv bytes_simps del: be_bytes.simps)
  then show ?thesis
    using len_prefix_inj [OF len(3,4), of "[]" "[]"]
    by (simp only: len_prefix_inj [OF len(1,2)] str_bytes_inj) (simp add: message_format.expand)
qed

lemma seq_canonical_inj:
  "seq_canonical_bytes sid sq a = seq_canonical_bytes sid' sq' a' \<longleftrightarrow> sid = sid' \<and> sq = sq' \<and> a = a'"
  by (auto simp: seq_canonical_bytes_def append_eq_append_conv bytes_simps intro: seq.expand)

lemma ack_canonical_inj:
  assumes "wire_codecs_ok cs"
  shows "ack_canonical_bytes (pc_message cs) (pc_error cs) sid rid r =
    ack_canonical_bytes (pc_message cs) (pc_error cs) sid' rid' r' \<longleftrightarrow> sid = sid' \<and> rid = rid' \<and> r = r'"
  using assms
  by (auto simp: ack_canonical_bytes_def append_eq_append_conv bytes_simps wire_codecs_ok_def
      codec_ok_inj split: sum.splits simp del: be_bytes.simps)

lemma ctrl_canonical_inj:
  "ctrl_canonical_bytes sid f e = ctrl_canonical_bytes sid' f' e' \<longleftrightarrow> sid = sid' \<and> f = f' \<and> e = e'"
  by (auto simp: ctrl_canonical_bytes_def append_eq_append_conv bytes_simps)

lemma ticket_cap_canonical_inj:
  "ticket_cap_canonical_bytes t s c x e = ticket_cap_canonical_bytes t' s' c' x' e' \<longleftrightarrow>
    t = t' \<and> s = s' \<and> c = c' \<and> x = x' \<and> e = e'"
  by (auto simp: ticket_cap_canonical_bytes_def append_eq_append_conv bytes_simps)

lemma domain_tags_prefix_free:
  "DOMAIN_TAG @ x \<noteq> SEQ_DOMAIN_TAG @ y" "DOMAIN_TAG @ x \<noteq> ACK_DOMAIN_TAG @ y"
  "DOMAIN_TAG @ x \<noteq> CTRL_DOMAIN_TAG @ y" "DOMAIN_TAG @ x \<noteq> TICKET_CAP_DOMAIN_TAG @ y"
  "SEQ_DOMAIN_TAG @ x \<noteq> ACK_DOMAIN_TAG @ y" "SEQ_DOMAIN_TAG @ x \<noteq> CTRL_DOMAIN_TAG @ y"
  "SEQ_DOMAIN_TAG @ x \<noteq> TICKET_CAP_DOMAIN_TAG @ y" "ACK_DOMAIN_TAG @ x \<noteq> CTRL_DOMAIN_TAG @ y"
  "ACK_DOMAIN_TAG @ x \<noteq> TICKET_CAP_DOMAIN_TAG @ y" "CTRL_DOMAIN_TAG @ x \<noteq> TICKET_CAP_DOMAIN_TAG @ y"
  by (simp_all add: domain_tag_defs str_bytes_def)

lemma request_bytes_tag: "request_bytes cs r = Some b \<Longrightarrow> \<exists>rest. b = request_tag r @ rest"
  by (cases r) (auto simp: canonical_bytes_Some seq_canonical_bytes_def ack_canonical_bytes_def
      ctrl_canonical_bytes_def ticket_cap_canonical_bytes_def Let_def split: prod.splits
      simp del: be_bytes.simps)

lemma request_bytes_same_tag:
  assumes "request_bytes cs r = Some b" "request_bytes cs r' = Some b"
  shows "request_tag r = request_tag r'"
proof -
  obtain x y where "request_tag r @ x = request_tag r' @ y"
    using request_bytes_tag [OF assms(1)] request_bytes_tag [OF assms(2)] by auto
  then show ?thesis
    by (cases r; cases r') (simp_all add: domain_tags_prefix_free domain_tags_prefix_free [symmetric])
qed

lemmas domain_tags_neq [simp] = domain_tags_prefix_free [of "[]" "[]", simplified append_Nil2]

lemma request_bytes_inj_other:
  assumes "codecs_for cs r" "request_bytes cs r = request_bytes cs r'"
    and "request_tag r = request_tag r'" "request_tag r \<noteq> DOMAIN_TAG"
  shows "r = r'"
  using assms
  by (cases r; cases r'; simp add: seq_canonical_inj ack_canonical_inj ctrl_canonical_inj
      ticket_cap_canonical_inj domain_tags_neq [symmetric])

lemma request_bytes_inj:
  assumes "codecs_for cs r" "request_bytes cs r = Some b" "request_bytes cs r' = Some b"
  shows "r = r'"
proof (cases "request_tag r = DOMAIN_TAG")
  case True
  moreover from assms(2,3) have "request_tag r = request_tag r'" by (rule request_bytes_same_tag)
  ultimately obtain sid v ts p k a pl sid' v' ts' p' k' a' pl'
    where r: "r = SignBody sid v ts p k a pl" "r' = SignBody sid' v' ts' p' k' a' pl'"
    by (cases r; cases r'; simp add: domain_tags_neq [symmetric])
  show ?thesis
    using canonical_bytes_inj_aux [OF assms(2,3) [unfolded r request_bytes.simps]]
    by (simp add: r)
next
  case False
  with assms request_bytes_same_tag [OF assms(2,3)] show ?thesis
    by (simp add: request_bytes_inj_other)
qed

lemma request_in_signed:
  assumes "codecs_for cs r" "request_bytes cs r = Some b" "b \<in> signed_bytes cs R"
  shows "r \<in> R"
  using assms by (auto simp: signed_bytes_def dest: request_bytes_inj)

subsection \<open>Verification\<close>

lemma strict_check_Inr:
  "strict_check ed pk ob s = Inr () \<longleftrightarrow>
    ed_valid_key ed (pid_as_bytes pk) \<and> (\<exists>b. ob = Some b \<and> ed_verify_strict ed (pid_as_bytes pk) b s)"
  by (auto simp: strict_check_def split: option.splits)

text \<open>
  The contract all five sign/verify pairs share.  A signed value \<open>x\<close> has a verifying key
  \<open>key_of x\<close>, a sign request \<open>wrap x\<close> naming the fields under the signature, and a version
  floor \<open>above x\<close> that the verifier imposes.
\<close>

locale signed_scope =
  fixes wrap :: "'a \<Rightarrow> sign_request"
    and key_of :: "'a \<Rightarrow> peer_id"
    and above :: "'a \<Rightarrow> bool"
    and sign :: "'k ed25519 \<Rightarrow> wire_codecs \<Rightarrow> 'k \<Rightarrow> 'a \<Rightarrow> sig_bytes option"
    and verify :: "'k ed25519 \<Rightarrow> wire_codecs \<Rightarrow> 'a \<Rightarrow> sig_bytes \<Rightarrow> verify_error + unit"
  assumes sign_eq: "sign ed cs k x = map_option (ed_sign ed k) (request_bytes cs (wrap x))"
    and verify_iff: "verify ed cs x s = Inr () \<longleftrightarrow> s \<noteq> SIGNATURE_UNSIGNED \<and> above x \<and>
      strict_check ed (key_of x) (request_bytes cs (wrap x)) s = Inr ()"
begin

lemma authentic:
  assumes "codecs_for cs (wrap x)" "unforgeable ed (key_of x) (signed_bytes cs R)"
    and "verify ed cs x s = Inr ()"
  shows "wrap x \<in> R"
  using assms request_in_signed
  by (auto simp: verify_iff strict_check_Inr unforgeable_def)

lemma sign_verify:
  assumes "ed25519_ok ed" "sign ed cs k x = Some s" "key_of x = ed_public ed k" "above x"
  shows "verify ed cs x s = Inr ()"
proof -
  from assms(2) obtain b where b: "request_bytes cs (wrap x) = Some b" "s = ed_sign ed k b"
    by (auto simp: sign_eq)
  from assms(1) have "ed_valid_key ed (pid_as_bytes (ed_public ed k))"
      "ed_verify_strict ed (pid_as_bytes (ed_public ed k)) b s"
      "\<not> ed_verify_strict ed (pid_as_bytes (ed_public ed k)) b SIGNATURE_UNSIGNED"
    by (simp_all add: ed25519_ok_def b)
  with b(1) assms(3,4) show ?thesis
    by (auto simp: verify_iff strict_check_Inr)
qed

lemma unsigned_rejected: "verify ed cs x SIGNATURE_UNSIGNED \<noteq> Inr ()"
  by (simp add: verify_iff)

end

interpretation body_scope: signed_scope
  "\<lambda>(sid, m). SignBody sid (m_version m) (m_timestamp_ms m) (pi_id (m_peer m)) (m_kind m) (m_action m)
    (m_payload m)"
  "\<lambda>(sid, m). pi_id (m_peer m)"
  "\<lambda>(sid, m). MESSAGE_FORMAT \<le> m_version m"
  "\<lambda>ed cs k (sid, m). sign_body ed k sid (m_version m) (m_timestamp_ms m) (m_peer m) (m_kind m)
    (m_action m) (m_payload m)"
  "\<lambda>ed cs (sid, m) s. verify_message ed sid m s"
  by unfold_locales
    (auto simp: sign_body_def verify_message_def not_less split: if_splits)

interpretation seq_scope: signed_scope
  "\<lambda>(host, sid, sq, a). SignSeq sid sq a" "\<lambda>(host, sid, sq, a). host" "\<lambda>_. True"
  "\<lambda>ed cs k (host, sid, sq, a). Some (sign_seq ed k sid sq a)"
  "\<lambda>ed cs (host, sid, sq, a) s. verify_seq ed host sid sq a s"
  by unfold_locales (auto simp: sign_seq_def verify_seq_def split: if_splits)

interpretation ack_scope: signed_scope
  "\<lambda>(host, sid, rid, res). SignAck sid rid res" "\<lambda>(host, sid, rid, res). host" "\<lambda>_. True"
  "\<lambda>ed cs k (host, sid, rid, res). Some (sign_ack ed (pc_message cs) (pc_error cs) k sid rid res)"
  "\<lambda>ed cs (host, sid, rid, res) s. verify_ack ed (pc_message cs) (pc_error cs) host sid rid res s"
  by unfold_locales (auto simp: sign_ack_def verify_ack_def split: if_splits)

interpretation ctrl_scope: signed_scope
  "\<lambda>(host, sid, f, e). SignCtrl sid f e" "\<lambda>(host, sid, f, e). host" "\<lambda>_. True"
  "\<lambda>ed cs k (host, sid, f, e). Some (sign_ctrl ed k sid f e)"
  "\<lambda>ed cs (host, sid, f, e) s. verify_ctrl ed host sid f e s"
  by unfold_locales (auto simp: sign_ctrl_def verify_ctrl_def split: if_splits)

interpretation ticket_cap_scope: signed_scope
  "\<lambda>(host, tid, sid, c, x, e). SignTicketCap tid sid c x e" "\<lambda>(host, tid, sid, c, x, e). host" "\<lambda>_. True"
  "\<lambda>ed cs k (host, tid, sid, c, x, e). Some (sign_ticket_cap ed k tid sid c x e)"
  "\<lambda>ed cs (host, tid, sid, c, x, e) s. verify_ticket_cap ed host tid sid c x e s"
  by unfold_locales (auto simp: sign_ticket_cap_def verify_ticket_cap_def split: if_splits)

lemma sample_codecs_ok: "wire_codecs_ok sample_codecs"
  by (simp add: wire_codecs_ok_def sample_codecs_def to_codec_ok sd_message sd_error)

lemma unforgeable_sample:
  "request_bytes cs r = Some b \<Longrightarrow> unforgeable (sample_ed b) pk (signed_bytes cs {r})"
  by (simp add: unforgeable_def sample_ed_def signed_bytes_def)

lemma open_ed_ok: "ed25519_ok open_ed"
  by (simp add: ed25519_ok_def open_ed_def SIGNATURE_UNSIGNED_def)

lemma sample_strict_check: "strict_check (sample_ed b) pk (Some b) 1 = Inr ()"
  by (simp add: strict_check_def sample_ed_def)

subsection \<open>Properties\<close>

text \<open>C32: an accepted author signature means the author signed exactly this body, for this
  session, at or above the signed-format floor.  Under unforgeability of the author's key
  (only byte strings produced by its own sign calls \<open>R\<close>, of any of the five domains, verify),
  \<open>verify_message\<close> returning Ok implies that a body-sign request with the same session,
  version, timestamp, author, kind, action and payload is in \<open>R\<close>.\<close>

theorem verify_message_authentic:
  assumes "unforgeable ed (pi_id (m_peer m)) (signed_bytes cs R)"
    and "verify_message ed sid m s = Inr ()"
  shows "SignBody sid (m_version m) (m_timestamp_ms m) (pi_id (m_peer m)) (m_kind m) (m_action m)
      (m_payload m) \<in> R \<and> MESSAGE_FORMAT \<le> m_version m \<and> s \<noteq> SIGNATURE_UNSIGNED"
  using body_scope.authentic [where x = "(sid, m)" and cs = cs and R = R and ed = ed and s = s]
    body_scope.verify_iff [where x = "(sid, m)" and cs = cs and ed = ed and s = s] assms
  by simp

lemma sample_message_verifies:
  "verify_message (sample_ed (sample_bytes sample_body)) (SessionId 9) sample_message 1 = Inr ()"
  by (simp add: verify_message_def sample_message_def session_message_new_def sample_bytes_def
      sample_body_def SIGNATURE_UNSIGNED_def strict_check_def sample_ed_def canonical_bytes_def
      u32_be_len_def Let_def del: be_bytes.simps)

theorem verify_message_authentic_witness:
  "verify_message (sample_ed (sample_bytes sample_body)) (SessionId 9) sample_message 1 = Inr ()
    \<and> sample_body \<in> {sample_body}"
proof -
  have "request_bytes sample_codecs sample_body = Some (sample_bytes sample_body)"
    by (simp add: sample_bytes_def sample_body_def canonical_bytes_def u32_be_len_def Let_def
        del: be_bytes.simps)
  from verify_message_authentic [OF unforgeable_sample [OF this] sample_message_verifies]
  show ?thesis
    using sample_message_verifies
    by (simp add: sample_message_def session_message_new_def sample_body_def)
qed

text \<open>An accepted control frame is one the host signed: same session, same frame kind, same
  incarnation epoch.  A captured beacon cannot be replayed as a close, nor can a signature
  from any other domain.\<close>

theorem verify_ctrl_authentic:
  assumes "unforgeable ed host (signed_bytes cs R)"
    and "verify_ctrl ed host sid frame epoch s = Inr ()"
  shows "SignCtrl sid frame epoch \<in> R"
  using ctrl_scope.authentic [where x = "(host, sid, frame, epoch)" and cs = cs and R = R and ed = ed and s = s]
    assms by simp

theorem verify_ctrl_authentic_witness:
  "SignCtrl (SessionId 9) Close 4 \<in> {SignCtrl (SessionId 9) Close 4}"
  by (rule verify_ctrl_authentic
      [where ed = "sample_ed (ctrl_canonical_bytes (SessionId 9) Close 4)" and s = 1 and host = "PeerId 7"
        and cs = sample_codecs, OF unforgeable_sample])
    (simp_all add: verify_ctrl_def SIGNATURE_UNSIGNED_def sample_strict_check)

text \<open>An accepted sequencing signature means the host bound exactly this sequence number to
  exactly this author signature in this session, so a genuine frame replayed under another
  number is rejected.\<close>

theorem verify_seq_authentic:
  assumes "unforgeable ed host (signed_bytes cs R)"
    and "verify_seq ed host sid sq author_sig s = Inr ()"
  shows "SignSeq sid sq author_sig \<in> R"
  using seq_scope.authentic [where x = "(host, sid, sq, author_sig)" and cs = cs and R = R and ed = ed and s = s]
    assms by simp

theorem verify_seq_authentic_witness:
  "SignSeq (SessionId 9) (Seq 2) 5 \<in> {SignSeq (SessionId 9) (Seq 2) 5}"
  by (rule verify_seq_authentic
      [where ed = "sample_ed (seq_canonical_bytes (SessionId 9) (Seq 2) 5)" and s = 1 and host = "PeerId 7"
        and cs = sample_codecs, OF unforgeable_sample])
    (simp_all add: verify_seq_def SIGNATURE_UNSIGNED_def sample_strict_check)

text \<open>An accepted ticket claim is one the host minted: same ticket, session, capability,
  expiry and incarnation epoch.\<close>

theorem verify_ticket_cap_authentic:
  assumes "unforgeable ed host (signed_bytes cs R)"
    and "verify_ticket_cap ed host tid sid cap expiry epoch s = Inr ()"
  shows "SignTicketCap tid sid cap expiry epoch \<in> R"
  using ticket_cap_scope.authentic [where x = "(host, tid, sid, cap, expiry, epoch)" and cs = cs
      and R = R and ed = ed and s = s] assms by simp

theorem verify_ticket_cap_authentic_witness:
  "SignTicketCap (TicketId 3) (SessionId 9) Read 0 1 \<in> {SignTicketCap (TicketId 3) (SessionId 9) Read 0 1}"
  by (rule verify_ticket_cap_authentic
      [where ed = "sample_ed (ticket_cap_canonical_bytes (TicketId 3) (SessionId 9) Read 0 1)" and s = 1
        and host = "PeerId 7" and cs = sample_codecs, OF unforgeable_sample])
    (simp_all add: verify_ticket_cap_def SIGNATURE_UNSIGNED_def sample_strict_check)

text \<open>An accepted ack carries the verdict the host signed for this request: neither Ok/Err nor
  the enclosed message or error can be exchanged.\<close>

theorem verify_ack_authentic:
  assumes "wire_codecs_ok cs" "unforgeable ed host (signed_bytes cs R)"
    and "verify_ack ed (pc_message cs) (pc_error cs) host sid rid result s = Inr ()"
  shows "SignAck sid rid result \<in> R"
  using ack_scope.authentic [where x = "(host, sid, rid, result)" and cs = cs and R = R and ed = ed and s = s]
    assms by simp

theorem verify_ack_authentic_witness:
  "SignAck (SessionId 9) 8 (Inl PNotHost) \<in> {SignAck (SessionId 9) 8 (Inl PNotHost)}"
  by (rule verify_ack_authentic
      [where ed = "sample_ed (sample_bytes (SignAck (SessionId 9) 8 (Inl PNotHost)))" and s = 1
        and host = "PeerId 7" and cs = sample_codecs, OF sample_codecs_ok unforgeable_sample])
    (simp_all add: verify_ack_def SIGNATURE_UNSIGNED_def sample_strict_check sample_bytes_def
      del: be_bytes.simps)

text \<open>What \<open>sign_body\<close> signs for a message in the current format, \<open>verify_message\<close> accepts
  under the signer's own id, for every body below the 4 GiB prefix limit (outside it the
  call panics instead of signing).\<close>

theorem sign_body_verifies:
  assumes "ed25519_ok ed" "pi_id peer = ed_public ed k" "length action < 2 ^ 32" "length payload < 2 ^ 32"
  shows "\<exists>s. sign_body ed k sid MESSAGE_FORMAT ts peer kind action payload = Some s
    \<and> verify_message ed sid (session_message_new sq ts peer kind action payload s hsig) s = Inr ()"
proof -
  from assms(3,4) obtain s where s: "sign_body ed k sid MESSAGE_FORMAT ts peer kind action payload = Some s"
    by (auto simp: sign_body_def canonical_bytes_def u32_be_len_def Let_def)
  let ?m = "session_message_new sq ts peer kind action payload s hsig"
  have "verify_message ed sid ?m s = Inr ()"
    using body_scope.sign_verify [OF assms(1), where x = "(sid, ?m)" and k = k and s = s] s assms(2)
    by (simp add: session_message_new_def)
  with s show ?thesis by blast
qed

theorem sign_body_verifies_witness:
  "\<exists>s. sign_body open_ed (PeerId 7) (SessionId 9) MESSAGE_FORMAT 5
      \<lparr> pi_id = PeerId 7, pi_display_name = ''ada'' \<rparr> Chat ''hi'' [1] = Some s
    \<and> verify_message open_ed (SessionId 9) (session_message_new (Seq 1) 5
        \<lparr> pi_id = PeerId 7, pi_display_name = ''ada'' \<rparr> Chat ''hi'' [1] s 0) s = Inr ()"
  by (rule sign_body_verifies [OF open_ed_ok]) (simp_all add: open_ed_def)

end
