(* ===== verification/Ticket.thy ===== *)
theory Ticket
  imports Signing
begin

text \<open>
  \<open>artel-protocol/src/ticket.rs\<close>: the ticket ledger entry, the ticket itself and its text
  form \<open>artel:<base32>\<close>.  Here a Rust \<open>String\<close> is the list of its Unicode scalar values,
  because \<open>decode\<close> filters \<open>char\<close>s; \<open>utf8\<close> is its byte form.  The base32 codec of the
  \<open>data-encoding\<close> crate and postcard on the ticket body are parameters.
\<close>

type_synonym ustring = "nat list"

subsection \<open>Data\<close>

definition TICKET_VERSION :: u8 where
  "TICKET_VERSION = 6"

definition TICKET_PREFIX :: ustring where
  "TICKET_PREFIX = map of_char ''artel:''"

datatype ticket_status = Active | Revoked

record ticket_entry =
  te_ticket_id :: ticket_id
  te_granted_cap :: capability
  te_expiry_ms :: u64
  te_issued_at_ms :: u64
  te_status :: ticket_status
  te_used_by :: "peer_id list"

datatype socket_addr =
    SocketV4 "32 word" "16 word"
  | SocketV6 "128 word" "16 word" "32 word" "32 word"

text \<open>\<open>direct_addrs\<close> is a \<open>BTreeSet\<close>, kept as the list of its elements in order.\<close>

record wire_endpoint_addr =
  wa_peer_id :: peer_id
  wa_relay_url :: string
  wa_direct_addrs :: "socket_addr list"

definition wire_id_only :: "peer_id \<Rightarrow> wire_endpoint_addr" where
  "wire_id_only p = \<lparr> wa_peer_id = p, wa_relay_url = [], wa_direct_addrs = [] \<rparr>"

record session_ticket =
  st_ticket_id :: ticket_id
  st_session_id :: session_id
  st_host_addr :: wire_endpoint_addr
  st_granted_cap :: capability
  st_expiry_ms :: u64
  st_host_epoch :: u64
  st_cap_sig :: sig_bytes

definition host_peer_id :: "session_ticket \<Rightarrow> peer_id" where
  "host_peer_id t = wa_peer_id (st_host_addr t)"

datatype ticket_error =
    MissingPrefix
  | InvalidBase32 string
  | TicketMalformed string
  | UnsupportedTicketVersion u8

record wire_body =
  wb_ticket_id :: ticket_id
  wb_session_id :: session_id
  wb_host_addr :: wire_endpoint_addr
  wb_granted_cap :: capability
  wb_expiry_ms :: u64
  wb_host_epoch :: u64
  wb_cap_sig :: sig_bytes

subsection \<open>Text helpers of the standard library\<close>

text \<open>\<open>char::is_whitespace\<close>: the Unicode White\_Space property.\<close>

definition is_whitespace :: "nat \<Rightarrow> bool" where
  "is_whitespace c \<longleftrightarrow> 9 \<le> c \<and> c \<le> 13 \<or> c = 32 \<or> c = 0x85 \<or> c = 0xA0 \<or> c = 0x1680
    \<or> 0x2000 \<le> c \<and> c \<le> 0x200A \<or> c = 0x2028 \<or> c = 0x2029 \<or> c = 0x202F \<or> c = 0x205F \<or> c = 0x3000"

definition ascii_upper :: "nat \<Rightarrow> nat" where
  "ascii_upper c = (if 97 \<le> c \<and> c \<le> 122 then c - 32 else c)"

definition ascii_lower :: "nat \<Rightarrow> nat" where
  "ascii_lower c = (if 65 \<le> c \<and> c \<le> 90 then c + 32 else c)"

definition utf8_char :: "nat \<Rightarrow> byte list" where
  "utf8_char c =
    (if c < 0x80 then [of_nat c]
     else if c < 0x800 then [of_nat (0xC0 + c div 64), of_nat (0x80 + c mod 64)]
     else if c < 0x10000
       then [of_nat (0xE0 + c div 4096), of_nat (0x80 + c div 64 mod 64), of_nat (0x80 + c mod 64)]
     else [of_nat (0xF0 + c div 262144), of_nat (0x80 + c div 4096 mod 64),
           of_nat (0x80 + c div 64 mod 64), of_nat (0x80 + c mod 64)])"

definition utf8 :: "ustring \<Rightarrow> byte list" where
  "utf8 s = concat (map utf8_char s)"

definition strip_prefix :: "ustring \<Rightarrow> ustring \<Rightarrow> ustring option" where
  "strip_prefix pre s = (if prefix pre s then Some (drop (length pre) s) else None)"

subsection \<open>Encoding and decoding\<close>

text \<open>\<open>BASE32_NOPAD\<close>: encoding to text, decoding from bytes.\<close>

record base32 =
  b32_encode :: "byte list \<Rightarrow> ustring"
  b32_decode :: "byte list \<Rightarrow> string + byte list"

text \<open>RFC 4648: the alphabet is \<open>A-Z2-7\<close>, and decoding the bytes of an encoding gives the input.\<close>

definition base32_ok :: "base32 \<Rightarrow> bool" where
  "base32_ok b32 \<longleftrightarrow>
    (\<forall>bs. (\<forall>c\<in>set (b32_encode b32 bs). 65 \<le> c \<and> c \<le> 90 \<or> 50 \<le> c \<and> c \<le> 55)
      \<and> b32_decode b32 (utf8 (b32_encode b32 bs)) = Inr bs)"

definition encode_ticket :: "base32 \<Rightarrow> wire_body codec \<Rightarrow> session_ticket \<Rightarrow> ustring" where
  "encode_ticket b32 pc t =
    (let body = \<lparr> wb_ticket_id = st_ticket_id t, wb_session_id = st_session_id t,
           wb_host_addr = st_host_addr t, wb_granted_cap = st_granted_cap t,
           wb_expiry_ms = st_expiry_ms t, wb_host_epoch = st_host_epoch t, wb_cap_sig = st_cap_sig t \<rparr>;
         bytes = [TICKET_VERSION] @ enc pc body
     in TICKET_PREFIX @ map ascii_lower (b32_encode b32 bytes))"

definition decode_ticket :: "base32 \<Rightarrow> wire_body codec \<Rightarrow> ustring \<Rightarrow> ticket_error + session_ticket" where
  "decode_ticket b32 pc raw =
    (let trimmed = filter (\<lambda>c. \<not> is_whitespace c) raw in
     case strip_prefix TICKET_PREFIX trimmed of
       None \<Rightarrow> Inl MissingPrefix
     | Some body \<Rightarrow>
       (case b32_decode b32 (utf8 (map ascii_upper body)) of
          Inl e \<Rightarrow> Inl (InvalidBase32 e)
        | Inr [] \<Rightarrow> Inl (TicketMalformed ''empty ticket frame'')
        | Inr (version # rest) \<Rightarrow>
            if version \<noteq> TICKET_VERSION then Inl (UnsupportedTicketVersion version)
            else (case dec pc rest of
              Inl e \<Rightarrow> Inl (TicketMalformed e)
            | Inr w \<Rightarrow> Inr \<lparr> st_ticket_id = wb_ticket_id w, st_session_id = wb_session_id w,
                st_host_addr = wb_host_addr w, st_granted_cap = wb_granted_cap w,
                st_expiry_ms = wb_expiry_ms w, st_host_epoch = wb_host_epoch w,
                st_cap_sig = wb_cap_sig w \<rparr>)))"

subsection \<open>Sample instances of the parameters\<close>

text \<open>A base-16 codec over the letters \<open>A-P\<close>, inside the base32 alphabet.\<close>

fun sample_unhex :: "byte list \<Rightarrow> byte list" where
  "sample_unhex (a # b # r) = of_nat ((unat a - 65) * 16 + (unat b - 65)) # sample_unhex r"
| "sample_unhex _ = []"

definition sample_b32 :: base32 where
  "sample_b32 = \<lparr> b32_encode = (\<lambda>bs. concat (map (\<lambda>b. [65 + unat b div 16, 65 + unat b mod 16]) bs)),
    b32_decode = (\<lambda>bs. Inr (sample_unhex bs)) \<rparr>"

definition sd_socket :: "socket_addr pcodec" where
  "sd_socket = sd_iso
    (\<lambda>a. case a of SocketV4 i p \<Rightarrow> Inl (i, p) | SocketV6 i p f s \<Rightarrow> Inr (i, p, f, s))
    (\<lambda>s. case s of Inl (i, p) \<Rightarrow> SocketV4 i p | Inr (i, p, f, s) \<Rightarrow> SocketV6 i p f s)
    (sd_sum (sd_pair (sd_word 4) (sd_word 2))
      (sd_pair (sd_word 16) (sd_pair (sd_word 2) (sd_pair (sd_word 4) (sd_word 4)))))"

definition sd_wire_addr :: "wire_endpoint_addr pcodec" where
  "sd_wire_addr = sd_iso
    (\<lambda>a. (pid_bits (wa_peer_id a), wa_relay_url a, wa_direct_addrs a))
    (\<lambda>(p, u, d). \<lparr> wa_peer_id = PeerId p, wa_relay_url = u, wa_direct_addrs = d \<rparr>)
    (sd_pair (sd_word 32) (sd_pair sd_string (sd_list sd_socket)))"

definition sd_wire_body :: "wire_body pcodec" where
  "sd_wire_body = sd_iso
    (\<lambda>w. (tid_uuid (wb_ticket_id w), sid_uuid (wb_session_id w), wb_host_addr w, wb_granted_cap w,
      wb_expiry_ms w, wb_host_epoch w, wb_cap_sig w))
    (\<lambda>(t, s, a, c, x, e, g). \<lparr> wb_ticket_id = TicketId t, wb_session_id = SessionId s,
      wb_host_addr = a, wb_granted_cap = c, wb_expiry_ms = x, wb_host_epoch = e, wb_cap_sig = g \<rparr>)
    (sd_pair (sd_word 16) (sd_pair (sd_word 16) (sd_pair sd_wire_addr (sd_pair sd_cap
      (sd_pair (sd_word 8) (sd_pair (sd_word 8) (sd_word 64)))))))"

lemma sd_wire_body: "self_delim sd_wire_body"
proof -
  have "self_delim sd_socket"
    unfolding sd_socket_def by (intro sd_iso sd_intros) (simp_all split: socket_addr.splits)
  then have "self_delim sd_wire_addr"
    unfolding sd_wire_addr_def by (intro sd_iso sd_intros) simp_all
  then show ?thesis
    unfolding sd_wire_body_def by (intro sd_iso sd_intros) simp_all
qed

subsection \<open>Facts\<close>

lemma utf8_ascii: "\<forall>c\<in>set s. c < 128 \<Longrightarrow> utf8 s = map of_nat s"
  by (induction s) (simp_all add: utf8_def utf8_char_def)

lemma sample_unhex_hex:
  "sample_unhex (map of_nat (concat (map (\<lambda>b. [65 + unat b div 16, 65 + unat b mod 16]) bs))) = bs"
proof (induction bs)
  case (Cons b bs)
  have b: "unat b < 256" using unsigned_less [of b] by simp
  have u: "n < 256 \<Longrightarrow> unat (of_nat n :: byte) = n" for n
    by (simp add: unat_of_nat)
  have "of_nat ((unat (of_nat (65 + unat b div 16) :: byte) - 65) * 16
      + (unat (of_nat (65 + unat b mod 16) :: byte) - 65)) = b"
    using b by (subst u, simp, subst u, simp) simp
  with Cons show ?case by simp
qed simp

lemma sample_b32_ok: "base32_ok sample_b32"
proof -
  have alpha: "\<forall>c\<in>set (b32_encode sample_b32 bs). 65 \<le> c \<and> c \<le> 80" for bs
  proof -
    have "unat b div 16 \<le> 15" for b :: byte
      using unsigned_less [of b, where ?'a = nat] by simp
    then show ?thesis by (auto simp: sample_b32_def)
  qed
  then have "utf8 (b32_encode sample_b32 bs) = map of_nat (b32_encode sample_b32 bs)" for bs
    by (intro utf8_ascii) fastforce
  then have "b32_decode sample_b32 (utf8 (b32_encode sample_b32 bs)) = Inr bs" for bs
    by (simp add: sample_b32_def sample_unhex_hex)
  with alpha show ?thesis by (fastforce simp: base32_ok_def)
qed

lemma upper_lower: "65 \<le> c \<and> c \<le> 90 \<or> 50 \<le> c \<and> c \<le> 55 \<Longrightarrow> ascii_upper (ascii_lower c) = c"
  by (auto simp: ascii_upper_def ascii_lower_def)

lemma b32_upper_lower:
  "base32_ok b32 \<Longrightarrow> map ascii_upper (map ascii_lower (b32_encode b32 bs)) = b32_encode b32 bs"
  by (auto simp: base32_ok_def upper_lower intro!: map_idI)

lemma decode_ticket_framed:
  assumes "base32_ok b32" "filter (\<lambda>c. \<not> is_whitespace c) raw = TICKET_PREFIX @ b"
    and "map ascii_upper b = b32_encode b32 (v # rest)"
  shows "decode_ticket b32 pc raw =
    (if v \<noteq> TICKET_VERSION then Inl (UnsupportedTicketVersion v)
     else case dec pc rest of
         Inl e \<Rightarrow> Inl (TicketMalformed e)
       | Inr w \<Rightarrow> Inr \<lparr> st_ticket_id = wb_ticket_id w, st_session_id = wb_session_id w,
           st_host_addr = wb_host_addr w, st_granted_cap = wb_granted_cap w,
           st_expiry_ms = wb_expiry_ms w, st_host_epoch = wb_host_epoch w, st_cap_sig = wb_cap_sig w \<rparr>)"
  using assms by (simp add: decode_ticket_def strip_prefix_def base32_ok_def)

lemma no_whitespace_in_ticket:
  assumes "base32_ok b32"
  shows "filter (\<lambda>c. \<not> is_whitespace c) (encode_ticket b32 pc t) = encode_ticket b32 pc t"
proof -
  have "\<not> is_whitespace (ascii_lower c)" if "c \<in> set (b32_encode b32 bs)" for c bs
  proof -
    from assms that have "65 \<le> c \<and> c \<le> 90 \<or> 50 \<le> c \<and> c \<le> 55" unfolding base32_ok_def by blast
    then show ?thesis by (auto simp: is_whitespace_def ascii_lower_def)
  qed
  then show ?thesis
    by (auto simp: encode_ticket_def Let_def TICKET_PREFIX_def is_whitespace_def intro!: filter_True)
qed

lemma decode_own_text:
  assumes "base32_ok b32" "codec_ok pc"
  shows "decode_ticket b32 pc (encode_ticket b32 pc t) = Inr t"
proof -
  let ?w = "\<lparr> wb_ticket_id = st_ticket_id t, wb_session_id = st_session_id t,
    wb_host_addr = st_host_addr t, wb_granted_cap = st_granted_cap t, wb_expiry_ms = st_expiry_ms t,
    wb_host_epoch = st_host_epoch t, wb_cap_sig = st_cap_sig t \<rparr>"
  let ?b = "map ascii_lower (b32_encode b32 (TICKET_VERSION # enc pc ?w))"
  have own: "encode_ticket b32 pc t = TICKET_PREFIX @ ?b" by (simp add: encode_ticket_def Let_def)
  have "filter (\<lambda>c. \<not> is_whitespace c) (encode_ticket b32 pc t) = TICKET_PREFIX @ ?b"
    using no_whitespace_in_ticket [OF assms(1), of pc t] own by simp
  from decode_ticket_framed [OF assms(1) this b32_upper_lower [OF assms(1)]] show ?thesis
    by (simp add: codec_okD [OF assms(2)])
qed

definition sample_ticket :: session_ticket where
  "sample_ticket = \<lparr> st_ticket_id = TicketId 3, st_session_id = SessionId 9,
    st_host_addr = \<lparr> wa_peer_id = PeerId 7, wa_relay_url = ''r'', wa_direct_addrs = [SocketV4 1 2] \<rparr>,
    st_granted_cap = Read, st_expiry_ms = 0, st_host_epoch = 1, st_cap_sig = 5 \<rparr>"

subsection \<open>Properties\<close>

text \<open>The ticket text form round-trips through copy and paste.  Whatever whitespace (in the
  Unicode sense) was inserted into the text and however the letters after the prefix were
  recased, \<open>decode\<close> of the text of a ticket gives that ticket back.\<close>

theorem ticket_round_trip:
  assumes "base32_ok b32" "codec_ok pc"
    and "filter (\<lambda>c. \<not> is_whitespace c) raw = TICKET_PREFIX @ b"
    and "map ascii_upper b = map ascii_upper (drop (length TICKET_PREFIX) (encode_ticket b32 pc t))"
  shows "decode_ticket b32 pc raw = Inr t"
proof -
  let ?w = "\<lparr> wb_ticket_id = st_ticket_id t, wb_session_id = st_session_id t,
    wb_host_addr = st_host_addr t, wb_granted_cap = st_granted_cap t, wb_expiry_ms = st_expiry_ms t,
    wb_host_epoch = st_host_epoch t, wb_cap_sig = st_cap_sig t \<rparr>"
  have "map ascii_upper b = b32_encode b32 (TICKET_VERSION # enc pc ?w)"
    using assms(4) b32_upper_lower [OF assms(1)] by (simp add: encode_ticket_def Let_def)
  from decode_ticket_framed [OF assms(1,3) this] show ?thesis
    by (simp add: codec_okD [OF assms(2)])
qed

theorem ticket_round_trip_witness:
  "decode_ticket sample_b32 (to_codec sd_wire_body)
    (32 # encode_ticket sample_b32 (to_codec sd_wire_body) sample_ticket @ [10]) = Inr sample_ticket"
proof (rule ticket_round_trip [OF sample_b32_ok to_codec_ok [OF sd_wire_body]])
  let ?e = "encode_ticket sample_b32 (to_codec sd_wire_body) sample_ticket"
  show "filter (\<lambda>c. \<not> is_whitespace c) (32 # ?e @ [10]) = TICKET_PREFIX @ drop (length TICKET_PREFIX) ?e"
    using no_whitespace_in_ticket [OF sample_b32_ok, of "to_codec sd_wire_body" sample_ticket]
    by (simp add: is_whitespace_def) (simp add: encode_ticket_def Let_def)
qed (rule refl)

text \<open>The version byte is checked before anything else of a ticket is interpreted: a
  base32 frame with another version byte is refused as such whatever follows it, so the
  error never depends on the layout of an unknown version.\<close>

theorem ticket_version_first:
  assumes "base32_ok b32" "v \<noteq> TICKET_VERSION"
  shows "decode_ticket b32 pc (TICKET_PREFIX @ b32_encode b32 (v # rest)) = Inl (UnsupportedTicketVersion v)"
proof -
  have alpha: "65 \<le> c \<and> c \<le> 90 \<or> 50 \<le> c \<and> c \<le> 55" if "c \<in> set (b32_encode b32 (v # rest))" for c
    using assms(1) that unfolding base32_ok_def by blast
  then have "\<not> is_whitespace c" if "c \<in> set (b32_encode b32 (v # rest))" for c
    using alpha [OF that] by (auto simp: is_whitespace_def)
  then have "filter (\<lambda>c. \<not> is_whitespace c) (TICKET_PREFIX @ b32_encode b32 (v # rest)) =
      TICKET_PREFIX @ b32_encode b32 (v # rest)"
    by (auto simp: TICKET_PREFIX_def is_whitespace_def intro!: filter_True)
  moreover have "map ascii_upper (b32_encode b32 (v # rest)) = b32_encode b32 (v # rest)"
    using alpha by (intro map_idI) (force simp: ascii_upper_def)
  ultimately show ?thesis
    using decode_ticket_framed [OF assms(1)] assms(2) by simp
qed

theorem ticket_version_first_witness:
  "decode_ticket sample_b32 (to_codec sd_wire_body) (TICKET_PREFIX @ b32_encode sample_b32 [5, 1, 2])
    = Inl (UnsupportedTicketVersion 5)"
  by (rule ticket_version_first [OF sample_b32_ok]) (simp add: TICKET_VERSION_def)

end
