(* ===== verification/Gossip.thy ===== *)
theory Gossip
  imports Ticket
begin

text \<open>
  \<open>artel-protocol/src/gossip.rs\<close>: the frames daemons exchange on a session topic, their
  versioned encoding and the size ceilings.  \<open>SignedSendPayload\<close> is from \<open>rpc.rs\<close>.
  Postcard on a frame body, and its size computation, are parameters.
\<close>

subsection \<open>Frames\<close>

definition GOSSIP_WIRE_VERSION :: u8 where
  "GOSSIP_WIRE_VERSION = 3"

definition MAX_GOSSIP_MESSAGE_SIZE :: nat where
  "MAX_GOSSIP_MESSAGE_SIZE = 1024 * 1024"

definition GOSSIP_ENVELOPE_OVERHEAD :: nat where
  "GOSSIP_ENVELOPE_OVERHEAD = 512"

definition MAX_GOSSIP_FRAME :: nat where
  "MAX_GOSSIP_FRAME = MAX_GOSSIP_MESSAGE_SIZE - GOSSIP_ENVELOPE_OVERHEAD"

definition SESSION_MESSAGE_CARRIER_OVERHEAD :: nat where
  "SESSION_MESSAGE_CARRIER_OVERHEAD = 128"

definition MAX_SESSION_MESSAGE_FRAME :: nat where
  "MAX_SESSION_MESSAGE_FRAME = MAX_GOSSIP_FRAME - SESSION_MESSAGE_CARRIER_OVERHEAD"

lemmas gossip_size_defs = MAX_GOSSIP_MESSAGE_SIZE_def GOSSIP_ENVELOPE_OVERHEAD_def MAX_GOSSIP_FRAME_def
  SESSION_MESSAGE_CARRIER_OVERHEAD_def MAX_SESSION_MESSAGE_FRAME_def

record signed_send_payload =
  ssp_timestamp_ms :: u64
  ssp_kind :: message_kind
  ssp_action :: string
  ssp_payload :: "byte list"
  ssp_signature :: sig_bytes

datatype gossip_body =
    GMessage session_message
  | GSendRequest "128 word" peer_info signed_send_payload
  | GSendAck "128 word" ack_result sig_bytes
  | GJoinAnnouncement peer_info u64 ticket_id capability u64 u64 sig_bytes
  | GSessionClosed u64 sig_bytes
  | GEpochBeacon u64 sig_bytes
  | GReplay seq

datatype gossip_frame_error =
    GossipMalformed string
  | GossipUnsupportedVersion (guv_found: u8) (guv_expected: u8)
  | GossipEmpty

text \<open>\<open>serialized_size\<close> is what postcard reports as the encoded size of a message.\<close>

definition message_frame_len :: "(session_message \<Rightarrow> nat) \<Rightarrow> session_message \<Rightarrow> nat" where
  "message_frame_len serialized_size m = 2 + serialized_size m"

definition encode_frame :: "gossip_body codec \<Rightarrow> gossip_body \<Rightarrow> byte list" where
  "encode_frame pc body = [GOSSIP_WIRE_VERSION] @ enc pc body"

definition decode_frame :: "gossip_body codec \<Rightarrow> byte list \<Rightarrow> gossip_frame_error + gossip_body" where
  "decode_frame pc bytes =
    (case bytes of
      [] \<Rightarrow> Inl GossipEmpty
    | version # rest \<Rightarrow>
        if version \<noteq> GOSSIP_WIRE_VERSION
        then Inl (GossipUnsupportedVersion version GOSSIP_WIRE_VERSION)
        else (case dec pc rest of Inl e \<Rightarrow> Inl (GossipMalformed e) | Inr b \<Rightarrow> Inr b))"

text \<open>
  The documented postcard layout of the frames that carry a session message: an enum is its
  index (one byte below 128) then its fields; a byte run is a length varint (one byte below
  128) then the bytes.  So \<open>Message\<close> adds one byte to the message, and an \<open>Ok\<close> ack adds the
  index, a 16-byte id with its length byte, the \<open>Ok\<close> index and a 64-byte run with its
  length byte.
\<close>

definition postcard_sizes :: "gossip_body codec \<Rightarrow> (session_message \<Rightarrow> nat) \<Rightarrow> bool" where
  "postcard_sizes pc serialized_size \<longleftrightarrow>
    (\<forall>m. length (enc pc (GMessage m)) = 1 + serialized_size m) \<and>
    (\<forall>rid m s. length (enc pc (GSendAck rid (Inr m) s)) = 1 + 17 + 1 + serialized_size m + 65)"

subsection \<open>A sample frame codec\<close>

definition sd_send_payload :: "signed_send_payload pcodec" where
  "sd_send_payload = sd_iso
    (\<lambda>p. (ssp_timestamp_ms p, ssp_kind p, ssp_action p, ssp_payload p, ssp_signature p))
    (\<lambda>(t, k, a, pl, s). \<lparr> ssp_timestamp_ms = t, ssp_kind = k, ssp_action = a, ssp_payload = pl,
      ssp_signature = s \<rparr>)
    (sd_pair (sd_word 8) (sd_pair sd_kind (sd_pair sd_string (sd_pair sd_bytes (sd_word 64)))))"

definition sd_frame :: "gossip_body pcodec" where
  "sd_frame = sd_iso
    (\<lambda>b. case b of
        GMessage m \<Rightarrow> Inl m
      | GSendRequest r p s \<Rightarrow> Inr (Inl (r, p, s))
      | GSendAck r res s \<Rightarrow> Inr (Inr (Inl (r, res, s)))
      | GJoinAnnouncement p t i c x e s \<Rightarrow> Inr (Inr (Inr (Inl (p, t, tid_uuid i, c, x, e, s))))
      | GSessionClosed e s \<Rightarrow> Inr (Inr (Inr (Inr (Inl (e, s)))))
      | GEpochBeacon e s \<Rightarrow> Inr (Inr (Inr (Inr (Inr (Inl (e, s))))))
      | GReplay q \<Rightarrow> Inr (Inr (Inr (Inr (Inr (Inr (seq_get q)))))))
    (\<lambda>v. case v of
        Inl m \<Rightarrow> GMessage m
      | Inr (Inl (r, p, s)) \<Rightarrow> GSendRequest r p s
      | Inr (Inr (Inl (r, res, s))) \<Rightarrow> GSendAck r res s
      | Inr (Inr (Inr (Inl (p, t, i, c, x, e, s)))) \<Rightarrow> GJoinAnnouncement p t (TicketId i) c x e s
      | Inr (Inr (Inr (Inr (Inl (e, s))))) \<Rightarrow> GSessionClosed e s
      | Inr (Inr (Inr (Inr (Inr (Inl (e, s)))))) \<Rightarrow> GEpochBeacon e s
      | Inr (Inr (Inr (Inr (Inr (Inr q))))) \<Rightarrow> GReplay (Seq q))
    (sd_sum sd_message (sd_sum (sd_pair (sd_word 16) (sd_pair sd_peer_info sd_send_payload))
      (sd_sum (sd_pair (sd_word 16) (sd_pair (sd_sum sd_error sd_message) (sd_word 64)))
      (sd_sum (sd_pair sd_peer_info (sd_pair (sd_word 8) (sd_pair (sd_word 16) (sd_pair sd_cap
        (sd_pair (sd_word 8) (sd_pair (sd_word 8) (sd_word 64)))))))
      (sd_sum (sd_pair (sd_word 8) (sd_word 64)) (sd_sum (sd_pair (sd_word 8) (sd_word 64)) (sd_word 8)))))))"

text \<open>Sizes alone, for the size hypothesis.\<close>

definition sized_frame_codec :: "gossip_body codec" where
  "sized_frame_codec = \<lparr> enc = (\<lambda>b. case b of
      GMessage m \<Rightarrow> replicate (1 + length (m_payload m)) 0
    | GSendAck r (Inr m) s \<Rightarrow> replicate (1 + 17 + 1 + length (m_payload m) + 65) 0
    | _ \<Rightarrow> []), dec = (\<lambda>_. Inl []) \<rparr>"

lemma sd_frame: "self_delim sd_frame"
proof -
  have "self_delim sd_send_payload"
    unfolding sd_send_payload_def by (intro sd_iso sd_intros) simp_all
  then show ?thesis
    unfolding sd_frame_def by (intro sd_iso sd_intros) (simp_all split: gossip_body.splits)
qed

lemma sized_frame_codec_sizes: "postcard_sizes sized_frame_codec (\<lambda>m. length (m_payload m))"
  by (simp add: postcard_sizes_def sized_frame_codec_def)

subsection \<open>Properties\<close>

text \<open>A frame decodes to the body it was encoded from, and a frame whose first byte is any
  other version is refused with that version, whatever follows.\<close>

theorem frame_round_trip:
  assumes "codec_ok pc"
  shows "decode_frame pc (encode_frame pc body) = Inr body \<and>
    (v \<noteq> GOSSIP_WIRE_VERSION \<longrightarrow>
      decode_frame pc (v # rest) = Inl (GossipUnsupportedVersion v GOSSIP_WIRE_VERSION))"
  using assms by (simp add: decode_frame_def encode_frame_def codec_okD)

theorem frame_round_trip_witness:
  "decode_frame (to_codec sd_frame) (encode_frame (to_codec sd_frame) (GReplay (Seq 4))) = Inr (GReplay (Seq 4))
    \<and> decode_frame (to_codec sd_frame) [2, 0] = Inl (GossipUnsupportedVersion 2 3)"
  using frame_round_trip [OF to_codec_ok [OF sd_frame], of "GReplay (Seq 4)" 2 "[0]"]
  by (simp add: GOSSIP_WIRE_VERSION_def)

text \<open>C34: the size gate of the host covers every frame that will carry the message.  A message
  whose \<open>message_frame_len\<close> is within \<open>MAX_SESSION_MESSAGE_FRAME\<close> fits, in its broadcast frame
  and in the \<open>SendAck\<close> that returns it to its author, under \<open>MAX_GOSSIP_FRAME\<close>; and
  \<open>message_frame_len\<close> is the exact length of the broadcast frame.\<close>

theorem admitted_message_fits_every_carrier:
  assumes "postcard_sizes pc size_of" "message_frame_len size_of m \<le> MAX_SESSION_MESSAGE_FRAME"
  shows "length (encode_frame pc (GMessage m)) = message_frame_len size_of m
    \<and> length (encode_frame pc (GMessage m)) \<le> MAX_GOSSIP_FRAME
    \<and> length (encode_frame pc (GSendAck rid (Inr m) s)) \<le> MAX_GOSSIP_FRAME"
  using assms by (simp add: postcard_sizes_def encode_frame_def message_frame_len_def gossip_size_defs)

theorem admitted_message_fits_every_carrier_witness:
  "length (encode_frame sized_frame_codec (GSendAck 1 (Inr sample_message) 5)) \<le> MAX_GOSSIP_FRAME"
  using admitted_message_fits_every_carrier
    [OF sized_frame_codec_sizes, of sample_message 1 5]
  by (simp add: message_frame_len_def gossip_size_defs sample_message_def session_message_new_def)

end
