(* ===== verification/Store.thy ===== *)
theory Store
  imports Gossip "HOL-Library.AList"
begin

text \<open>
  The session store of the daemon: \<open>store/record.rs\<close> (what is persisted of a session),
  the \<open>SessionStore\<close> trait of \<open>store/mod.rs\<close> as a record of operations with the locale
  \<open>session_store\<close> stating its contract, and \<open>MemoryStore\<close> of \<open>store/memory.rs\<close>.

  A store operation is a function from the store state to an \<open>io::Result\<close> and the next
  state.  A \<open>HashMap\<close> is an association list read with \<^const>\<open>map_of\<close> and written with
  \<^const>\<open>AList.update\<close>; enumeration goes over
  \<^const>\<open>AList.clearjunk\<close>, each key once, in an order nothing relies on.
\<close>

subsection \<open>Records\<close>

datatype session_kind = Local | Remote

record session_record =
  sr_id :: session_id
  sr_host :: peer_id
  sr_members :: "peer_id set"
  sr_head :: seq
  sr_log :: "session_message list"
  sr_kind :: session_kind
  sr_host_epoch :: u64
  sr_tickets :: "ticket_entry list"
  sr_workspace_ticket :: "byte list option"

record stored_attachment =
  sa_session :: session_id
  sa_kind :: string
  sa_payload :: "byte list"

datatype io_kind = NotFound | InvalidData | OtherIo

datatype io_error = IoError (io_error_kind: io_kind) (io_error_text: string)

type_synonym ('s, 'a) store_io = "'s \<Rightarrow> (io_error + 'a) \<times> 's"

record 's store_ops =
  so_create :: "session_record \<Rightarrow> ('s, unit) store_io"
  so_append :: "session_id \<Rightarrow> session_message \<Rightarrow> ('s, unit) store_io"
  so_bump_host_epoch :: "session_id \<Rightarrow> u64 \<Rightarrow> ('s, unit) store_io"
  so_epoch_floor :: "session_id \<Rightarrow> ('s, u64) store_io"
  so_put_tickets :: "session_id \<Rightarrow> ticket_entry list \<Rightarrow> ('s, unit) store_io"
  so_put_workspace_ticket :: "session_id \<Rightarrow> byte list \<Rightarrow> ('s, unit) store_io"
  so_add_member :: "session_id \<Rightarrow> peer_info \<Rightarrow> ('s, unit) store_io"
  so_remove_member :: "session_id \<Rightarrow> peer_id \<Rightarrow> ('s, unit) store_io"
  so_delete :: "session_id \<Rightarrow> ('s, unit) store_io"
  so_load_all :: "('s, session_record list) store_io"
  so_put_attachment :: "session_id \<Rightarrow> string \<Rightarrow> byte list \<Rightarrow> ('s, bool) store_io"
  so_list_attachments :: "string option \<Rightarrow> ('s, stored_attachment list) store_io"
  so_delete_attachment :: "session_id \<Rightarrow> string \<Rightarrow> ('s, unit) store_io"

definition MAX_DELIVERY_FRAME :: nat where
  "MAX_DELIVERY_FRAME = 64 * 1024"

definition WORKSPACE_TICKET_ENVELOPE_MAX :: nat where
  "WORKSPACE_TICKET_ENVELOPE_MAX = MAX_DELIVERY_FRAME - 64"

subsection \<open>The in-memory store\<close>

record session_entry =
  se_record :: session_record
  se_attachments :: "(string \<times> byte list) list"

record memory_store =
  ms_inner :: "(session_id \<times> session_entry) list"
  ms_epoch_floors :: "(session_id \<times> u64) list"

definition session_entry_new :: "session_record \<Rightarrow> session_entry" where
  "session_entry_new r = \<lparr> se_record = r, se_attachments = [] \<rparr>"

definition memory_new :: memory_store where
  "memory_new = \<lparr> ms_inner = [], ms_epoch_floors = [] \<rparr>"

definition unknown_session :: io_error where
  "unknown_session = IoError NotFound ''unknown session''"

definition raise_epoch_floor :: "session_id \<Rightarrow> u64 \<Rightarrow> memory_store \<Rightarrow> memory_store" where
  "raise_epoch_floor sid raise_to s =
    (let floor = (case map_of (ms_epoch_floors s) sid of None \<Rightarrow> 0 | Some f \<Rightarrow> f) in
     s\<lparr> ms_epoch_floors := AList.update sid (if raise_to > floor then raise_to else floor) (ms_epoch_floors s) \<rparr>)"

text \<open>\<open>guard.get_mut(&session).ok_or(NotFound)?\<close> followed by an update of the record.\<close>

definition mem_update_record ::
  "session_id \<Rightarrow> (session_record \<Rightarrow> session_record) \<Rightarrow> (memory_store, unit) store_io" where
  "mem_update_record sid f s =
    (case map_of (ms_inner s) sid of
      None \<Rightarrow> (Inl unknown_session, s)
    | Some e \<Rightarrow> (Inr (), s\<lparr> ms_inner := AList.update sid (e\<lparr> se_record := f (se_record e) \<rparr>) (ms_inner s) \<rparr>))"

definition mem_create :: "session_record \<Rightarrow> (memory_store, unit) store_io" where
  "mem_create r s =
    (let s' = raise_epoch_floor (sr_id r) (sr_host_epoch r + 1) s in
     (Inr (), s'\<lparr> ms_inner := AList.update (sr_id r) (session_entry_new r) (ms_inner s') \<rparr>))"

definition mem_append :: "session_id \<Rightarrow> session_message \<Rightarrow> (memory_store, unit) store_io" where
  "mem_append sid m =
    mem_update_record sid (\<lambda>r. r\<lparr> sr_head := max (sr_head r) (m_seq m), sr_log := sr_log r @ [m] \<rparr>)"

definition mem_bump_host_epoch :: "session_id \<Rightarrow> u64 \<Rightarrow> (memory_store, unit) store_io" where
  "mem_bump_host_epoch sid epoch s =
    (let s' = raise_epoch_floor sid (epoch + 1) s in
     (Inr (), case map_of (ms_inner s') sid of
        None \<Rightarrow> s'
      | Some e \<Rightarrow> s'\<lparr> ms_inner := AList.update sid
          (e\<lparr> se_record := (se_record e)\<lparr> sr_host_epoch := epoch \<rparr> \<rparr>) (ms_inner s') \<rparr>))"

definition mem_epoch_floor :: "session_id \<Rightarrow> (memory_store, u64) store_io" where
  "mem_epoch_floor sid s =
    (Inr (case map_of (ms_epoch_floors s) sid of None \<Rightarrow> 0 | Some f \<Rightarrow> f), s)"

definition mem_put_tickets :: "session_id \<Rightarrow> ticket_entry list \<Rightarrow> (memory_store, unit) store_io" where
  "mem_put_tickets sid ts = mem_update_record sid (\<lambda>r. r\<lparr> sr_tickets := ts \<rparr>)"

definition mem_put_workspace_ticket :: "session_id \<Rightarrow> byte list \<Rightarrow> (memory_store, unit) store_io" where
  "mem_put_workspace_ticket sid envelope s =
    (if length envelope > WORKSPACE_TICKET_ENVELOPE_MAX
     then (Inl (IoError InvalidData ''workspace ticket envelope too large''), s)
     else mem_update_record sid (\<lambda>r. r\<lparr> sr_workspace_ticket := Some envelope \<rparr>) s)"

definition mem_add_member :: "session_id \<Rightarrow> peer_info \<Rightarrow> (memory_store, unit) store_io" where
  "mem_add_member sid p = mem_update_record sid (\<lambda>r. r\<lparr> sr_members := insert (pi_id p) (sr_members r) \<rparr>)"

definition mem_remove_member :: "session_id \<Rightarrow> peer_id \<Rightarrow> (memory_store, unit) store_io" where
  "mem_remove_member sid p = mem_update_record sid (\<lambda>r. r\<lparr> sr_members := sr_members r - {p} \<rparr>)"

definition mem_delete :: "session_id \<Rightarrow> (memory_store, unit) store_io" where
  "mem_delete sid s = (Inr (), s\<lparr> ms_inner := AList.delete sid (ms_inner s) \<rparr>)"

definition mem_load_all :: "(memory_store, session_record list) store_io" where
  "mem_load_all s = (Inr (map (\<lambda>(k, e). se_record e) (AList.clearjunk (ms_inner s))), s)"

definition mem_put_attachment :: "session_id \<Rightarrow> string \<Rightarrow> byte list \<Rightarrow> (memory_store, bool) store_io" where
  "mem_put_attachment sid kind payload s =
    (case map_of (ms_inner s) sid of
      None \<Rightarrow> (Inr False, s)
    | Some e \<Rightarrow> (Inr True, s\<lparr> ms_inner := AList.update sid
        (e\<lparr> se_attachments := AList.update kind payload (se_attachments e) \<rparr>) (ms_inner s) \<rparr>))"

definition mem_list_attachments :: "string option \<Rightarrow> (memory_store, stored_attachment list) store_io" where
  "mem_list_attachments kind_filter s =
    (Inr (concat (map (\<lambda>(sid, e).
        map (\<lambda>(k, p). \<lparr> sa_session = sid, sa_kind = k, sa_payload = p \<rparr>)
          (filter (\<lambda>(k, p). case kind_filter of None \<Rightarrow> True | Some f \<Rightarrow> f = k)
            (AList.clearjunk (se_attachments e))))
      (AList.clearjunk (ms_inner s)))), s)"

definition mem_delete_attachment :: "session_id \<Rightarrow> string \<Rightarrow> (memory_store, unit) store_io" where
  "mem_delete_attachment sid kind s =
    (Inr (), case map_of (ms_inner s) sid of
       None \<Rightarrow> s
     | Some e \<Rightarrow> s\<lparr> ms_inner := AList.update sid
         (e\<lparr> se_attachments := AList.delete kind (se_attachments e) \<rparr>) (ms_inner s) \<rparr>)"

definition memory_ops :: "memory_store store_ops" where
  "memory_ops = \<lparr> so_create = mem_create, so_append = mem_append, so_bump_host_epoch = mem_bump_host_epoch,
    so_epoch_floor = mem_epoch_floor, so_put_tickets = mem_put_tickets,
    so_put_workspace_ticket = mem_put_workspace_ticket, so_add_member = mem_add_member,
    so_remove_member = mem_remove_member, so_delete = mem_delete, so_load_all = mem_load_all,
    so_put_attachment = mem_put_attachment, so_list_attachments = mem_list_attachments,
    so_delete_attachment = mem_delete_attachment \<rparr>"

lemmas mem_defs = mem_create_def mem_append_def mem_bump_host_epoch_def mem_epoch_floor_def
  mem_put_tickets_def mem_put_workspace_ticket_def mem_add_member_def mem_remove_member_def
  mem_delete_def mem_load_all_def mem_put_attachment_def mem_list_attachments_def
  mem_delete_attachment_def mem_update_record_def raise_epoch_floor_def session_entry_new_def
  memory_ops_def

subsection \<open>Sequences of store calls\<close>

datatype store_call =
    SCreate session_record
  | SAppend session_id session_message
  | SBumpHostEpoch session_id u64
  | SPutTickets session_id "ticket_entry list"
  | SPutWorkspaceTicket session_id "byte list"
  | SAddMember session_id peer_info
  | SRemoveMember session_id peer_id
  | SDelete session_id

fun store_step :: "'s store_ops \<Rightarrow> store_call \<Rightarrow> 's \<Rightarrow> (io_error + unit) \<times> 's" where
  "store_step ops (SCreate r) s = so_create ops r s"
| "store_step ops (SAppend i m) s = so_append ops i m s"
| "store_step ops (SBumpHostEpoch i e) s = so_bump_host_epoch ops i e s"
| "store_step ops (SPutTickets i ts) s = so_put_tickets ops i ts s"
| "store_step ops (SPutWorkspaceTicket i w) s = so_put_workspace_ticket ops i w s"
| "store_step ops (SAddMember i p) s = so_add_member ops i p s"
| "store_step ops (SRemoveMember i p) s = so_remove_member ops i p s"
| "store_step ops (SDelete i) s = so_delete ops i s"

text \<open>A run of successful calls, with the set of epochs persisted per session id so far.  A
  \<open>bump_host_epoch\<close> of an unknown session persists nothing.\<close>

fun persisted_epochs :: "(session_id \<Rightarrow> session_record option) \<Rightarrow> store_call \<Rightarrow> (session_id \<times> u64) set" where
  "persisted_epochs known (SCreate r) = {(sr_id r, sr_host_epoch r)}"
| "persisted_epochs known (SBumpHostEpoch i e) = (if known i = None then {} else {(i, e)})"
| "persisted_epochs known _ = {}"

fun store_run ::
  "'s store_ops \<Rightarrow> ('s \<Rightarrow> session_id \<Rightarrow> session_record option) \<Rightarrow> store_call list
    \<Rightarrow> 's \<times> (session_id \<times> u64) set \<Rightarrow> ('s \<times> (session_id \<times> u64) set) option" where
  "store_run ops rec [] (s, H) = Some (s, H)"
| "store_run ops rec (c # cs) (s, H) =
    (case store_step ops c s of
      (Inl _, _) \<Rightarrow> None
    | (Inr _, s') \<Rightarrow> store_run ops rec cs (s', H \<union> persisted_epochs (rec s) c))"

subsection \<open>The store contract\<close>

text \<open>
  \<open>rec\<close> is the record \<open>load_all\<close> would give for a session and \<open>floor\<close> its epoch floor.  The laws
  speak about calls that return Ok; what a failed call leaves behind is not promised.
\<close>

locale session_store =
  fixes ops :: "'s store_ops"
    and rec :: "'s \<Rightarrow> session_id \<Rightarrow> session_record option"
    and floor :: "'s \<Rightarrow> session_id \<Rightarrow> u64"
  assumes create_rec: "\<lbrakk>rec s (sr_id r) = None; so_create ops r s = (Inr (), s')\<rbrakk> \<Longrightarrow> rec s' = (rec s)(sr_id r \<mapsto> r)"
    and create_floor: "so_create ops r s = (Inr (), s') \<Longrightarrow>
      floor s' = (floor s)(sr_id r := max (floor s (sr_id r)) (sr_host_epoch r + 1))"
    and append_rec: "\<lbrakk>rec s i = Some r; so_append ops i m s = (Inr (), s')\<rbrakk> \<Longrightarrow>
      rec s' = (rec s)(i \<mapsto> r\<lparr> sr_head := max (sr_head r) (m_seq m), sr_log := sr_log r @ [m] \<rparr>)"
    and append_floor: "so_append ops i m s = (Inr (), s') \<Longrightarrow> floor s' = floor s"
    and bump_rec: "so_bump_host_epoch ops i e s = (Inr (), s') \<Longrightarrow>
      rec s' = (rec s)(i := map_option (\<lambda>r. r\<lparr> sr_host_epoch := e \<rparr>) (rec s i))"
    and bump_floor: "\<lbrakk>rec s i \<noteq> None; so_bump_host_epoch ops i e s = (Inr (), s')\<rbrakk> \<Longrightarrow>
      floor s' = (floor s)(i := max (floor s i) (e + 1))"
    and bump_floor_mono: "so_bump_host_epoch ops i e s = (Inr (), s') \<Longrightarrow> floor s j \<le> floor s' j"
    and epoch_floor: "so_epoch_floor ops i s = (Inr f, s') \<Longrightarrow> f = floor s i \<and> rec s' = rec s \<and> floor s' = floor s"
    and put_tickets_rec: "\<lbrakk>rec s i = Some r; so_put_tickets ops i ts s = (Inr (), s')\<rbrakk> \<Longrightarrow>
      rec s' = (rec s)(i \<mapsto> r\<lparr> sr_tickets := ts \<rparr>)"
    and put_tickets_floor: "so_put_tickets ops i ts s = (Inr (), s') \<Longrightarrow> floor s' = floor s"
    and put_tickets_unknown: "rec s i = None \<Longrightarrow> fst (so_put_tickets ops i ts s) \<noteq> Inr ()"
    and put_envelope_rec: "\<lbrakk>rec s i = Some r; so_put_workspace_ticket ops i w s = (Inr (), s')\<rbrakk> \<Longrightarrow>
      rec s' = (rec s)(i \<mapsto> r\<lparr> sr_workspace_ticket := Some w \<rparr>) \<and> length w \<le> WORKSPACE_TICKET_ENVELOPE_MAX"
    and put_envelope_floor: "so_put_workspace_ticket ops i w s = (Inr (), s') \<Longrightarrow> floor s' = floor s"
    and add_member_rec: "\<lbrakk>rec s i = Some r; so_add_member ops i p s = (Inr (), s')\<rbrakk> \<Longrightarrow>
      rec s' = (rec s)(i \<mapsto> r\<lparr> sr_members := insert (pi_id p) (sr_members r) \<rparr>)"
    and add_member_floor: "so_add_member ops i p s = (Inr (), s') \<Longrightarrow> floor s' = floor s"
    and remove_member_rec: "\<lbrakk>rec s i = Some r; so_remove_member ops i q s = (Inr (), s')\<rbrakk> \<Longrightarrow>
      rec s' = (rec s)(i \<mapsto> r\<lparr> sr_members := sr_members r - {q} \<rparr>)"
    and remove_member_floor: "so_remove_member ops i q s = (Inr (), s') \<Longrightarrow> floor s' = floor s"
    and delete_rec: "so_delete ops i s = (Inr (), s') \<Longrightarrow> rec s' = (rec s)(i := None)"
    and delete_floor: "so_delete ops i s = (Inr (), s') \<Longrightarrow> floor s' = floor s"
    and attachments: "so_put_attachment ops i k pl s = (Inr b, s') \<or> so_delete_attachment ops i k s = (Inr (), s')
        \<or> so_list_attachments ops kf s = (Inr xs, s') \<Longrightarrow> rec s' = rec s \<and> floor s' = floor s"
    and load_all: "so_load_all ops s = (Inr rs, s') \<Longrightarrow> set rs = {r. \<exists>i. rec s i = Some r}"
begin

lemmas floor_laws = create_floor append_floor bump_floor_mono put_tickets_floor put_envelope_floor
  add_member_floor remove_member_floor delete_floor

lemma step_floor_mono: "store_step ops c s = (Inr (), s') \<Longrightarrow> floor s i \<le> floor s' i"
  by (cases c) (auto dest: floor_laws)

lemma persisted_below_floor:
  assumes "store_step ops c s = (Inr (), s')" "(i, e) \<in> persisted_epochs (rec s) c" "e \<noteq> u64_MAX"
  shows "e < floor s' i"
  using assms bump_floor [of s i e s']
  by (cases c) (auto dest!: create_floor simp: less_max_iff_disj less_add_1 split: if_splits)

lemma run_floor_above:
  assumes "store_run ops rec cs (s, H) = Some (s', H')" "(i, e) \<in> H'" "e \<noteq> u64_MAX"
    and "\<And>j f. \<lbrakk>(j, f) \<in> H; f \<noteq> u64_MAX\<rbrakk> \<Longrightarrow> f < floor s j"
  shows "e < floor s' i"
  using assms
proof (induction cs arbitrary: s H)
  case (Cons c cs)
  then obtain t where t: "store_step ops c s = (Inr (), t)"
      and run: "store_run ops rec cs (t, H \<union> persisted_epochs (rec s) c) = Some (s', H')"
    by (auto split: prod.splits sum.splits)
  have "f < floor t j" if "(j, f) \<in> H \<union> persisted_epochs (rec s) c" "f \<noteq> u64_MAX" for j f
    using that Cons.prems(4) persisted_below_floor [OF t] step_floor_mono [OF t, of j]
    by (auto intro: order.strict_trans2)
  from Cons.IH [OF run Cons.prems(2,3) this] show ?case by simp
qed simp

end

subsection \<open>The in-memory store keeps the contract\<close>

definition mem_rec :: "memory_store \<Rightarrow> session_id \<Rightarrow> session_record option" where
  "mem_rec s i = map_option se_record (map_of (ms_inner s) i)"

definition mem_floor :: "memory_store \<Rightarrow> session_id \<Rightarrow> u64" where
  "mem_floor s i = (case map_of (ms_epoch_floors s) i of None \<Rightarrow> 0 | Some f \<Rightarrow> f)"

lemma mem_update_record_Inr:
  "mem_update_record i f s = (Inr (), s') \<Longrightarrow> \<exists>r. mem_rec s i = Some r
    \<and> mem_rec s' = (mem_rec s)(i \<mapsto> f r) \<and> mem_floor s' = mem_floor s"
  by (auto simp: mem_update_record_def mem_rec_def mem_floor_def update_conv' fun_eq_iff
      split: option.splits)

lemma mem_floor_raise: "mem_floor (raise_epoch_floor i v s) = (mem_floor s)(i := max (mem_floor s i) v)"
  by (auto simp: raise_epoch_floor_def mem_floor_def update_conv' Let_def fun_eq_iff max_def
      split: option.splits)

lemma mem_inner_raise [simp]: "ms_inner (raise_epoch_floor i v s) = ms_inner s"
  by (simp add: raise_epoch_floor_def Let_def)

lemma mem_floor_inner [simp]: "mem_floor (s\<lparr> ms_inner := x \<rparr>) = mem_floor s"
  by (simp add: mem_floor_def fun_eq_iff)

lemma mem_create_Inr:
  "mem_create r s = (Inr (), s') \<Longrightarrow> mem_rec s' = (mem_rec s)(sr_id r \<mapsto> r)
    \<and> mem_floor s' = (mem_floor s)(sr_id r := max (mem_floor s (sr_id r)) (sr_host_epoch r + 1))"
  by (auto simp: mem_create_def mem_rec_def session_entry_new_def Let_def update_conv' fun_eq_iff mem_floor_raise)

lemma mem_bump_Inr:
  "mem_bump_host_epoch i e s = (Inr (), s') \<Longrightarrow>
    mem_rec s' = (mem_rec s)(i := map_option (\<lambda>r. r\<lparr> sr_host_epoch := e \<rparr>) (mem_rec s i))
    \<and> mem_floor s' = (mem_floor s)(i := max (mem_floor s i) (e + 1))"
  by (auto simp: mem_bump_host_epoch_def mem_rec_def Let_def update_conv' fun_eq_iff mem_floor_raise
      split: option.splits)

lemma mem_attachments:
  "mem_put_attachment i k pl s = (Inr b, s') \<or> mem_delete_attachment i k s = (Inr (), s')
    \<or> mem_list_attachments kf s = (Inr xs, s') \<Longrightarrow> mem_rec s' = mem_rec s \<and> mem_floor s' = mem_floor s"
  by (auto simp: mem_put_attachment_def mem_delete_attachment_def mem_list_attachments_def mem_rec_def
      update_conv' fun_eq_iff split: option.splits)

lemma mem_load_all_records:
  "set (map (\<lambda>(k, e). se_record e) (AList.clearjunk (ms_inner s))) = {r. \<exists>i. mem_rec s i = Some r}"
proof -
  have "mem_rec s i = Some r \<longleftrightarrow> (\<exists>e. (i, e) \<in> set (AList.clearjunk (ms_inner s)) \<and> r = se_record e)" for i r
    using map_of_eq_Some_iff [OF distinct_clearjunk [of "ms_inner s"]]
    by (auto simp: mem_rec_def map_of_clearjunk)
  then show ?thesis by (force simp: image_iff)
qed

interpretation mem: session_store memory_ops mem_rec mem_floor
proof (unfold_locales, goal_cases)
  case 8 then show ?case by (auto simp: memory_ops_def mem_epoch_floor_def mem_floor_def)
next
  case 11 then show ?case
    by (auto simp: memory_ops_def mem_put_tickets_def mem_update_record_def mem_rec_def)
next
  case 18 then show ?case
    by (auto simp: memory_ops_def mem_delete_def mem_rec_def delete_conv' fun_eq_iff)
next
  case 19 then show ?case by (auto simp: memory_ops_def mem_delete_def mem_floor_def)
next
  case 20 then show ?case using mem_attachments by (auto simp: memory_ops_def)
next
  case 21 then show ?case using mem_load_all_records by (auto simp: memory_ops_def mem_load_all_def)
qed (auto simp: memory_ops_def mem_append_def mem_put_tickets_def mem_put_workspace_ticket_def
    mem_add_member_def mem_remove_member_def fun_upd_def
    dest!: mem_create_Inr mem_bump_Inr mem_update_record_Inr split: if_splits)

subsection \<open>A store without I/O faults\<close>

text \<open>What holds on top of the contract when the medium does not fail: a call on a stored session
  returns Ok, but for the cap on the workspace envelope, and a refused call changes nothing.\<close>

locale reliable_store = session_store +
  assumes create_ok: "fst (so_create ops r s) = Inr ()"
    and append_ok: "rec s i \<noteq> None \<Longrightarrow> fst (so_append ops i m s) = Inr ()"
    and bump_ok: "fst (so_bump_host_epoch ops i e s) = Inr ()"
    and put_tickets_ok: "rec s i \<noteq> None \<Longrightarrow> fst (so_put_tickets ops i ts s) = Inr ()"
    and put_envelope_ok: "rec s i \<noteq> None \<Longrightarrow> length w \<le> WORKSPACE_TICKET_ENVELOPE_MAX
      \<Longrightarrow> fst (so_put_workspace_ticket ops i w s) = Inr ()"
    and put_envelope_refused: "fst (so_put_workspace_ticket ops i w s) = Inl er
      \<Longrightarrow> snd (so_put_workspace_ticket ops i w s) = s"
    and add_member_ok: "rec s i \<noteq> None \<Longrightarrow> fst (so_add_member ops i p s) = Inr ()"
    and remove_member_ok: "rec s i \<noteq> None \<Longrightarrow> fst (so_remove_member ops i q s) = Inr ()"
    and delete_ok: "fst (so_delete ops i s) = Inr ()"
    and epoch_floor_ok: "\<exists>f. fst (so_epoch_floor ops i s) = Inr f"
    and attachments_ok: "(\<exists>b. fst (so_put_attachment ops i k pl s) = Inr b)
      \<and> fst (so_delete_attachment ops i k s) = Inr () \<and> (\<exists>xs. fst (so_list_attachments ops kf s) = Inr xs)"
    and load_all_ok: "\<exists>rs. fst (so_load_all ops s) = Inr rs"

interpretation mem: reliable_store memory_ops mem_rec mem_floor
  by unfold_locales
    (auto simp: mem_defs mem_rec_def Let_def split: option.splits if_splits)

subsection \<open>Properties\<close>

text \<open>Epoch floors outlive deletion.  After any sequence of successful store calls from the
  empty store, deletes and re-creations of the same session id included, every epoch that was
  ever persisted for the id (short of the last representable one) is below the floor a fresh
  \<open>create\<close> of that id starts from.\<close>

theorem memory_epoch_floor_above_history:
  assumes "store_run memory_ops mem_rec cs (memory_new, {}) = Some (s, H)" "(sid, e) \<in> H" "e \<noteq> u64_MAX"
  shows "\<exists>f. fst (mem_epoch_floor sid s) = Inr f \<and> e < f"
proof -
  have "e < mem_floor s sid" using mem.run_floor_above [OF assms] by simp
  then show ?thesis by (simp add: mem_epoch_floor_def mem_floor_def)
qed

definition sample_record :: session_record where
  "sample_record = \<lparr> sr_id = SessionId 9, sr_host = PeerId 7, sr_members = {PeerId 7}, sr_head = Seq 0,
    sr_log = [], sr_kind = Local, sr_host_epoch = 0, sr_tickets = [], sr_workspace_ticket = None \<rparr>"

theorem memory_epoch_floor_above_history_witness:
  "\<exists>s H f. store_run memory_ops mem_rec
      [SCreate sample_record, SBumpHostEpoch (SessionId 9) 4, SDelete (SessionId 9)] (memory_new, {}) = Some (s, H)
    \<and> (SessionId 9, 4) \<in> H \<and> fst (mem_epoch_floor (SessionId 9) s) = Inr f \<and> 4 < f"
proof -
  obtain s H where run: "store_run memory_ops mem_rec
      [SCreate sample_record, SBumpHostEpoch (SessionId 9) 4, SDelete (SessionId 9)] (memory_new, {}) = Some (s, H)"
      and H: "(SessionId 9, 4) \<in> H"
    by (simp add: mem_defs memory_new_def sample_record_def mem_rec_def Let_def)
  from memory_epoch_floor_above_history [OF run H] run H show ?thesis by (simp add: u64_MAX_def)
qed

end
