(* ===== verification/Session.thy ===== *)
theory Session
  imports Store
begin

text \<open>
  One session of the daemon, from \<open>artel-daemon/src/session.rs\<close>: the \<open>Session\<close> struct, its
  conversion to and from the persisted record, the capability projection and the ticket
  admission test, with the error type of the module.  The broadcast channel of a session
  is the event trace of the registry; the delivery lanes (mutual exclusion between delivery
  tasks) are not modelled.  Postcard on a \<open>CapabilityAction\<close> is the parameter \<open>pc\<close>.
\<close>

subsection \<open>Errors\<close>

datatype session_error =
    UnknownSession session_id
  | NotMember session_id
  | InvalidTicket
  | Storage io_error
  | InvalidAddr string
  | Internal string
  | NotHost
  | RemoteTopicMissing session_id
  | SessionConflict session_id
  | HostRejected protocol_error
  | SignatureRejected peer_id string
  | CapabilityDenied (cd_peer: peer_id) (cd_had: "capability option") (cd_needed: capability)
  | TicketExpired
  | InvalidCapClaim string
  | TicketNotAdmissible
  | UnknownTicket ticket_id
  | ReservedAction string
  | PayloadTooLarge u64 u64
  | Panicked
  | Diverged

text \<open>Two values are not variants of the enum: \<open>Panicked\<close> stands for an \<open>expect\<close> that fails, \<open>Diverged\<close>
  for a retry loop that has not ended.\<close>

fun debug_capability :: "capability \<Rightarrow> string" where
  "debug_capability Read = ''Read''"
| "debug_capability ReadWrite = ''ReadWrite''"

fun debug_capability_option :: "capability option \<Rightarrow> string" where
  "debug_capability_option None = ''None''"
| "debug_capability_option (Some c) = ''Some('' @ debug_capability c @ '')''"

fun to_protocol_error :: "session_error \<Rightarrow> protocol_error" where
  "to_protocol_error (UnknownSession s) = PUnknownSession s"
| "to_protocol_error (NotMember _) = PInternal ''not a member''"
| "to_protocol_error InvalidTicket = PInvalidTicket"
| "to_protocol_error TicketExpired = PInvalidTicket"
| "to_protocol_error TicketNotAdmissible = PInvalidTicket"
| "to_protocol_error (Storage e) = PInternal (''storage: '' @ io_error_text e)"
| "to_protocol_error (InvalidAddr msg) = PInternal (''invalid addr: '' @ msg)"
| "to_protocol_error (Internal msg) = PInternal msg"
| "to_protocol_error NotHost = PNotHost"
| "to_protocol_error (RemoteTopicMissing _) = PInternal ''remote session topic missing''"
| "to_protocol_error (SessionConflict s) = PSessionConflict s"
| "to_protocol_error (HostRejected e) = e"
| "to_protocol_error (SignatureRejected p reason) = PSignature (to_hex p @ '': '' @ reason)"
| "to_protocol_error (CapabilityDenied p had needed) =
    PCapability (to_hex p @ '': had '' @ debug_capability_option had @ '', needs '' @ debug_capability needed)"
| "to_protocol_error (InvalidCapClaim reason) = PInternal (''invalid cap claim: '' @ reason)"
| "to_protocol_error (UnknownTicket t) = PUnknownTicket t"
| "to_protocol_error (ReservedAction action) = PInternal (''reserved system action: '' @ action)"
| "to_protocol_error (PayloadTooLarge sz mx) = PPayloadTooLarge sz mx"
| "to_protocol_error Panicked = PInternal []"
| "to_protocol_error Diverged = PInternal []"

subsection \<open>State\<close>

record cap_claim =
  cc_ticket_id :: ticket_id
  cc_granted_cap :: capability
  cc_expiry_ms :: u64
  cc_host_epoch :: u64
  cc_cap_sig :: sig_bytes

type_synonym cap_set = "peer_id \<rightharpoonup> capability"

record session =
  s_id :: session_id
  s_host :: peer_id
  s_kind :: session_kind
  s_members :: "peer_id set"
  s_log :: "session_message list"
  s_head :: seq
  s_host_epoch :: u64
  s_caps :: cap_set
  s_tickets :: "ticket_entry list"
  s_workspace_ticket :: "byte list option"

record session_summary =
  sum_id :: session_id
  sum_is_host :: bool
  sum_peer_count :: nat
  sum_last_seq :: "seq option"

subsection \<open>Capability projection\<close>

definition apply_capability_to ::
  "capability_action codec \<Rightarrow> cap_set \<Rightarrow> peer_id \<Rightarrow> session_message \<Rightarrow> cap_set" where
  "apply_capability_to pc caps host m =
    (if pi_id (m_peer m) \<noteq> host then caps
     else case decode_cap_action pc (m_payload m) of
       Inl _ \<Rightarrow> caps
     | Inr action \<Rightarrow>
         if ca_peer action = host then caps
         else (case action of
             Grant peer cap \<Rightarrow> caps(peer \<mapsto> cap)
           | Revoke peer \<Rightarrow> caps(peer := None)))"

definition project_step :: "capability_action codec \<Rightarrow> peer_id \<Rightarrow> cap_set \<Rightarrow> session_message \<Rightarrow> cap_set" where
  "project_step pc host caps m =
    (if m_kind m = CapabilityKind then apply_capability_to pc caps host m else caps)"

definition project_caps :: "capability_action codec \<Rightarrow> peer_id \<Rightarrow> session_message list \<Rightarrow> cap_set" where
  "project_caps pc host log =
    foldl (project_step pc host) [host \<mapsto> ReadWrite] (sort_key m_seq log)"

subsection \<open>Construction, persistence and queries\<close>

definition session_new :: "session_id \<Rightarrow> peer_info \<Rightarrow> session_kind \<Rightarrow> session" where
  "session_new sid host kind =
    \<lparr> s_id = sid, s_host = pi_id host, s_kind = kind, s_members = {pi_id host}, s_log = [],
      s_head = Seq_ZERO, s_host_epoch = 0, s_caps = [pi_id host \<mapsto> ReadWrite], s_tickets = [],
      s_workspace_ticket = None \<rparr>"

definition from_record :: "capability_action codec \<Rightarrow> session_record \<Rightarrow> session" where
  "from_record pc r =
    \<lparr> s_id = sr_id r, s_host = sr_host r, s_kind = sr_kind r, s_members = sr_members r, s_log = sr_log r,
      s_head = sr_head r, s_host_epoch = sr_host_epoch r, s_caps = project_caps pc (sr_host r) (sr_log r),
      s_tickets = sr_tickets r, s_workspace_ticket = sr_workspace_ticket r \<rparr>"

definition record_of :: "session \<Rightarrow> session_record" where
  "record_of s =
    \<lparr> sr_id = s_id s, sr_host = s_host s, sr_members = s_members s, sr_head = s_head s, sr_log = s_log s,
      sr_kind = s_kind s, sr_host_epoch = s_host_epoch s, sr_tickets = s_tickets s,
      sr_workspace_ticket = s_workspace_ticket s \<rparr>"

definition summary :: "session \<Rightarrow> peer_id \<Rightarrow> session_summary" where
  "summary s daemon =
    \<lparr> sum_id = s_id s, sum_is_host = (s_host s = daemon),
      sum_peer_count = min (card (s_members s)) (2 ^ 32 - 1),
      sum_last_seq = (if s_head s = Seq_ZERO then None else Some (s_head s)) \<rparr>"

definition can_write :: "session \<Rightarrow> peer_id \<Rightarrow> bool" where
  "can_write s p = (case s_caps s p of None \<Rightarrow> False | Some c \<Rightarrow> permits_write c)"

definition ticket_admissible :: "session \<Rightarrow> cap_claim \<Rightarrow> bool" where
  "ticket_admissible s claim =
    (if s_kind s \<noteq> Local then True
     else list_ex (\<lambda>t. te_ticket_id t = cc_ticket_id claim \<and> te_status t = Active
       \<and> te_granted_cap t = cc_granted_cap claim \<and> te_expiry_ms t = cc_expiry_ms claim) (s_tickets s))"

definition apply_capability :: "capability_action codec \<Rightarrow> session \<Rightarrow> session_message \<Rightarrow> session" where
  "apply_capability pc s m = s\<lparr> s_caps := apply_capability_to pc (s_caps s) (s_host s) m \<rparr>"

subsection \<open>Sorting a log by sequence number\<close>

lemma insort_key_snoc: "f a \<le> f x \<Longrightarrow> insort_key f a (xs @ [x]) = insort_key f a xs @ [x]"
  by (induction xs) simp_all

lemma sort_key_snoc: "\<forall>y\<in>set xs. f y \<le> f x \<Longrightarrow> sort_key f (xs @ [x]) = sort_key f xs @ [x]"
  by (induction xs) (simp_all add: insort_key_snoc)

lemma sort_key_cong_set:
  assumes "set xs = set ys" "distinct (map f xs)" "distinct (map f ys)"
  shows "sort_key f xs = sort_key f ys"
proof (rule map_sorted_distinct_set_unique [of f])
  have "distinct xs" "distinct ys" "inj_on f (set xs)" using assms(2,3) by (simp_all add: distinct_map)
  with assms(1) show "inj_on f (set (sort_key f xs) \<union> set (sort_key f ys))"
      "distinct (map f (sort_key f xs))" "distinct (map f (sort_key f ys))"
    by (simp_all add: distinct_map)
qed (simp_all add: assms(1))

subsection \<open>Facts about the projection\<close>

lemma apply_capability_to_host [simp]: "apply_capability_to pc caps host m host = caps host"
  by (auto simp: apply_capability_to_def split: sum.splits capability_action.splits)

lemma project_step_host [simp]: "project_step pc host caps m host = caps host"
  by (simp add: project_step_def)

lemma foldl_project_host: "foldl (project_step pc host) caps ms host = caps host"
  by (induction ms arbitrary: caps) simp_all

lemma project_caps_host [simp]: "project_caps pc host log host = Some ReadWrite"
  by (simp add: project_caps_def foldl_project_host)

lemma project_caps_Nil [simp]: "project_caps pc host [] = [host \<mapsto> ReadWrite]"
  by (simp add: project_caps_def)

lemma project_caps_snoc:
  "\<forall>x\<in>set log. m_seq x \<le> m_seq m \<Longrightarrow> project_caps pc host (log @ [m]) = project_step pc host (project_caps pc host log) m"
  by (simp add: project_caps_def sort_key_snoc)

lemma project_caps_cong_set:
  "\<lbrakk>set log = set log'; distinct (map m_seq log); distinct (map m_seq log')\<rbrakk> \<Longrightarrow>
    project_caps pc host log = project_caps pc host log'"
  by (simp only: project_caps_def sort_key_cong_set [of log log' m_seq])

lemma project_step_not_host: "pi_id (m_peer m) \<noteq> host \<Longrightarrow> project_step pc host caps m = caps"
  by (simp add: project_step_def apply_capability_to_def)

lemma foldl_project_filter:
  "foldl (project_step pc host) caps (filter (\<lambda>m. m_kind m = CapabilityKind \<and> pi_id (m_peer m) = host) ms) =
    foldl (project_step pc host) caps ms"
  by (induction ms arbitrary: caps) (auto simp: project_step_not_host, simp add: project_step_def)

lemma record_of_from_record [simp]: "record_of (from_record pc r) = r"
  by (simp add: record_of_def from_record_def)

lemma can_write_host: "s_caps s (s_host s) = Some ReadWrite \<Longrightarrow> can_write s (s_host s)"
  by (simp add: can_write_def)

end
