(* ===== verification/Registry.thy ===== *)
theory Registry
  imports Session
begin

text \<open>
  The session registry of \<open>artel-daemon/src/session.rs\<close> (iroh build): its state, start-up,
  hosting and resuming, the ticket ledger, leaving and removal of members.

  The registry is generic in the store: every operation takes the store operations
  \<open>ops\<close> and threads the store state, so each \<open>map_err(SessionError::Storage)?\<close> is a
  branch.  Events sent on a session's broadcast channel and calls into the gossip bridge
  are appended to the traces \<open>r_events\<close> and \<open>r_outbox\<close>.  Every operation here runs
  under a lock in the code, so it is one atomic step of the model.  The clock and the random
  ids are arguments.
\<close>

subsection \<open>State\<close>

datatype event =
    EvMessage session_id session_message
  | EvPeerJoined session_id peer_info
  | EvPeerLeft session_id peer_id
  | EvSessionClosed session_id
  | EvGap session_id
  | EvReplayComplete session_id

datatype bridge_error =
    BIroh string
  | BUnknownSession session_id
  | BSendTimeout
  | BHostRejected protocol_error
  | BInvalidAddr string
  | BPayloadTooLarge u64 u64

datatype bridge_call =
    CallHostSession session_id
  | CallPublishEpochBeacon session_id u64
  | CallPublishMessage session_id session_message
  | CallPublishSessionClosed session_id u64
  | CallForgetSession session_id
  | CallJoinSession session_id peer_info peer_id wire_endpoint_addr ticket_id capability u64 u64 sig_bytes
  | CallSendRemote session_id peer_info message_kind string "byte list"
  | CallDeliverTicket session_id peer_id "byte list"

record ('s, 'k) registry =
  r_daemon_peer_id :: peer_id
  r_daemon_addr :: wire_endpoint_addr
  r_sessions :: "(session_id \<times> session) list"
  r_store :: 's
  r_bridge :: bool
  r_signing_key :: "'k option"
  r_endpoint :: bool
  r_events :: "event list"
  r_outbox :: "bridge_call list"

text \<open>Third-party code the registry calls: ed25519, postcard, base32, and the \<open>Display\<close> text of
  a bridge error.\<close>

record 'k env =
  e_ed :: "'k ed25519"
  e_cap_action :: "capability_action codec"
  e_b32 :: base32
  e_ticket_body :: "wire_body codec"
  e_serialized_size :: "session_message \<Rightarrow> nat"
  e_bridge_text :: "bridge_error \<Rightarrow> string"

abbreviation get_session :: "('s, 'k) registry \<Rightarrow> session_id \<Rightarrow> session option" where
  "get_session r sid \<equiv> map_of (r_sessions r) sid"

definition put_session :: "session_id \<Rightarrow> session \<Rightarrow> ('s, 'k) registry \<Rightarrow> ('s, 'k) registry" where
  "put_session sid s r = r\<lparr> r_sessions := AList.update sid s (r_sessions r) \<rparr>"

definition remove_session :: "session_id \<Rightarrow> ('s, 'k) registry \<Rightarrow> ('s, 'k) registry" where
  "remove_session sid r = r\<lparr> r_sessions := AList.delete sid (r_sessions r) \<rparr>"

definition emit :: "event \<Rightarrow> ('s, 'k) registry \<Rightarrow> ('s, 'k) registry" where
  "emit ev r = r\<lparr> r_events := r_events r @ [ev] \<rparr>"

text \<open>\<open>if let Some(bridge) = &self.bridge\<close> around a call.\<close>

definition bridge_do :: "bridge_call \<Rightarrow> ('s, 'k) registry \<Rightarrow> ('s, 'k) registry" where
  "bridge_do c r = (if r_bridge r then r\<lparr> r_outbox := r_outbox r @ [c] \<rparr> else r)"

text \<open>\<open>self.store.op(..).await.map_err(SessionError::Storage)?\<close> followed by \<open>k\<close>.\<close>

definition store_try ::
  "('s, 'a) store_io \<Rightarrow> ('s, 'k) registry \<Rightarrow> ('a \<Rightarrow> ('s, 'k) registry \<Rightarrow> (session_error + 'b) \<times> ('s, 'k) registry)
    \<Rightarrow> (session_error + 'b) \<times> ('s, 'k) registry" where
  "store_try io r k =
    (let (res, st) = io (r_store r); r' = r\<lparr> r_store := st \<rparr> in
     case res of Inl e \<Rightarrow> (Inl (Storage e), r') | Inr v \<Rightarrow> k v r')"

lemmas registry_defs = put_session_def remove_session_def emit_def bridge_do_def store_try_def

subsection \<open>Start-up and queries\<close>

definition load ::
  "'k env \<Rightarrow> 's store_ops \<Rightarrow> peer_id \<Rightarrow> wire_endpoint_addr \<Rightarrow> bool \<Rightarrow> 'k option \<Rightarrow> bool \<Rightarrow> 's
    \<Rightarrow> io_error + ('s, 'k) registry" where
  "load ev ops daemon addr bridge key endpoint st =
    (case so_load_all ops st of
      (Inl e, _) \<Rightarrow> Inl e
    | (Inr records, st') \<Rightarrow> Inr \<lparr> r_daemon_peer_id = daemon, r_daemon_addr = addr,
        r_sessions = foldl (\<lambda>m r. AList.update (sr_id r) (from_record (e_cap_action ev) r) m) [] records,
        r_store = st', r_bridge = bridge, r_signing_key = key, r_endpoint = endpoint,
        r_events = [], r_outbox = [] \<rparr>)"

definition is_local_session :: "('s, 'k) registry \<Rightarrow> session_id \<Rightarrow> bool option" where
  "is_local_session r sid = map_option (\<lambda>s. s_kind s = Local) (get_session r sid)"

definition is_member :: "('s, 'k) registry \<Rightarrow> session_id \<Rightarrow> peer_id \<Rightarrow> bool option" where
  "is_member r sid p = map_option (\<lambda>s. p \<in> s_members s) (get_session r sid)"

definition list_sessions :: "('s, 'k) registry \<Rightarrow> session_summary list" where
  "list_sessions r = map (\<lambda>(i, s). summary s (r_daemon_peer_id r)) (AList.clearjunk (r_sessions r))"

definition lock_local_session :: "('s, 'k) registry \<Rightarrow> session_id \<Rightarrow> session_error + session" where
  "lock_local_session r sid =
    (case get_session r sid of
      None \<Rightarrow> Inl (UnknownSession sid)
    | Some s \<Rightarrow> if s_kind s \<noteq> Local then Inl NotHost else Inr s)"

subsection \<open>Tickets\<close>

definition mint_ticket ::
  "'k env \<Rightarrow> ('s, 'k) registry \<Rightarrow> ticket_id \<Rightarrow> session_id \<Rightarrow> capability \<Rightarrow> u64 \<Rightarrow> u64 \<Rightarrow> ustring \<times> ticket_id" where
  "mint_ticket ev r tid sid cap expiry_ms host_epoch =
    (let cap_sig = (case r_signing_key r of
           None \<Rightarrow> SIGNATURE_UNSIGNED
         | Some key \<Rightarrow> sign_ticket_cap (e_ed ev) key tid sid cap expiry_ms host_epoch)
     in (encode_ticket (e_b32 ev) (e_ticket_body ev)
           \<lparr> st_ticket_id = tid, st_session_id = sid, st_host_addr = r_daemon_addr r, st_granted_cap = cap,
             st_expiry_ms = expiry_ms, st_host_epoch = host_epoch, st_cap_sig = cap_sig \<rparr>, tid))"

definition ledger_entry :: "u64 \<Rightarrow> ticket_id \<Rightarrow> capability \<Rightarrow> u64 \<Rightarrow> ticket_entry" where
  "ledger_entry now tid cap expiry_ms =
    \<lparr> te_ticket_id = tid, te_granted_cap = cap, te_expiry_ms = expiry_ms, te_issued_at_ms = now,
      te_status = Active, te_used_by = [] \<rparr>"

definition issue_ticket ::
  "'k env \<Rightarrow> 's store_ops \<Rightarrow> u64 \<Rightarrow> ticket_id \<Rightarrow> session_id \<Rightarrow> capability \<Rightarrow> u64 \<Rightarrow> ('s, 'k) registry
    \<Rightarrow> (session_error + ustring \<times> ticket_id) \<times> ('s, 'k) registry" where
  "issue_ticket ev ops now tid sid cap expiry_ms r =
    (case lock_local_session r sid of
      Inl e \<Rightarrow> (Inl e, r)
    | Inr s \<Rightarrow>
        let minted = mint_ticket ev r tid sid cap expiry_ms (s_host_epoch s);
            tickets = s_tickets s @ [ledger_entry now tid cap expiry_ms]
        in store_try (so_put_tickets ops sid tickets) r
             (\<lambda>_ r'. (Inr minted, put_session sid (s\<lparr> s_tickets := tickets \<rparr>) r')))"

text \<open>\<open>iter().position(..)\<close>, then the update of the entry at that index.\<close>

fun position_of :: "ticket_id \<Rightarrow> ticket_entry list \<Rightarrow> nat option" where
  "position_of tid [] = None"
| "position_of tid (t # ts) = (if te_ticket_id t = tid then Some 0 else map_option Suc (position_of tid ts))"

definition revoke_ticket ::
  "'s store_ops \<Rightarrow> session_id \<Rightarrow> ticket_id \<Rightarrow> ('s, 'k) registry \<Rightarrow> (session_error + unit) \<times> ('s, 'k) registry" where
  "revoke_ticket ops sid tid r =
    (case lock_local_session r sid of
      Inl e \<Rightarrow> (Inl e, r)
    | Inr s \<Rightarrow>
        (case position_of tid (s_tickets s) of
          None \<Rightarrow> (Inl (UnknownTicket tid), r)
        | Some idx \<Rightarrow>
            if te_status (s_tickets s ! idx) = Revoked then (Inr (), r)
            else let tickets = (s_tickets s)[idx := (s_tickets s ! idx)\<lparr> te_status := Revoked \<rparr>]
                 in store_try (so_put_tickets ops sid tickets) r
                      (\<lambda>_ r'. (Inr (), put_session sid (s\<lparr> s_tickets := tickets \<rparr>) r'))))"

definition list_tickets :: "('s, 'k) registry \<Rightarrow> session_id \<Rightarrow> session_error + ticket_entry list" where
  "list_tickets r sid = (case lock_local_session r sid of Inl e \<Rightarrow> Inl e | Inr s \<Rightarrow> Inr (s_tickets s))"

subsection \<open>Hosting\<close>

definition host_resume ::
  "'k env \<Rightarrow> 's store_ops \<Rightarrow> u64 \<Rightarrow> ticket_id \<Rightarrow> peer_info \<Rightarrow> session_id \<Rightarrow> session \<Rightarrow> capability \<Rightarrow> u64
    \<Rightarrow> ('s, 'k) registry \<Rightarrow> (session_error + session_id \<times> ustring \<times> ticket_id) \<times> ('s, 'k) registry" where
  "host_resume ev ops now tid host_peer sid s cap expiry_ms r =
    (if s_host s \<noteq> pi_id host_peer \<or> s_kind s \<noteq> Local then (Inl (SessionConflict sid), r)
     else
       let host_epoch = saturating_add_1 (s_host_epoch s);
           (ticket, ticket_id) = mint_ticket ev r tid sid cap expiry_ms host_epoch;
           tickets = s_tickets s @ [ledger_entry now ticket_id cap expiry_ms]
       in store_try (so_put_tickets ops sid tickets) r
            (\<lambda>_ r1. store_try (so_bump_host_epoch ops sid host_epoch) r1
              (\<lambda>_ r2.
                let r3 = put_session sid (s\<lparr> s_host_epoch := host_epoch, s_tickets := tickets \<rparr>) r2;
                    r4 = bridge_do (CallHostSession sid) r3;
                    r5 = bridge_do (CallPublishEpochBeacon sid host_epoch) r4
                in (Inr (sid, ticket, ticket_id), r5))))"

definition host_create ::
  "'k env \<Rightarrow> 's store_ops \<Rightarrow> u64 \<Rightarrow> ticket_id \<Rightarrow> peer_info \<Rightarrow> session_id \<Rightarrow> capability \<Rightarrow> u64
    \<Rightarrow> ('s, 'k) registry \<Rightarrow> (session_error + session_id \<times> ustring \<times> ticket_id) \<times> ('s, 'k) registry" where
  "host_create ev ops now tid host_peer sid cap expiry_ms r =
    store_try (so_epoch_floor ops sid) r
      (\<lambda>host_epoch r1.
        let (ticket, ticket_id) = mint_ticket ev r1 tid sid cap expiry_ms host_epoch;
            s = (session_new sid host_peer Local)\<lparr> s_host_epoch := host_epoch,
                  s_tickets := [ledger_entry now ticket_id cap expiry_ms] \<rparr>
        in store_try (so_create ops (record_of s)) r1
             (\<lambda>_ r2. (Inr (sid, ticket, ticket_id), bridge_do (CallHostSession sid) (put_session sid s r2))))"

text \<open>
  Without a requested id the code draws random ids until one is not in the map; \<open>draws\<close> is
  what the generator yields.  A source of draws that are all taken leaves the loop running,
  which is the value \<open>Diverged\<close>.
\<close>

definition registry_host ::
  "'k env \<Rightarrow> 's store_ops \<Rightarrow> u64 \<Rightarrow> session_id list \<Rightarrow> ticket_id \<Rightarrow> peer_info \<Rightarrow> session_id option \<Rightarrow> capability
    \<Rightarrow> u64 \<Rightarrow> ('s, 'k) registry \<Rightarrow> (session_error + session_id \<times> ustring \<times> ticket_id) \<times> ('s, 'k) registry" where
  "registry_host ev ops now draws tid host_peer requested_id cap expiry_ms r =
    (case requested_id of
      Some sid \<Rightarrow>
        (case get_session r sid of
          Some s \<Rightarrow> host_resume ev ops now tid host_peer sid s cap expiry_ms r
        | None \<Rightarrow> host_create ev ops now tid host_peer sid cap expiry_ms r)
    | None \<Rightarrow>
        (case find (\<lambda>sid. get_session r sid = None) draws of
          Some sid \<Rightarrow> host_create ev ops now tid host_peer sid cap expiry_ms r
        | None \<Rightarrow> (Inl Diverged, r)))"

subsection \<open>Leaving and removal\<close>

definition leave ::
  "'s store_ops \<Rightarrow> session_id \<Rightarrow> peer_id \<Rightarrow> ('s, 'k) registry \<Rightarrow> (session_error + unit) \<times> ('s, 'k) registry" where
  "leave ops sid peer r =
    (case get_session r sid of
      None \<Rightarrow> (Inl (UnknownSession sid), r)
    | Some s \<Rightarrow>
        if peer \<notin> s_members s then (Inl (NotMember sid), r)
        else if peer = s_host s \<or> s_kind s = Remote then
          store_try (so_delete ops sid) r
            (\<lambda>_ r1.
              let r2 = remove_session sid (emit (EvSessionClosed sid) r1);
                  r3 = (if peer = s_host s \<and> s_kind s = Local
                        then bridge_do (CallPublishSessionClosed sid (s_host_epoch s)) r2 else r2)
              in (Inr (), bridge_do (CallForgetSession sid) r3))
        else
          store_try (so_remove_member ops sid peer) r
            (\<lambda>_ r1. (Inr (), emit (EvPeerLeft sid peer)
              (put_session sid (s\<lparr> s_members := s_members s - {peer} \<rparr>) r1))))"

definition remove_member ::
  "'s store_ops \<Rightarrow> session_id \<Rightarrow> peer_id \<Rightarrow> ('s, 'k) registry \<Rightarrow> (session_error + unit) \<times> ('s, 'k) registry" where
  "remove_member ops sid peer r =
    (case lock_local_session r sid of
      Inl e \<Rightarrow> (Inl e, r)
    | Inr s \<Rightarrow>
        if peer = s_host s then (Inr (), r)
        else if peer \<notin> s_members s then (Inr (), r)
        else store_try (so_remove_member ops sid peer) r
          (\<lambda>_ r1. (Inr (), emit (EvPeerLeft sid peer)
            (put_session sid (s\<lparr> s_members := s_members s - {peer} \<rparr>) r1))))"

end
