(* ===== verification/Send.thy ===== *)
theory Send
  imports Registry
begin

text \<open>
  The send path of \<open>artel-daemon/src/session.rs\<close>: authoring, sequencing and the append of a
  message on the host, and the forwarding of a send on a mirror.  \<open>send\<close> is the only place
  that assigns sequence numbers.  The answer of the bridge to a forwarded send is an
  argument.
\<close>

datatype authoring = ALocal | ARemote (ar_timestamp_ms: u64) (ar_signature: sig_bytes)

definition reserved_system_action :: "string \<Rightarrow> string option" where
  "reserved_system_action action =
    (if action = TICKET_ACTION then Some TICKET_ACTION
     else if action = UPGRADE_ACTION then Some UPGRADE_ACTION
     else None)"

definition map_send_remote_result ::
  "bridge_error + session_message \<Rightarrow> session_error + session_message" where
  "map_send_remote_result res =
    (case res of
      Inr m \<Rightarrow> Inr m
    | Inl (BHostRejected err) \<Rightarrow> Inl (HostRejected err)
    | Inl BSendTimeout \<Rightarrow> Inl (Internal ''send_remote: timed out waiting for host ack'')
    | Inl (BUnknownSession _) \<Rightarrow> Inl (Internal ''send_remote: bridge missing session topic'')
    | Inl (BIroh msg) \<Rightarrow> Inl (Internal (''gossip: '' @ msg))
    | Inl (BPayloadTooLarge sz mx) \<Rightarrow> Inl (PayloadTooLarge sz mx)
    | Inl (BInvalidAddr msg) \<Rightarrow> Inl (InvalidAddr msg))"

definition forward_remote_send ::
  "session_id \<Rightarrow> peer_info \<Rightarrow> message_kind \<Rightarrow> string \<Rightarrow> byte list \<Rightarrow> bridge_error + session_message
    \<Rightarrow> ('s, 'k) registry \<Rightarrow> (session_error + session_message) \<times> ('s, 'k) registry" where
  "forward_remote_send sid peer kind action payload answer r =
    (if \<not> r_bridge r then (Inl (Internal ''remote send requires gossip bridge''), r)
     else let r' = bridge_do (CallSendRemote sid peer kind action payload) r in
       case answer of
         Inl (BUnknownSession s) \<Rightarrow> (Inl (RemoteTopicMissing s), r')
       | _ \<Rightarrow> (map_send_remote_result answer, r'))"

definition sign_seq_for :: "'k env \<Rightarrow> ('s, 'k) registry \<Rightarrow> session_id \<Rightarrow> seq \<Rightarrow> sig_bytes \<Rightarrow> sig_bytes" where
  "sign_seq_for ev r sid sq author_sig =
    (case r_signing_key r of
      None \<Rightarrow> SIGNATURE_UNSIGNED
    | Some key \<Rightarrow> sign_seq (e_ed ev) key sid sq author_sig)"

definition author_local ::
  "'k env \<Rightarrow> ('s, 'k) registry \<Rightarrow> u64 \<Rightarrow> peer_info \<Rightarrow> message_kind \<Rightarrow> string \<Rightarrow> byte list \<Rightarrow> session_id
    \<Rightarrow> session_error + u64 \<times> sig_bytes" where
  "author_local ev r now peer kind action payload sid =
    (case r_signing_key r of
      None \<Rightarrow> Inr (now, SIGNATURE_UNSIGNED)
    | Some key \<Rightarrow>
        (case sign_body (e_ed ev) key sid MESSAGE_FORMAT now peer kind action payload of
          None \<Rightarrow> Inl Panicked
        | Some s \<Rightarrow> Inr (now, s)))"

definition author_remote ::
  "'k env \<Rightarrow> u64 \<Rightarrow> sig_bytes \<Rightarrow> peer_info \<Rightarrow> message_kind \<Rightarrow> string \<Rightarrow> byte list \<Rightarrow> session_id
    \<Rightarrow> session_error + u64 \<times> sig_bytes" where
  "author_remote ev ts s peer kind action payload sid =
    (let candidate = session_message_new Seq_ZERO ts peer kind action payload s SIGNATURE_UNSIGNED in
     case verify_message (e_ed ev) sid candidate s of
       Inr _ \<Rightarrow> Inr (ts, s)
     | Inl VerifyPanic \<Rightarrow> Inl Panicked
     | Inl err \<Rightarrow> Inl (SignatureRejected (pi_id peer) (verify_reason err)))"

definition resolve_authoring ::
  "'k env \<Rightarrow> ('s, 'k) registry \<Rightarrow> u64 \<Rightarrow> authoring \<Rightarrow> peer_info \<Rightarrow> message_kind \<Rightarrow> string \<Rightarrow> byte list
    \<Rightarrow> session_id \<Rightarrow> session_error + u64 \<times> sig_bytes" where
  "resolve_authoring ev r now authoring peer kind action payload sid =
    (case authoring of
      ALocal \<Rightarrow> author_local ev r now peer kind action payload sid
    | ARemote ts s \<Rightarrow> author_remote ev ts s peer kind action payload sid)"

text \<open>The host arm after the snapshot checks, under one hold of the session lock.\<close>

definition sequence_message ::
  "'k env \<Rightarrow> 's store_ops \<Rightarrow> u64 \<Rightarrow> session_id \<Rightarrow> session \<Rightarrow> peer_info \<Rightarrow> message_kind \<Rightarrow> string \<Rightarrow> byte list
    \<Rightarrow> authoring \<Rightarrow> ('s, 'k) registry \<Rightarrow> (session_error + session_message) \<times> ('s, 'k) registry" where
  "sequence_message ev ops now sid s peer kind action payload authoring r =
    (if pi_id peer \<notin> s_members s then (Inl (NotMember sid), r)
     else if \<not> can_write s (pi_id peer)
       then (Inl (CapabilityDenied (pi_id peer) (s_caps s (pi_id peer)) ReadWrite), r)
     else case resolve_authoring ev r now authoring peer kind action payload sid of
       Inl e \<Rightarrow> (Inl e, r)
     | Inr (ts, author_sig) \<Rightarrow>
       (case seq_next (s_head s) of
          None \<Rightarrow> (Inl Panicked, r)
        | Some prospective \<Rightarrow>
            let host_sig = sign_seq_for ev r sid prospective author_sig;
                message = session_message_new prospective ts peer kind action payload author_sig host_sig;
                frame_len = message_frame_len (e_serialized_size ev) message
            in if frame_len > MAX_SESSION_MESSAGE_FRAME
               then (Inl (PayloadTooLarge (of_nat frame_len) (of_nat MAX_SESSION_MESSAGE_FRAME)), r)
               else store_try (so_append ops sid message) r
                 (\<lambda>_ r1.
                   let s1 = s\<lparr> s_head := prospective, s_log := s_log s @ [message] \<rparr>;
                       s2 = (if kind = CapabilityKind then apply_capability (e_cap_action ev) s1 message else s1);
                       r2 = emit (EvMessage sid message) (put_session sid s2 r1);
                       r3 = (if kind \<noteq> CapabilityKind then bridge_do (CallPublishMessage sid message) r2 else r2)
                   in (Inr message, r3))))"

definition send ::
  "'k env \<Rightarrow> 's store_ops \<Rightarrow> u64 \<Rightarrow> session_id \<Rightarrow> peer_info \<Rightarrow> message_kind \<Rightarrow> string \<Rightarrow> byte list \<Rightarrow> authoring
    \<Rightarrow> bridge_error + session_message \<Rightarrow> ('s, 'k) registry
    \<Rightarrow> (session_error + session_message) \<times> ('s, 'k) registry" where
  "send ev ops now sid peer kind action payload authoring answer r =
    (if kind = System \<and> reserved_system_action action \<noteq> None
     then (Inl (ReservedAction (the (reserved_system_action action))), r)
     else case get_session r sid of
       None \<Rightarrow> (Inl (UnknownSession sid), r)
     | Some s \<Rightarrow>
         if pi_id peer \<notin> s_members s then (Inl (NotMember sid), r)
         else if s_kind s = Remote then forward_remote_send sid peer kind action payload answer r
         else sequence_message ev ops now sid s peer kind action payload authoring r)"

end
