(* ===== verification/Admission.thy ===== *)
theory Admission
  imports Send
begin

text \<open>
  Membership from the outside, \<open>artel-daemon/src/session.rs\<close>: joining with a ticket (local
  sessions and the materialisation of a remote mirror), the host's admission of an announced
  peer, and the delivery of the workspace ticket.  The outcome of the bridge's gossip
  subscribe is an argument.
\<close>

subsection \<open>Delivery of the workspace ticket\<close>

text \<open>The spawned delivery task is the call \<open>CallDeliverTicket\<close>; \<open>run_delivery_with_retry\<close> below is
  what it runs.\<close>

definition deliver_workspace_ticket_to ::
  "session_id \<Rightarrow> peer_id \<Rightarrow> byte list \<Rightarrow> ('s, 'k) registry \<Rightarrow> ('s, 'k) registry" where
  "deliver_workspace_ticket_to sid target envelope r =
    (if target = r_daemon_peer_id r then r
     else if \<not> r_endpoint r then r
     else case get_session r sid of
       None \<Rightarrow> r
     | Some _ \<Rightarrow> r\<lparr> r_outbox := r_outbox r @ [CallDeliverTicket sid target envelope] \<rparr>)"

definition delivery_still_current ::
  "peer_id set \<Rightarrow> byte list option \<Rightarrow> peer_id \<Rightarrow> byte list \<Rightarrow> bool" where
  "delivery_still_current members current_envelope target delivering \<longleftrightarrow>
    target \<in> members \<and> current_envelope = Some delivering"

datatype delivery_end = Delivered | Superseded | GaveUp

text \<open>\<open>run_delivery_with_retry\<close>: per attempt, the answer of \<open>still_current\<close> and of \<open>deliver\<close>.  The
  result is how the loop ended and how many times \<open>deliver\<close> ran.\<close>

fun run_delivery_with_retry :: "nat \<Rightarrow> (bool \<times> (string + unit)) list \<Rightarrow> delivery_end \<times> nat" where
  "run_delivery_with_retry 0 attempts = (GaveUp, 0)"
| "run_delivery_with_retry (Suc n) [] = (GaveUp, 0)"
| "run_delivery_with_retry (Suc n) ((current, answer) # rest) =
    (if \<not> current then (Superseded, 0)
     else case answer of
       Inr _ \<Rightarrow> (Delivered, 1)
     | Inl _ \<Rightarrow> apsnd Suc (run_delivery_with_retry n rest))"

text \<open>The members are visited in the order of their ids; the code's hash order is unspecified.\<close>

definition publish_workspace_ticket ::
  "'s store_ops \<Rightarrow> session_id \<Rightarrow> byte list \<Rightarrow> ('s, 'k) registry
    \<Rightarrow> (session_error + unit) \<times> ('s, 'k) registry" where
  "publish_workspace_ticket ops sid envelope r =
    (case lock_local_session r sid of
      Inl e \<Rightarrow> (Inl e, r)
    | Inr s \<Rightarrow>
        store_try (so_put_workspace_ticket ops sid envelope) r
          (\<lambda>_ r1.
            let r2 = put_session sid (s\<lparr> s_workspace_ticket := Some envelope \<rparr>) r1;
                members = sorted_list_of_set (s_members s)
            in (Inr (), fold (\<lambda>m. deliver_workspace_ticket_to sid m envelope) members r2)))"

subsection \<open>Admission by the host\<close>

definition host_author :: "('s, 'k) registry \<Rightarrow> peer_info" where
  "host_author r = \<lparr> pi_id = r_daemon_peer_id r, pi_display_name = ''host'' \<rparr>"

definition auto_grant_on_join ::
  "'k env \<Rightarrow> 's store_ops \<Rightarrow> u64 \<Rightarrow> session_id \<Rightarrow> peer_id \<Rightarrow> capability \<Rightarrow> ('s, 'k) registry \<Rightarrow> ('s, 'k) registry" where
  "auto_grant_on_join ev ops now sid peer cap r =
    snd (send ev ops now sid (host_author r) CapabilityKind (action_str (Grant peer cap))
      (encode_cap_action (e_cap_action ev) (Grant peer cap)) ALocal (Inl BSendTimeout) r)"

text \<open>The claim checks that precede every lookup: expiry, then the ticket signature.\<close>

definition check_claim ::
  "'k env \<Rightarrow> ('s, 'k) registry \<Rightarrow> u64 \<Rightarrow> session_id \<Rightarrow> cap_claim \<Rightarrow> session_error + unit" where
  "check_claim ev r now sid claim =
    (if cc_expiry_ms claim \<noteq> 0 \<and> cc_expiry_ms claim \<le> now then Inl TicketExpired
     else if r_signing_key r = None then Inr ()
     else case verify_ticket_cap (e_ed ev) (r_daemon_peer_id r) (cc_ticket_id claim) sid
         (cc_granted_cap claim) (cc_expiry_ms claim) (cc_host_epoch claim) (cc_cap_sig claim) of
       Inl VerifyPanic \<Rightarrow> Inl Panicked
     | Inl err \<Rightarrow> Inl (InvalidCapClaim (verify_reason err))
     | Inr _ \<Rightarrow> Inr ())"

text \<open>The \<open>used_by\<close> update: the first entry with the claim's id, unless it names the peer already.\<close>

fun record_use :: "ticket_id \<Rightarrow> peer_id \<Rightarrow> ticket_entry list \<Rightarrow> ticket_entry list option" where
  "record_use tid p [] = None"
| "record_use tid p (t # ts) =
    (if te_ticket_id t = tid
     then (if p \<in> set (te_used_by t) then None else Some (t\<lparr> te_used_by := te_used_by t @ [p] \<rparr> # ts))
     else map_option (Cons t) (record_use tid p ts))"

text \<open>A fresh admission: membership store-before-memory, then the advisory ledger mark, whose
  persistence may fail without failing the admission.\<close>

definition admit_peer ::
  "'s store_ops \<Rightarrow> session_id \<Rightarrow> session \<Rightarrow> peer_info \<Rightarrow> cap_claim option \<Rightarrow> ('s, 'k) registry
    \<Rightarrow> (session_error + unit) \<times> ('s, 'k) registry" where
  "admit_peer ops sid s peer claim r =
    store_try (so_add_member ops sid peer) r
      (\<lambda>_ r1.
        let s1 = s\<lparr> s_members := insert (pi_id peer) (s_members s) \<rparr>;
            used = (case claim of
                None \<Rightarrow> None
              | Some c \<Rightarrow> if s_kind s = Local then record_use (cc_ticket_id c) (pi_id peer) (s_tickets s) else None);
            r2 = (case used of
                None \<Rightarrow> put_session sid s1 r1
              | Some tickets \<Rightarrow>
                  let (_, st) = so_put_tickets ops sid tickets (r_store r1)
                  in put_session sid (s1\<lparr> s_tickets := tickets \<rparr>) (r1\<lparr> r_store := st \<rparr>))
        in (Inr (), emit (EvPeerJoined sid peer) r2))"

definition ensure_member ::
  "'k env \<Rightarrow> 's store_ops \<Rightarrow> u64 \<Rightarrow> session_id \<Rightarrow> peer_info \<Rightarrow> cap_claim option \<Rightarrow> ('s, 'k) registry
    \<Rightarrow> (session_error + unit) \<times> ('s, 'k) registry" where
  "ensure_member ev ops now sid peer claim r =
    (case (case claim of None \<Rightarrow> Inr () | Some c \<Rightarrow> check_claim ev r now sid c) of
      Inl e \<Rightarrow> (Inl e, r)
    | Inr _ \<Rightarrow>
      (case get_session r sid of
        None \<Rightarrow> (Inl (UnknownSession sid), r)
      | Some s \<Rightarrow>
          if (case claim of None \<Rightarrow> False | Some c \<Rightarrow> \<not> ticket_admissible s c)
          then (Inl TicketNotAdmissible, r)
          else
            let newly_admitted = (pi_id peer \<notin> s_members s);
                (res, r1) = (if newly_admitted then admit_peer ops sid s peer claim r else (Inr (), r))
            in case res of
              Inl e \<Rightarrow> (Inl e, r1)
            | Inr _ \<Rightarrow>
                let granted = (case claim of None \<Rightarrow> ReadWrite | Some c \<Rightarrow> cc_granted_cap c);
                    r2 = (if s_kind s = Local \<and> newly_admitted
                          then auto_grant_on_join ev ops now sid (pi_id peer) granted r1 else r1);
                    r3 = (case s_workspace_ticket s of
                        Some envelope \<Rightarrow> if s_kind s = Local
                          then deliver_workspace_ticket_to sid (pi_id peer) envelope r2 else r2
                      | None \<Rightarrow> r2)
                in (Inr (), r3)))"

subsection \<open>Joining with a ticket\<close>

definition parse_ticket :: "'k env \<Rightarrow> ustring \<Rightarrow> session_error + session_ticket" where
  "parse_ticket ev raw =
    (case decode_ticket (e_b32 ev) (e_ticket_body ev) raw of
      Inl _ \<Rightarrow> Inl InvalidTicket
    | Inr t \<Rightarrow> Inr t)"

text \<open>The mirror object \<open>claim_remote_mirror\<close> builds, and the rollback of a failed subscribe.\<close>

definition remote_mirror :: "session_id \<Rightarrow> peer_id \<Rightarrow> u64 \<Rightarrow> session" where
  "remote_mirror sid host epoch =
    (session_new sid \<lparr> pi_id = host, pi_display_name = ''remote-host'' \<rparr> Remote)
      \<lparr> s_host := host, s_host_epoch := epoch \<rparr>"

definition rollback_remote_mirror :: "'s store_ops \<Rightarrow> session_id \<Rightarrow> ('s, 'k) registry \<Rightarrow> ('s, 'k) registry" where
  "rollback_remote_mirror ops sid r =
    (let r1 = remove_session sid r; (_, st) = so_delete ops sid (r_store r1) in r1\<lparr> r_store := st \<rparr>)"

text \<open>\<open>materialise_remote_session\<close> for a session that is not in the map, with no concurrent join.\<close>

definition materialise_remote_session ::
  "'k env \<Rightarrow> 's store_ops \<Rightarrow> bridge_error + unit \<Rightarrow> session_ticket \<Rightarrow> peer_info \<Rightarrow> ('s, 'k) registry
    \<Rightarrow> (session_error + session) \<times> ('s, 'k) registry" where
  "materialise_remote_session ev ops subscribed t joiner r =
    (let sid = st_session_id t; host = host_peer_id t in
     if r_signing_key r \<noteq> None \<and>
        verify_ticket_cap (e_ed ev) host (st_ticket_id t) sid (st_granted_cap t) (st_expiry_ms t)
          (st_host_epoch t) (st_cap_sig t) \<noteq> Inr ()
     then (Inl InvalidTicket, r)
     else if \<not> r_bridge r then (Inl InvalidTicket, r)
     else
       let s = remote_mirror sid host (st_host_epoch t) in
       store_try (so_create ops (record_of s)) r
         (\<lambda>_ r1.
           let r2 = bridge_do (CallJoinSession sid joiner host (st_host_addr t) (st_ticket_id t)
                 (st_granted_cap t) (st_expiry_ms t) (st_host_epoch t) (st_cap_sig t)) (put_session sid s r1)
           in case subscribed of
             Inl err \<Rightarrow> (Inl (case err of BInvalidAddr msg \<Rightarrow> InvalidAddr msg
                              | _ \<Rightarrow> Internal (e_bridge_text ev err)),
                         rollback_remote_mirror ops sid r2)
           | Inr _ \<Rightarrow> (Inr s, r2)))"

definition join_member ::
  "'s store_ops \<Rightarrow> session_id \<Rightarrow> session \<Rightarrow> peer_info \<Rightarrow> ('s, 'k) registry
    \<Rightarrow> (session_error + session_id \<times> seq option) \<times> ('s, 'k) registry" where
  "join_member ops sid s peer r =
    (let head = (if s_head s = Seq_ZERO then None else Some (s_head s)) in
     if pi_id peer \<in> s_members s then (Inr (sid, head), r)
     else store_try (so_add_member ops sid peer) r
       (\<lambda>_ r1. (Inr (sid, head), emit (EvPeerJoined sid peer)
         (put_session sid (s\<lparr> s_members := insert (pi_id peer) (s_members s) \<rparr>) r1))))"

definition join ::
  "'k env \<Rightarrow> 's store_ops \<Rightarrow> bridge_error + unit \<Rightarrow> ustring \<Rightarrow> peer_info \<Rightarrow> ('s, 'k) registry
    \<Rightarrow> (session_error + session_id \<times> seq option) \<times> ('s, 'k) registry" where
  "join ev ops subscribed raw peer r =
    (case parse_ticket ev raw of
      Inl e \<Rightarrow> (Inl e, r)
    | Inr t \<Rightarrow>
        let sid = st_session_id t in
        (case get_session r sid of
          Some s \<Rightarrow> join_member ops sid s peer r
        | None \<Rightarrow>
            if host_peer_id t = r_daemon_peer_id r then (Inl (UnknownSession sid), r)
            else (case materialise_remote_session ev ops subscribed t peer r of
                (Inl e, r1) \<Rightarrow> (Inl e, r1)
              | (Inr s, r1) \<Rightarrow> join_member ops sid s peer r1)))"

end
