(* ===== verification/Mirror.thy ===== *)
theory Mirror
  imports Admission
begin

text \<open>
  The log surfaces and the joiner side of \<open>artel-daemon/src/session.rs\<close>: the acceptance
  pipeline of a remote mirror, the inflight budget in front of it, subscribe and gossip
  replay, the close and the epoch watermark of a mirror, the host-to-peer deliveries and
  the attachment calls.
\<close>

subsection \<open>The acceptance pipeline\<close>

definition apply_inbound_mirror_message ::
  "'k env \<Rightarrow> 's store_ops \<Rightarrow> session_id \<Rightarrow> session_message \<Rightarrow> ('s, 'k) registry \<Rightarrow> ('s, 'k) registry" where
  "apply_inbound_mirror_message ev ops sid m r =
    (case get_session r sid of
      None \<Rightarrow> r
    | Some s \<Rightarrow>
        let pos = partition_point (\<lambda>x. m_seq x < m_seq m) (s_log s) in
        if pos < length (s_log s) \<and> m_seq (s_log s ! pos) = m_seq m then r
        else if verify_message (e_ed ev) sid m (m_signature m) \<noteq> Inr () then r
        else if verify_seq (e_ed ev) (s_host s) sid (m_seq m) (m_signature m) (m_host_sig m) \<noteq> Inr () then r
        else
          let (res, st) = so_append ops sid m (r_store r); r1 = r\<lparr> r_store := st \<rparr> in
          case res of
            Inl _ \<Rightarrow> r1
          | Inr _ \<Rightarrow>
              let s' = s\<lparr> s_log := insert_at pos m (s_log s),
                          s_head := (if m_seq m > s_head s then m_seq m else s_head s) \<rparr>;
                  r2 = put_session sid s' r1
              in if m_kind m = System \<and> reserved_system_action (m_action m) \<noteq> None then r2
                 else emit (EvMessage sid m) r2)"

definition MIRROR_APPLY_BUDGET_BYTES :: nat where
  "MIRROR_APPLY_BUDGET_BYTES = 4 * MAX_GOSSIP_MESSAGE_SIZE"

definition MIRROR_APPLY_FRAME_COST :: nat where
  "MIRROR_APPLY_FRAME_COST = 1024"

text \<open>
  The callback in front of the pipeline.  \<open>log\<close> is the mirror's log when \<open>try_lock\<close> got the
  lock; \<open>free\<close> the free permits of the semaphore.  The result is the permits the spawned
  task holds, or \<^const>\<open>None\<close> when nothing is spawned.
\<close>

definition mirror_frame_cost :: "nat \<Rightarrow> session_message \<Rightarrow> nat" where
  "mirror_frame_cost budget m =
    min (min (MIRROR_APPLY_FRAME_COST + length (m_payload m)) budget) (2 ^ 32 - 1)"

definition mirror_on_message_with_budget ::
  "nat \<Rightarrow> session_message list option \<Rightarrow> nat \<Rightarrow> session_message \<Rightarrow> nat option" where
  "mirror_on_message_with_budget budget locked free m =
    (let dup = (case locked of
         None \<Rightarrow> False
       | Some log \<Rightarrow>
           let pos = partition_point (\<lambda>x. m_seq x < m_seq m) log
           in pos < length log \<and> m_seq (log ! pos) = m_seq m)
     in if dup then None
        else if mirror_frame_cost budget m \<le> free then Some (mirror_frame_cost budget m)
        else None)"

subsection \<open>Replay surfaces\<close>

definition log_since ::
  "('s, 'k) registry \<Rightarrow> session_id \<Rightarrow> seq \<Rightarrow> session_error + session_message list" where
  "log_since r sid since =
    (case get_session r sid of
      None \<Rightarrow> Inl (UnknownSession sid)
    | Some s \<Rightarrow> Inr (filter (\<lambda>m. m_seq m > since \<and> m_kind m \<noteq> CapabilityKind
        \<and> \<not> (m_kind m = System \<and> (m_action m = UPGRADE_ACTION \<or> m_action m = TICKET_ACTION
              \<or> m_action m = DOWNGRADE_ACTION \<or> m_action m = ROTATE_ACTION))) (s_log s)))"

definition synthetic_system_message :: "peer_id \<Rightarrow> string \<Rightarrow> byte list \<Rightarrow> session_message" where
  "synthetic_system_message hst action payload =
    session_message_new Seq_ZERO 0 \<lparr> pi_id = hst, pi_display_name = ''host'' \<rparr> System action payload
      SIGNATURE_UNSIGNED SIGNATURE_UNSIGNED"

definition synthetic_ticket_message :: "peer_id \<Rightarrow> byte list \<Rightarrow> session_message" where
  "synthetic_ticket_message hst envelope = synthetic_system_message hst TICKET_ACTION envelope"

text \<open>The replay part of a \<open>Subscription\<close>; the live part is every later event of the session.\<close>

definition subscribe ::
  "('s, 'k) registry \<Rightarrow> session_id \<Rightarrow> seq option \<Rightarrow> session_error + session_message list" where
  "subscribe r sid since =
    (case get_session r sid of
      None \<Rightarrow> Inl (UnknownSession sid)
    | Some s \<Rightarrow>
        let cutoff = (case since of None \<Rightarrow> Seq_ZERO | Some q \<Rightarrow> q);
            ticket = (case s_workspace_ticket s of
                None \<Rightarrow> [] | Some envelope \<Rightarrow> [synthetic_ticket_message (s_host s) envelope])
        in Inr (ticket @ filter (\<lambda>m. m_seq m > cutoff
             \<and> \<not> (m_kind m = System \<and> reserved_system_action (m_action m) \<noteq> None)) (s_log s)))"

subsection \<open>Close and watermark of a mirror\<close>

definition host_closed_session ::
  "'s store_ops \<Rightarrow> session_id \<Rightarrow> ('s, 'k) registry \<Rightarrow> (session_error + unit) \<times> ('s, 'k) registry" where
  "host_closed_session ops sid r =
    (case get_session r sid of
      None \<Rightarrow> (Inr (), r)
    | Some s \<Rightarrow>
        if s_kind s \<noteq> Remote then (Inr (), r)
        else store_try (so_delete ops sid) r
          (\<lambda>_ r1. (Inr (), bridge_do (CallForgetSession sid)
            (emit (EvSessionClosed sid) (remove_session sid r1)))))"

definition advance_host_epoch_watermark ::
  "'s store_ops \<Rightarrow> session_id \<Rightarrow> u64 \<Rightarrow> ('s, 'k) registry \<Rightarrow> (session_error + unit) \<times> ('s, 'k) registry" where
  "advance_host_epoch_watermark ops sid host_epoch r =
    (case get_session r sid of
      None \<Rightarrow> (Inr (), r)
    | Some s \<Rightarrow>
        if s_kind s \<noteq> Remote \<or> host_epoch \<le> s_host_epoch s then (Inr (), r)
        else store_try (so_bump_host_epoch ops sid host_epoch) r
          (\<lambda>_ r1. (Inr (), put_session sid (s\<lparr> s_host_epoch := host_epoch \<rparr>) r1)))"

subsection \<open>Deliveries from the host\<close>

record upgrade_payload =
  up_target_peer :: peer_id
  up_namespace_secret :: "256 word"

record downgrade_payload =
  dp_target_peer :: peer_id

record rotate_payload =
  rp_target_peer :: peer_id
  rp_namespace_epoch :: u64
  rp_doc_ticket :: string

definition lock_remote_session_from_host ::
  "('s, 'k) registry \<Rightarrow> session_id \<Rightarrow> peer_id \<Rightarrow> string \<Rightarrow> session_error + session" where
  "lock_remote_session_from_host r sid sender what =
    (case get_session r sid of
      None \<Rightarrow> Inl (UnknownSession sid)
    | Some s \<Rightarrow>
        if s_kind s \<noteq> Remote then Inl (Internal (''host sessions cannot receive '' @ what))
        else if sender \<noteq> s_host s
        then Inl (Internal (what @ '' sender '' @ to_hex sender @ '' is not the session host '' @ to_hex (s_host s)))
        else Inr s)"

definition emit_upgrade ::
  "(upgrade_payload \<Rightarrow> byte list) \<Rightarrow> session_id \<Rightarrow> peer_id \<Rightarrow> 256 word \<Rightarrow> ('s, 'k) registry
    \<Rightarrow> (session_error + unit) \<times> ('s, 'k) registry" where
  "emit_upgrade to_vec sid sender secret r =
    (case lock_remote_session_from_host r sid sender ''upgrades'' of
      Inl e \<Rightarrow> (Inl e, r)
    | Inr s \<Rightarrow>
        let payload = to_vec \<lparr> up_target_peer = r_daemon_peer_id r, up_namespace_secret = secret \<rparr>
        in (Inr (), emit (EvMessage sid (synthetic_system_message (s_host s) UPGRADE_ACTION payload)) r))"

definition emit_downgrade ::
  "(downgrade_payload \<Rightarrow> byte list) \<Rightarrow> session_id \<Rightarrow> peer_id \<Rightarrow> ('s, 'k) registry
    \<Rightarrow> (session_error + unit) \<times> ('s, 'k) registry" where
  "emit_downgrade to_vec sid sender r =
    (case lock_remote_session_from_host r sid sender ''downgrades'' of
      Inl e \<Rightarrow> (Inl e, r)
    | Inr s \<Rightarrow>
        let payload = to_vec \<lparr> dp_target_peer = r_daemon_peer_id r \<rparr>
        in (Inr (), emit (EvMessage sid (synthetic_system_message (s_host s) DOWNGRADE_ACTION payload)) r))"

definition emit_rotate ::
  "(rotate_payload \<Rightarrow> byte list) \<Rightarrow> session_id \<Rightarrow> peer_id \<Rightarrow> u64 \<Rightarrow> string \<Rightarrow> ('s, 'k) registry
    \<Rightarrow> (session_error + unit) \<times> ('s, 'k) registry" where
  "emit_rotate to_vec sid sender epoch doc_ticket r =
    (case lock_remote_session_from_host r sid sender ''rotations'' of
      Inl e \<Rightarrow> (Inl e, r)
    | Inr s \<Rightarrow>
        let payload = to_vec \<lparr> rp_target_peer = r_daemon_peer_id r, rp_namespace_epoch = epoch,
              rp_doc_ticket = doc_ticket \<rparr>
        in (Inr (), emit (EvMessage sid (synthetic_system_message (s_host s) ROTATE_ACTION payload)) r))"

definition emit_workspace_ticket ::
  "'s store_ops \<Rightarrow> session_id \<Rightarrow> peer_id \<Rightarrow> byte list \<Rightarrow> ('s, 'k) registry
    \<Rightarrow> (session_error + unit) \<times> ('s, 'k) registry" where
  "emit_workspace_ticket ops sid sender envelope r =
    (case lock_remote_session_from_host r sid sender ''workspace tickets'' of
      Inl e \<Rightarrow> (Inl e, r)
    | Inr s \<Rightarrow>
        if s_workspace_ticket s = Some envelope then (Inr (), r)
        else store_try (so_put_workspace_ticket ops sid envelope) r
          (\<lambda>_ r1. (Inr (), emit (EvMessage sid (synthetic_ticket_message (s_host s) envelope))
            (put_session sid (s\<lparr> s_workspace_ticket := Some envelope \<rparr>) r1))))"

subsection \<open>Attachments\<close>

definition register_attachment ::
  "'s store_ops \<Rightarrow> session_id \<Rightarrow> string \<Rightarrow> byte list \<Rightarrow> ('s, 'k) registry
    \<Rightarrow> (session_error + unit) \<times> ('s, 'k) registry" where
  "register_attachment ops sid kind payload r =
    (case get_session r sid of
      None \<Rightarrow> (Inl (UnknownSession sid), r)
    | Some _ \<Rightarrow> store_try (so_put_attachment ops sid kind payload) r
        (\<lambda>ok r1. (if ok then Inr () else Inl (UnknownSession sid), r1)))"

definition list_attachments ::
  "'s store_ops \<Rightarrow> string option \<Rightarrow> ('s, 'k) registry
    \<Rightarrow> (session_error + stored_attachment list) \<times> ('s, 'k) registry" where
  "list_attachments ops kind_filter r = store_try (so_list_attachments ops kind_filter) r (\<lambda>xs r1. (Inr xs, r1))"

definition forget_attachment ::
  "'s store_ops \<Rightarrow> session_id \<Rightarrow> string \<Rightarrow> ('s, 'k) registry \<Rightarrow> (session_error + unit) \<times> ('s, 'k) registry" where
  "forget_attachment ops sid kind r = store_try (so_delete_attachment ops sid kind) r (\<lambda>_ r1. (Inr (), r1))"

end
