(* ===== verification/Invariants.thy ===== *)
theory Invariants
  imports Mirror
begin

text \<open>
  Well-formedness of the registry: every live session has its host among its members, a log
  that is strictly sorted by sequence number and bounded by its head, the host with
  read-write, and, on the host, the capability set that is the projection of the log.  Every
  operation preserves it in every outcome, storage failures included.
\<close>

subsection \<open>Invariants\<close>

definition log_ok :: "session_message list \<Rightarrow> seq \<Rightarrow> bool" where
  "log_ok log head \<longleftrightarrow> sorted_wrt (<) (map m_seq log) \<and> (\<forall>m\<in>set log. m_seq m \<le> head)"

definition session_ok :: "capability_action codec \<Rightarrow> session_id \<Rightarrow> session \<Rightarrow> bool" where
  "session_ok pc sid s \<longleftrightarrow> s_id s = sid \<and> s_host s \<in> s_members s \<and> log_ok (s_log s) (s_head s)
    \<and> s_caps s (s_host s) = Some ReadWrite
    \<and> (s_kind s = Local \<longrightarrow> s_caps s = project_caps pc (s_host s) (s_log s))"

definition registry_ok :: "'k env \<Rightarrow> ('s, 'k) registry \<Rightarrow> bool" where
  "registry_ok ev r \<longleftrightarrow> (\<forall>sid s. get_session r sid = Some s \<longrightarrow> session_ok (e_cap_action ev) sid s)"

subsection \<open>Log lemmas\<close>

lemma log_ok_Nil [simp]: "log_ok [] h"
  by (simp add: log_ok_def)

lemma log_ok_snoc:
  "\<lbrakk>log_ok log h; seq_next h = Some q; m_seq m = q\<rbrakk> \<Longrightarrow> log_ok (log @ [m]) q"
  using seq_next_less [of h q]
  by (auto simp: log_ok_def sorted_wrt_append order.strict_trans1 intro: order.strict_implies_order)

lemma log_ok_partitioned: "log_ok log h \<Longrightarrow> partitioned (\<lambda>x. m_seq x < q) log"
  unfolding log_ok_def partitioned_def sorted_wrt_iff_nth_less by (auto intro: less_trans)

lemma log_ok_insert_at:
  assumes "log_ok log h" and p: "p = partition_point (\<lambda>x. m_seq x < m_seq m) log"
    and new: "\<not> (p < length log \<and> m_seq (log ! p) = m_seq m)"
  shows "log_ok (insert_at p m log) (if m_seq m > h then m_seq m else h)"
proof -
  note part = partition_point_spec [OF log_ok_partitioned [OF assms(1), of "m_seq m"], folded p]
  have sorted: "sorted_wrt (<) (map m_seq log)" using assms(1) by (simp add: log_ok_def)
  have low: "\<forall>x\<in>set (take p log). m_seq x < m_seq m"
    using part(1,2) by (auto simp: in_set_conv_nth)
  have high: "\<forall>x\<in>set (drop p log). m_seq m < m_seq x"
  proof
    fix x assume "x \<in> set (drop p log)"
    then obtain i where i: "p \<le> i" "i < length log" "x = log ! i"
      by (metis add.commute in_set_conv_nth le_add2 length_drop less_diff_conv nth_drop part(1))
    have "m_seq m \<le> m_seq x" using part(3) i by (simp add: not_less)
    moreover have "m_seq m \<noteq> m_seq x"
    proof
      assume eq: "m_seq m = m_seq x"
      have "p < length log" using i by simp
      moreover have "m_seq (log ! p) = m_seq m"
      proof (cases "p = i")
        case False
        then have "m_seq (log ! p) < m_seq (log ! i)"
          using sorted i by (auto simp: sorted_wrt_iff_nth_less)
        moreover have "\<not> m_seq (log ! p) < m_seq m" using part(3) [of p] i by simp
        ultimately show ?thesis using eq i by simp
      qed (use eq i in simp)
      ultimately show False using new by simp
    qed
    ultimately show "m_seq m < m_seq x" by simp
  qed
  have "sorted_wrt (<) (map m_seq (take p log @ drop p log))" using sorted by simp
  then have "sorted_wrt (<) (map m_seq (insert_at p m log))"
    using low high by (auto simp: insert_at_def sorted_wrt_append simp del: append_take_drop_id)
  moreover have "\<forall>x\<in>set (insert_at p m log). m_seq x \<le> (if m_seq m > h then m_seq m else h)"
    using assms(1) by (auto simp: log_ok_def)
  ultimately show ?thesis by (simp add: log_ok_def)
qed

subsection \<open>Rewriting through the registry combinators\<close>

lemma get_put [simp]: "map_of (r_sessions (put_session sid s r)) = (map_of (r_sessions r))(sid \<mapsto> s)"
  by (simp add: put_session_def update_conv')

lemma get_remove [simp]: "map_of (r_sessions (remove_session sid r)) = (map_of (r_sessions r))(sid := None)"
  by (simp add: remove_session_def delete_conv')

lemma sessions_frame [simp]:
  "r_sessions (emit ev r) = r_sessions r" "r_sessions (bridge_do c r) = r_sessions r"
  "r_sessions (deliver_workspace_ticket_to sid t e r) = r_sessions r"
  by (simp_all add: emit_def bridge_do_def deliver_workspace_ticket_to_def split: option.splits)

lemma store_frame [simp]:
  "r_store (emit ev r) = r_store r" "r_store (bridge_do c r) = r_store r"
  "r_store (put_session sid s r) = r_store r" "r_store (remove_session sid r) = r_store r"
  "r_store (deliver_workspace_ticket_to sid t e r) = r_store r"
  by (simp_all add: emit_def bridge_do_def put_session_def remove_session_def
      deliver_workspace_ticket_to_def split: option.splits)

lemma static_frame [simp]:
  "r_daemon_peer_id (emit ev r) = r_daemon_peer_id r" "r_signing_key (emit ev r) = r_signing_key r"
  "r_daemon_peer_id (put_session sid s r) = r_daemon_peer_id r"
  "r_signing_key (put_session sid s r) = r_signing_key r"
  by (simp_all add: emit_def put_session_def)

lemma fold_deliver_frame [simp]:
  "r_sessions (fold (\<lambda>m. deliver_workspace_ticket_to sid m e) ms r) = r_sessions r"
  "r_store (fold (\<lambda>m. deliver_workspace_ticket_to sid m e) ms r) = r_store r"
  by (induction ms arbitrary: r) simp_all

lemma store_try_cases:
  assumes "store_try io r k = (res, r')"
  obtains (failed) e st where "io (r_store r) = (Inl e, st)" "res = Inl (Storage e)" "r' = r\<lparr> r_store := st \<rparr>"
    | (okay) v st where "io (r_store r) = (Inr v, st)" "k v (r\<lparr> r_store := st \<rparr>) = (res, r')"
  using assms by (auto simp: store_try_def Let_def split: prod.splits sum.splits)

lemma materialise_Inr:
  "fst (materialise_remote_session ev ops sub t peer r) = Inr s \<Longrightarrow>
    s = remote_mirror (st_session_id t) (host_peer_id t) (st_host_epoch t)"
  unfolding materialise_remote_session_def
  by (auto simp: Let_def store_try_def split: sum.splits if_splits prod.splits)

subsection \<open>Predicates on every session\<close>

definition all_sessions :: "(session_id \<Rightarrow> session \<Rightarrow> bool) \<Rightarrow> ('s, 'k) registry \<Rightarrow> bool" where
  "all_sessions P r \<longleftrightarrow> (\<forall>sid s. get_session r sid = Some s \<longrightarrow> P sid s)"

text \<open>What \<open>send\<close> does to the session when it appends \<open>m\<close>, and what its gates say of the message.\<close>

definition commit :: "capability_action codec \<Rightarrow> session \<Rightarrow> session_message \<Rightarrow> session" where
  "commit pc s m =
    (let s1 = s\<lparr> s_head := m_seq m, s_log := s_log s @ [m] \<rparr>
     in if m_kind m = CapabilityKind then apply_capability pc s1 m else s1)"

definition entry_ok :: "'k env \<Rightarrow> session_message \<Rightarrow> bool" where
  "entry_ok ev m \<longleftrightarrow> \<not> (m_kind m = System \<and> reserved_system_action (m_action m) \<noteq> None)
    \<and> message_frame_len (e_serialized_size ev) m \<le> MAX_SESSION_MESSAGE_FRAME"

lemma all_sessions_store [simp]: "all_sessions P (r\<lparr> r_store := st \<rparr>) = all_sessions P r"
  by (simp add: all_sessions_def)

lemma all_sessions_store_try [intro]:
  assumes "all_sessions P r"
    and "\<And>v st. all_sessions P (r\<lparr> r_store := st \<rparr>) \<Longrightarrow> all_sessions P (snd (k v (r\<lparr> r_store := st \<rparr>)))"
  shows "all_sessions P (snd (store_try io r k))"
  using assms by (simp add: store_try_def Let_def split: prod.splits sum.splits)

lemma all_sessions_frame [simp]:
  "all_sessions P (emit e r) = all_sessions P r" "all_sessions P (bridge_do c r) = all_sessions P r"
  "all_sessions P (deliver_workspace_ticket_to sid t en r) = all_sessions P r"
  "all_sessions P (fold (\<lambda>m. deliver_workspace_ticket_to sid m e1) ms r) = all_sessions P r"
  by (simp_all add: all_sessions_def)

lemma all_sessions_put [intro]: "\<lbrakk>all_sessions P r; P sid s\<rbrakk> \<Longrightarrow> all_sessions P (put_session sid s r)"
  by (simp add: all_sessions_def)

lemma all_sessions_remove [intro]: "all_sessions P r \<Longrightarrow> all_sessions P (remove_session sid r)"
  by (simp add: all_sessions_def)

lemma all_sessionsD: "\<lbrakk>all_sessions P r; get_session r sid = Some s\<rbrakk> \<Longrightarrow> P sid s"
  by (simp add: all_sessions_def)

subsection \<open>Session invariants\<close>

text \<open>
  The ways in which the operations change a session.  A predicate that is closed under them
  holds of every session after every operation.  The laws carry what the gates of the code
  establish: a sequenced message comes from a member with write access, is not reserved and
  fits every carrier; a mirrored one has passed both signature checks and is not a duplicate.
\<close>

locale session_invariant =
  fixes ev :: "'k env" and P :: "session_id \<Rightarrow> session \<Rightarrow> bool"
  assumes inv_tickets: "P sid s \<Longrightarrow> P sid (s\<lparr> s_tickets := ts \<rparr>)"
    and inv_epoch: "P sid s \<Longrightarrow> P sid (s\<lparr> s_host_epoch := e \<rparr>)"
    and inv_envelope: "P sid s \<Longrightarrow> P sid (s\<lparr> s_workspace_ticket := w \<rparr>)"
    and inv_member_in: "P sid s \<Longrightarrow> P sid (s\<lparr> s_members := insert p (s_members s) \<rparr>)"
    and inv_member_out: "\<lbrakk>P sid s; p \<noteq> s_host s\<rbrakk> \<Longrightarrow> P sid (s\<lparr> s_members := s_members s - {p} \<rparr>)"
    and inv_new: "P sid (session_new sid hp Local)"
    and inv_mirror: "P sid (remote_mirror sid hst e)"
    and inv_append: "\<lbrakk>P sid s; s_kind s = Local; seq_next (s_head s) = Some (m_seq m);
        pi_id (m_peer m) \<in> s_members s; can_write s (pi_id (m_peer m)); entry_ok ev m\<rbrakk>
      \<Longrightarrow> P sid (commit (e_cap_action ev) s m)"
    and inv_inbound: "\<lbrakk>P sid s; s_kind s = Remote; verify_message (e_ed ev) sid m (m_signature m) = Inr ();
        verify_seq (e_ed ev) (s_host s) sid (m_seq m) (m_signature m) (m_host_sig m) = Inr ();
        pos = partition_point (\<lambda>x. m_seq x < m_seq m) (s_log s);
        \<not> (pos < length (s_log s) \<and> m_seq (s_log s ! pos) = m_seq m)\<rbrakk>
      \<Longrightarrow> P sid (s\<lparr> s_log := insert_at pos m (s_log s), s_head := (if m_seq m > s_head s then m_seq m else s_head s) \<rparr>)"
begin

lemmas all_sessions_intros = all_sessions_store_try all_sessions_put all_sessions_remove
  inv_tickets inv_epoch inv_envelope

lemmas invD = all_sessionsD [of P]

lemma issue_ticket_inv: "all_sessions P r \<Longrightarrow> all_sessions P (snd (issue_ticket ev' ops now tid sid cap ex r))"
  unfolding issue_ticket_def lock_local_session_def
  by (auto split: option.splits intro!: all_sessions_intros simp: Let_def)
    (erule (1) invD)+

lemma revoke_ticket_inv: "all_sessions P r \<Longrightarrow> all_sessions P (snd (revoke_ticket ops sid tid r))"
  unfolding revoke_ticket_def lock_local_session_def
  by (auto split: option.splits intro!: all_sessions_intros simp: Let_def)
    (erule (1) invD)+

lemma host_create_inv: "all_sessions P r \<Longrightarrow> all_sessions P (snd (host_create ev' ops now tid p sid cap ex r))"
  unfolding host_create_def
  by (auto intro!: all_sessions_intros inv_new simp: Let_def split: prod.splits)

lemma registry_host_inv: "all_sessions P r \<Longrightarrow> all_sessions P (snd (registry_host ev' ops now dr tid p rq cap ex r))"
  unfolding registry_host_def host_resume_def
  by (auto split: option.splits prod.splits intro!: all_sessions_intros host_create_inv simp: Let_def)
    (erule (1) invD)+

lemma leave_inv: "all_sessions P r \<Longrightarrow> all_sessions P (snd (leave ops sid p r))"
  unfolding leave_def
  by (auto split: option.splits intro!: all_sessions_intros inv_member_out simp: Let_def)
    (erule (1) invD)+

lemma remove_member_inv: "all_sessions P r \<Longrightarrow> all_sessions P (snd (remove_member ops sid p r))"
  unfolding remove_member_def lock_local_session_def
  by (auto split: option.splits intro!: all_sessions_intros inv_member_out simp: Let_def)
    (erule (1) invD)+

lemma sequence_message_inv:
  assumes "all_sessions P r" "get_session r sid = Some s" "s_kind s = Local"
    and "\<not> (kind = System \<and> reserved_system_action action \<noteq> None)"
  shows "all_sessions P (snd (sequence_message ev ops now sid s peer kind action payload au r))"
proof -
  let ?m = "\<lambda>q ts a h. session_message_new q ts peer kind action payload a h"
  have "P sid (commit (e_cap_action ev) s (?m q ts a h))"
    if "seq_next (s_head s) = Some q" "pi_id peer \<in> s_members s" "can_write s (pi_id peer)"
      "\<not> MAX_SESSION_MESSAGE_FRAME < message_frame_len (e_serialized_size ev) (?m q ts a h)" for q ts a h
    using inv_append [OF invD [OF assms(1,2)] assms(3), of "?m q ts a h"] that assms(4)
    by (simp add: session_message_new_def entry_ok_def)
  then show ?thesis
    using assms(1) unfolding sequence_message_def
    by (auto simp: Let_def commit_def session_message_new_def split: sum.splits prod.splits option.splits if_splits
        intro!: all_sessions_intros)
qed

lemma send_inv: "all_sessions P r \<Longrightarrow> all_sessions P (snd (send ev ops now sid peer kind action payload au ans r))"
  unfolding send_def forward_remote_send_def
  by (auto simp: Let_def split: option.splits sum.splits bridge_error.splits intro!: sequence_message_inv
      intro: session_kind.exhaust)

lemma publish_workspace_ticket_inv: "all_sessions P r \<Longrightarrow> all_sessions P (snd (publish_workspace_ticket ops sid en r))"
  unfolding publish_workspace_ticket_def lock_local_session_def
  by (auto split: option.splits intro!: all_sessions_intros simp: Let_def)
    (erule (1) invD)+

lemma admit_peer_inv:
  "\<lbrakk>all_sessions P r; get_session r sid = Some s\<rbrakk> \<Longrightarrow> all_sessions P (snd (admit_peer ops sid s peer c r))"
  unfolding admit_peer_def
  by (auto split: option.splits prod.splits intro!: all_sessions_intros inv_member_in simp: Let_def)
    (erule (1) invD)+

lemma auto_grant_on_join_inv: "all_sessions P r \<Longrightarrow> all_sessions P (auto_grant_on_join ev ops now sid p c r)"
  unfolding auto_grant_on_join_def by (rule send_inv)

lemma ensure_member_inv: "all_sessions P r \<Longrightarrow> all_sessions P (snd (ensure_member ev ops now sid peer c r))"
  using admit_peer_inv [of r sid _ ops peer c] unfolding ensure_member_def
  by (auto split: option.splits prod.splits sum.splits intro!: auto_grant_on_join_inv simp: Let_def)

lemma join_member_inv:
  "\<lbrakk>all_sessions P r; P sid s\<rbrakk> \<Longrightarrow> all_sessions P (snd (join_member ops sid s peer r))"
  unfolding join_member_def
  by (auto intro!: all_sessions_intros inv_member_in simp: Let_def)

lemma rollback_inv: "all_sessions P r \<Longrightarrow> all_sessions P (rollback_remote_mirror ops sid r)"
  unfolding rollback_remote_mirror_def by (auto simp: Let_def split: prod.splits)

lemma materialise_inv:
  "all_sessions P r \<Longrightarrow> all_sessions P (snd (materialise_remote_session ev' ops sub t peer r))"
  unfolding materialise_remote_session_def
  by (auto simp: Let_def split: sum.splits intro!: all_sessions_intros inv_mirror rollback_inv)

lemma join_inv:
  assumes "all_sessions P r"
  shows "all_sessions P (snd (join ev' ops sub raw peer r))"
proof (cases "parse_ticket ev' raw")
  case (Inr t)
  have "all_sessions P (snd (join_member ops (st_session_id t) s peer r))"
    if "get_session r (st_session_id t) = Some s" for s
    using that assms by (blast intro: join_member_inv invD)
  moreover have "all_sessions P (snd (join_member ops (st_session_id t) s peer r1))"
    if "materialise_remote_session ev' ops sub t peer r = (Inr s, r1)" for s r1
    using that materialise_inv [OF assms, of ev' ops sub t peer] materialise_Inr [of ev' ops sub t peer r s]
    by (simp add: join_member_inv inv_mirror)
  moreover have "all_sessions P r1" if "materialise_remote_session ev' ops sub t peer r = (Inl e, r1)" for e r1
    using that materialise_inv [OF assms, of ev' ops sub t peer] by simp
  ultimately show ?thesis
    using Inr assms by (auto simp: join_def Let_def split: option.splits prod.splits sum.splits)
qed (simp add: join_def assms)

lemma apply_inbound_inv:
  assumes "all_sessions P r" "\<And>s. get_session r sid = Some s \<Longrightarrow> s_kind s = Remote"
  shows "all_sessions P (apply_inbound_mirror_message ev ops sid m r)"
  using assms inv_inbound [OF invD [OF assms(1)] _ _ _ refl, of sid _ m]
  unfolding apply_inbound_mirror_message_def
  by (auto simp: Let_def split: option.splits prod.splits sum.splits intro!: all_sessions_put)

lemma host_closed_session_inv: "all_sessions P r \<Longrightarrow> all_sessions P (snd (host_closed_session ops sid r))"
  unfolding host_closed_session_def by (auto split: option.splits intro!: all_sessions_intros)

lemma advance_host_epoch_watermark_inv:
  "all_sessions P r \<Longrightarrow> all_sessions P (snd (advance_host_epoch_watermark ops sid e r))"
  unfolding advance_host_epoch_watermark_def
  by (auto split: option.splits intro!: all_sessions_intros)
    (erule (1) invD)+

lemma emit_workspace_ticket_inv: "all_sessions P r \<Longrightarrow> all_sessions P (snd (emit_workspace_ticket ops sid p en r))"
  unfolding emit_workspace_ticket_def lock_remote_session_from_host_def
  by (auto split: option.splits intro!: all_sessions_intros)
    (erule (1) invD)+

end

subsection \<open>Well-formedness is such an invariant\<close>

lemma registry_ok_all: "registry_ok ev = all_sessions (session_ok (e_cap_action ev))"
  by (simp add: fun_eq_iff registry_ok_def all_sessions_def)

lemma registry_okD: "\<lbrakk>registry_ok ev r; get_session r sid = Some s\<rbrakk> \<Longrightarrow> session_ok (e_cap_action ev) sid s"
  by (simp add: registry_ok_def)

lemma session_ok_update [simp]:
  "session_ok pc sid (s\<lparr> s_tickets := t \<rparr>) = session_ok pc sid s"
  "session_ok pc sid (s\<lparr> s_host_epoch := e \<rparr>) = session_ok pc sid s"
  "session_ok pc sid (s\<lparr> s_workspace_ticket := w \<rparr>) = session_ok pc sid s"
  by (simp_all add: session_ok_def)

lemma session_ok_insert_member: "session_ok pc sid s \<Longrightarrow> session_ok pc sid (s\<lparr> s_members := insert p (s_members s) \<rparr>)"
  by (simp add: session_ok_def)

lemma session_ok_remove_member:
  "\<lbrakk>session_ok pc sid s; p \<noteq> s_host s\<rbrakk> \<Longrightarrow> session_ok pc sid (s\<lparr> s_members := s_members s - {p} \<rparr>)"
  by (auto simp: session_ok_def)

lemma session_ok_new: "session_ok pc sid (session_new sid p k)"
  by (simp add: session_ok_def session_new_def)

lemma session_ok_append:
  assumes "session_ok pc sid s" "s_kind s = Local" "seq_next (s_head s) = Some q" "m_seq m = q"
  defines "s1 \<equiv> s\<lparr> s_head := q, s_log := s_log s @ [m] \<rparr>"
  shows "session_ok pc sid (if m_kind m = CapabilityKind then apply_capability pc s1 m else s1)"
proof -
  have "log_ok (s_log s @ [m]) q" using assms(1,3,4) by (auto simp: session_ok_def intro: log_ok_snoc)
  moreover have "\<forall>x\<in>set (s_log s). m_seq x \<le> m_seq m"
    using assms(1,3,4) seq_next_less by (fastforce simp: session_ok_def log_ok_def)
  then have "project_caps pc (s_host s) (s_log s @ [m]) =
      project_step pc (s_host s) (project_caps pc (s_host s) (s_log s)) m"
    by (rule project_caps_snoc)
  ultimately show ?thesis
    using assms(1,2) by (simp add: session_ok_def s1_def apply_capability_def project_step_def)
qed

lemma session_ok_mirror:
  assumes "session_ok pc sid s" "s_kind s = Remote"
    and "p = partition_point (\<lambda>x. m_seq x < m_seq m) (s_log s)"
    and "\<not> (p < length (s_log s) \<and> m_seq (s_log s ! p) = m_seq m)"
  shows "session_ok pc sid (s\<lparr> s_log := insert_at p m (s_log s),
    s_head := (if m_seq m > s_head s then m_seq m else s_head s) \<rparr>)"
  using assms log_ok_insert_at [OF _ assms(3,4), of "s_head s"] by (simp add: session_ok_def)

lemma session_ok_remote_mirror: "session_ok pc sid (remote_mirror sid hst e)"
  by (simp add: session_ok_def remote_mirror_def session_new_def)

interpretation wf: session_invariant ev "session_ok (e_cap_action ev)" for ev :: "'k env"
  by unfold_locales
    (auto simp: session_ok_new session_ok_remote_mirror session_ok_insert_member session_ok_remove_member
      commit_def Let_def dest: session_ok_mirror [OF _ _ refl] session_ok_append [OF _ _ _ refl])

end
