(* ===== verification/Agreement.thy ===== *)
theory Agreement
  imports Invariants "HOL-Library.Multiset"
begin

text \<open>
  What the store holds is what memory holds.  Each store call that succeeds, with the matching
  update in memory, keeps the agreement, for any store that keeps the contract
  \<open>session_store\<close>; for a store without I/O faults every registry operation keeps it in
  every outcome.
\<close>

subsection \<open>Definitions\<close>

text \<open>The stored record of a session: equal to the one in memory, but a mirror's log is stored
  in arrival order.\<close>

definition record_agrees :: "session_record \<Rightarrow> session_record \<Rightarrow> bool" where
  "record_agrees a b \<longleftrightarrow> a\<lparr> sr_log := [] \<rparr> = b\<lparr> sr_log := [] \<rparr> \<and> mset (sr_log a) = mset (sr_log b)
    \<and> (sr_kind a = Local \<longrightarrow> sr_log a = sr_log b)"

definition agrees :: "('s \<Rightarrow> session_id \<Rightarrow> session_record option) \<Rightarrow> ('s, 'k) registry \<Rightarrow> bool" where
  "agrees rec r \<longleftrightarrow> (\<forall>sid. rel_option record_agrees (rec (r_store r) sid) (map_option record_of (get_session r sid)))"

subsection \<open>Agreement with the store\<close>

lemma agrees_frame [simp]:
  "agrees rc (emit e r) = agrees rc r" "agrees rc (bridge_do c r) = agrees rc r"
  "agrees rc (deliver_workspace_ticket_to sid t en r) = agrees rc r"
  "agrees rc (fold (\<lambda>m. deliver_workspace_ticket_to sid m en) ms r) = agrees rc r"
  by (simp_all add: agrees_def)

lemma agrees_remove_emit [simp]: "agrees rc (remove_session sid (emit e r)) = agrees rc (remove_session sid r)"
  by (simp add: agrees_def)

lemma agrees_put_caps [simp]: "agrees rc (put_session sid (s\<lparr> s_caps := c \<rparr>) r) = agrees rc (put_session sid s r)"
  by (simp add: agrees_def record_of_def)

lemma put_session_store [simp]: "(put_session sid s r)\<lparr> r_store := st \<rparr> = put_session sid s (r\<lparr> r_store := st \<rparr>)"
  by (simp add: put_session_def)

lemma agrees_put_put [simp]: "agrees rc (put_session sid s (put_session sid s' r)) = agrees rc (put_session sid s r)"
  by (simp add: agrees_def)

lemma record_agrees_refl [simp]: "record_agrees a a"
  by (simp add: record_agrees_def)

lemma agreesE:
  assumes "agrees rc r" "get_session r sid = Some s"
  obtains a where "rc (r_store r) sid = Some a" "record_agrees a (record_of s)"
  using assms by (force simp: agrees_def option_rel_Some2 dest: spec [of _ sid])

lemma agrees_None: "\<lbrakk>agrees rc r; get_session r sid = None\<rbrakk> \<Longrightarrow> rc (r_store r) sid = None"
  unfolding agrees_def by (metis (no_types, lifting) map_option_is_None option.rel_distinct(2) option.exhaust)

lemma agrees_put:
  assumes "agrees rc r" "rc st = (rc (r_store r))(sid \<mapsto> a)" "record_agrees a (record_of s)"
  shows "agrees rc (put_session sid s (r\<lparr> r_store := st \<rparr>))"
  using assms by (simp add: agrees_def)

lemma agrees_remove:
  assumes "agrees rc r" "rc st = (rc (r_store r))(sid := None)"
  shows "agrees rc (remove_session sid (r\<lparr> r_store := st \<rparr>))"
  using assms by (simp add: agrees_def)

lemma agrees_store: "\<lbrakk>agrees rc r; rc st = rc (r_store r)\<rbrakk> \<Longrightarrow> agrees rc (r\<lparr> r_store := st \<rparr>)"
  by (simp add: agrees_def)

lemma mset_insert_at: "mset (insert_at p x xs) = add_mset x (mset xs)"
  unfolding insert_at_def by (simp flip: mset_append [of "take p xs" "drop p xs"])

lemma record_agrees_iff:
  "record_agrees a (record_of s) \<longleftrightarrow> sr_id a = s_id s \<and> sr_host a = s_host s \<and> sr_members a = s_members s
    \<and> sr_head a = s_head s \<and> sr_kind a = s_kind s \<and> sr_host_epoch a = s_host_epoch s
    \<and> sr_tickets a = s_tickets s \<and> sr_workspace_ticket a = s_workspace_ticket s
    \<and> mset (sr_log a) = mset (s_log s) \<and> (s_kind s = Local \<longrightarrow> sr_log a = s_log s)"
  by (cases a) (auto simp: record_agrees_def record_of_def)

lemma record_agrees_update:
  assumes "record_agrees a (record_of s)"
  shows "record_agrees (a\<lparr> sr_tickets := ts \<rparr>) (record_of (s\<lparr> s_tickets := ts \<rparr>))"
    and "record_agrees (a\<lparr> sr_host_epoch := e \<rparr>) (record_of (s\<lparr> s_host_epoch := e \<rparr>))"
    and "record_agrees (a\<lparr> sr_workspace_ticket := w \<rparr>) (record_of (s\<lparr> s_workspace_ticket := w \<rparr>))"
    and "record_agrees (a\<lparr> sr_members := insert p (sr_members a) \<rparr>) (record_of (s\<lparr> s_members := insert p (s_members s) \<rparr>))"
    and "record_agrees (a\<lparr> sr_members := sr_members a - {p} \<rparr>) (record_of (s\<lparr> s_members := s_members s - {p} \<rparr>))"
  using assms by (auto simp: record_agrees_iff)

lemma record_agrees_caps [simp]: "record_of (s\<lparr> s_caps := c \<rparr>) = record_of s"
  by (simp add: record_of_def)

lemma record_agrees_append:
  assumes "record_agrees a (record_of s)" "s_head s \<le> m_seq m"
  shows "record_agrees (a\<lparr> sr_head := max (sr_head a) (m_seq m), sr_log := sr_log a @ [m] \<rparr>)
    (record_of (s\<lparr> s_head := m_seq m, s_log := s_log s @ [m] \<rparr>))"
  using assms by (auto simp: record_agrees_iff max_def)

lemma record_agrees_insert:
  assumes "record_agrees a (record_of s)" "s_kind s = Remote"
  shows "record_agrees (a\<lparr> sr_head := max (sr_head a) (m_seq m), sr_log := sr_log a @ [m] \<rparr>)
    (record_of (s\<lparr> s_log := insert_at p m (s_log s), s_head := (if m_seq m > s_head s then m_seq m else s_head s) \<rparr>))"
  using assms by (auto simp: record_agrees_iff max_def mset_insert_at)

context session_store
begin

text \<open>One lemma per store call: its success together with the matching update in memory keeps
  the agreement.\<close>

lemma agrees_create:
  assumes "agrees rec r" "get_session r sid = None" "s_id s = sid" "so_create ops (record_of s) (r_store r) = (Inr (), st)"
  shows "agrees rec (put_session sid s (r\<lparr> r_store := st \<rparr>))"
  using agrees_put [OF assms(1), of st sid "record_of s" s] agrees_None [OF assms(1,2)] assms(3,4)
    create_rec [of "r_store r" "record_of s" st] by (simp add: record_of_def)

lemma agrees_delete:
  assumes "agrees rec r" "so_delete ops sid (r_store r) = (Inr (), st)"
  shows "agrees rec (remove_session sid (r\<lparr> r_store := st \<rparr>))"
  using agrees_remove [OF assms(1)] delete_rec [OF assms(2)] by simp

lemma agrees_updates:
  assumes "agrees rec r" "get_session r sid = Some s"
  shows "so_put_tickets ops sid ts (r_store r) = (Inr (), st) \<Longrightarrow>
      agrees rec (put_session sid (s\<lparr> s_tickets := ts \<rparr>) (r\<lparr> r_store := st \<rparr>))"
    and "so_bump_host_epoch ops sid e (r_store r) = (Inr (), st) \<Longrightarrow>
      agrees rec (put_session sid (s\<lparr> s_host_epoch := e \<rparr>) (r\<lparr> r_store := st \<rparr>))"
    and "so_put_workspace_ticket ops sid w (r_store r) = (Inr (), st) \<Longrightarrow>
      agrees rec (put_session sid (s\<lparr> s_workspace_ticket := Some w \<rparr>) (r\<lparr> r_store := st \<rparr>))"
    and "so_add_member ops sid pr (r_store r) = (Inr (), st) \<Longrightarrow>
      agrees rec (put_session sid (s\<lparr> s_members := insert (pi_id pr) (s_members s) \<rparr>) (r\<lparr> r_store := st \<rparr>))"
    and "so_remove_member ops sid q (r_store r) = (Inr (), st) \<Longrightarrow>
      agrees rec (put_session sid (s\<lparr> s_members := s_members s - {q} \<rparr>) (r\<lparr> r_store := st \<rparr>))"
    and "\<lbrakk>so_append ops sid m (r_store r) = (Inr (), st); s_head s \<le> m_seq m\<rbrakk> \<Longrightarrow>
      agrees rec (put_session sid (s\<lparr> s_head := m_seq m, s_log := s_log s @ [m] \<rparr>) (r\<lparr> r_store := st \<rparr>))"
    and "\<lbrakk>so_append ops sid m (r_store r) = (Inr (), st); s_kind s = Remote\<rbrakk> \<Longrightarrow>
      agrees rec (put_session sid (s\<lparr> s_log := insert_at p m (s_log s),
        s_head := (if m_seq m > s_head s then m_seq m else s_head s) \<rparr>) (r\<lparr> r_store := st \<rparr>))"
proof goal_cases
  obtain a where a: "rec (r_store r) sid = Some a" "record_agrees a (record_of s)"
    by (rule agreesE [OF assms])
  note put = agrees_put [OF assms(1)] and upd = record_agrees_update [OF a(2)]
  { case 1 then show ?case using put [OF put_tickets_rec [OF a(1)] upd(1)] by simp }
  { case 2 then show ?case using put [OF bump_rec [of sid e "r_store r", unfolded a(1), simplified] upd(2)] by simp }
  { case 3 then show ?case using put [OF conjunct1 [OF put_envelope_rec [OF a(1)]] upd(3)] by simp }
  { case 4 then show ?case using put [OF add_member_rec [OF a(1)] upd(4)] by simp }
  { case 5 then show ?case using put [OF remove_member_rec [OF a(1)] upd(5)] by simp }
  { case 6 then show ?case using put [OF append_rec [OF a(1)] record_agrees_append [OF a(2)]] by simp }
  { case 7 then show ?case using put [OF append_rec [OF a(1)] record_agrees_insert [OF a(2)]] by simp }
qed

end

context reliable_store
begin

lemma agrees_try:
  assumes "agrees rec r" "get_session r sid = Some s"
  shows agrees_try_tickets: "\<lbrakk>\<And>st. agrees rec (put_session sid (s\<lparr> s_tickets := ts \<rparr>) (r\<lparr> r_store := st \<rparr>))
        \<Longrightarrow> agrees rec (snd (k () (r\<lparr> r_store := st \<rparr>)))\<rbrakk>
      \<Longrightarrow> agrees rec (snd (store_try (so_put_tickets ops sid ts) r k))"
    and agrees_try_bump: "\<lbrakk>\<And>st. agrees rec (put_session sid (s\<lparr> s_host_epoch := e \<rparr>) (r\<lparr> r_store := st \<rparr>))
        \<Longrightarrow> agrees rec (snd (k () (r\<lparr> r_store := st \<rparr>)))\<rbrakk>
      \<Longrightarrow> agrees rec (snd (store_try (so_bump_host_epoch ops sid e) r k))"
    and agrees_try_add: "\<lbrakk>\<And>st. agrees rec (put_session sid (s\<lparr> s_members := insert (pi_id pr) (s_members s) \<rparr>) (r\<lparr> r_store := st \<rparr>))
        \<Longrightarrow> agrees rec (snd (k () (r\<lparr> r_store := st \<rparr>)))\<rbrakk>
      \<Longrightarrow> agrees rec (snd (store_try (so_add_member ops sid pr) r k))"
    and agrees_try_remove: "\<lbrakk>\<And>st. agrees rec (put_session sid (s\<lparr> s_members := s_members s - {q} \<rparr>) (r\<lparr> r_store := st \<rparr>))
        \<Longrightarrow> agrees rec (snd (k () (r\<lparr> r_store := st \<rparr>)))\<rbrakk>
      \<Longrightarrow> agrees rec (snd (store_try (so_remove_member ops sid q) r k))"
    and agrees_try_append: "\<lbrakk>s_head s \<le> m_seq m;
        \<And>st. agrees rec (put_session sid (s\<lparr> s_head := m_seq m, s_log := s_log s @ [m] \<rparr>) (r\<lparr> r_store := st \<rparr>))
        \<Longrightarrow> agrees rec (snd (k () (r\<lparr> r_store := st \<rparr>)))\<rbrakk>
      \<Longrightarrow> agrees rec (snd (store_try (so_append ops sid m) r k))"
    and agrees_try_envelope: "\<lbrakk>\<And>st. agrees rec (put_session sid (s\<lparr> s_workspace_ticket := Some w \<rparr>) (r\<lparr> r_store := st \<rparr>))
        \<Longrightarrow> agrees rec (snd (k () (r\<lparr> r_store := st \<rparr>)))\<rbrakk>
      \<Longrightarrow> agrees rec (snd (store_try (so_put_workspace_ticket ops sid w) r k))"
proof goal_cases
  note upd = agrees_updates [OF assms]
  have known: "rec (r_store r) sid \<noteq> None" using agreesE [OF assms] by blast
  { case 1 then show ?case using put_tickets_ok [OF known, of ts] upd(1) [of ts]
      by (auto simp: store_try_def Let_def split: prod.splits sum.splits) }
  { case 2 then show ?case using bump_ok [of sid e "r_store r"] upd(2) [of e]
      by (auto simp: store_try_def Let_def split: prod.splits sum.splits) }
  { case 3 then show ?case using add_member_ok [OF known, of pr] upd(4) [of pr]
      by (auto simp: store_try_def Let_def split: prod.splits sum.splits) }
  { case 4 then show ?case using remove_member_ok [OF known, of q] upd(5) [of q]
      by (auto simp: store_try_def Let_def split: prod.splits sum.splits) }
  { case 5 then show ?case using append_ok [OF known, of m] upd(6) [of m]
      by (auto simp: store_try_def Let_def split: prod.splits sum.splits) }
  { case 6 then show ?case
      using put_envelope_refused [of sid w "r_store r"] upd(3) [of w] assms(1)
      by (auto simp: store_try_def Let_def split: prod.splits sum.splits) }
qed

lemma agrees_try_delete:
  assumes "agrees rec r" "\<And>st. agrees rec (remove_session sid (r\<lparr> r_store := st \<rparr>))
    \<Longrightarrow> agrees rec (snd (k () (r\<lparr> r_store := st \<rparr>)))"
  shows "agrees rec (snd (store_try (so_delete ops sid) r k))"
  using assms delete_ok [of sid "r_store r"] agrees_delete [OF assms(1)]
  by (auto simp: store_try_def Let_def split: prod.splits sum.splits)

lemma agrees_try_create:
  assumes "agrees rec r" "get_session r sid = None" "s_id s = sid"
    and "\<And>st. agrees rec (put_session sid s (r\<lparr> r_store := st \<rparr>)) \<Longrightarrow> agrees rec (snd (k () (r\<lparr> r_store := st \<rparr>)))"
  shows "agrees rec (snd (store_try (so_create ops (record_of s)) r k))"
  using assms(4) create_ok [of "record_of s" "r_store r"] agrees_create [OF assms(1-3)]
  by (auto simp: store_try_def Let_def split: prod.splits sum.splits)

lemma agrees_try_floor:
  assumes "agrees rec r" "\<And>v st. rec st = rec (r_store r) \<Longrightarrow> agrees rec (snd (k v (r\<lparr> r_store := st \<rparr>)))"
  shows "agrees rec (snd (store_try (so_epoch_floor ops sid) r k))"
  using assms epoch_floor_ok [of sid "r_store r"] epoch_floor [of sid "r_store r"]
  by (auto simp: store_try_def Let_def split: prod.splits sum.splits)

end

subsection \<open>Every operation keeps the agreement\<close>

context reliable_store
begin

lemmas agrees_tries = agrees_try_tickets agrees_try_add agrees_try_remove agrees_try_envelope
  agrees_try_delete

lemma issue_ticket_agrees: "agrees rec r \<Longrightarrow> agrees rec (snd (issue_ticket ev ops now tid sid cap ex r))"
  unfolding issue_ticket_def lock_local_session_def
  by (auto split: option.splits intro!: agrees_try_tickets simp: Let_def)

lemma revoke_ticket_agrees: "agrees rec r \<Longrightarrow> agrees rec (snd (revoke_ticket ops sid tid r))"
  unfolding revoke_ticket_def lock_local_session_def
  by (auto split: option.splits intro!: agrees_try_tickets simp: Let_def)

lemma no_failure:
  "rec s i \<noteq> None \<Longrightarrow> so_put_tickets ops i ts s \<noteq> (Inl e, s')"
  "so_bump_host_epoch ops i ep s \<noteq> (Inl e, s')" "so_delete ops i s \<noteq> (Inl e, s')"
  "rec s i \<noteq> None \<Longrightarrow> so_append ops i m s \<noteq> (Inl e, s')"
  using put_tickets_ok [of s i ts] bump_ok [of i ep s] delete_ok [of i s] append_ok [of s i m] by auto

lemma host_resume_agrees:
  assumes "agrees rec r" "get_session r sid = Some s"
  shows "agrees rec (snd (host_resume ev ops now tid p sid s cap ex r))"
proof -
  obtain a where a: "rec (r_store r) sid = Some a" "record_agrees a (record_of s)"
    by (rule agreesE [OF assms])
  have "agrees rec (put_session sid (s\<lparr> s_host_epoch := e, s_tickets := ts \<rparr>) (r\<lparr> r_store := st2 \<rparr>))"
    if "so_put_tickets ops sid ts (r_store r) = (Inr (), st1)" "so_bump_host_epoch ops sid e st1 = (Inr (), st2)" for e ts st1 st2
  proof -
    have "rec st2 = (rec (r_store r))(sid \<mapsto> a\<lparr> sr_tickets := ts, sr_host_epoch := e \<rparr>)"
      using bump_rec [OF that(2)] put_tickets_rec [OF a(1) that(1)] by simp
    from agrees_put [OF assms(1) this] a(2) show ?thesis by (simp add: record_agrees_iff)
  qed
  then show ?thesis
    using no_failure(1) [of "r_store r" sid] no_failure(2) [of sid] a(1) assms(1)
    by (auto simp: host_resume_def Let_def store_try_def split: prod.splits sum.splits)
qed

lemma host_create_agrees:
  assumes "agrees rec r" "get_session r sid = None"
  shows "agrees rec (snd (host_create ev ops now tid p sid cap ex r))"
  unfolding host_create_def
proof (rule agrees_try_floor [OF assms(1)])
  fix e st assume st: "rec st = rec (r_store r)"
  then have "agrees rec (r\<lparr> r_store := st \<rparr>)" using assms(1) by (simp add: agrees_def)
  then show "agrees rec (snd (let (ticket, ticket_id) = mint_ticket ev (r\<lparr> r_store := st \<rparr>) tid sid cap ex e;
      s = (session_new sid p Local)\<lparr> s_host_epoch := e, s_tickets := [ledger_entry now ticket_id cap ex] \<rparr>
    in store_try (so_create ops (record_of s)) (r\<lparr> r_store := st \<rparr>)
         (\<lambda>_ r2. (Inr (sid, ticket, ticket_id), bridge_do (CallHostSession sid) (put_session sid s r2)))))"
    using assms(2) by (auto simp: Let_def session_new_def split: prod.splits intro!: agrees_try_create [where sid = sid])
qed

lemma registry_host_agrees: "agrees rec r \<Longrightarrow> agrees rec (snd (registry_host ev ops now dr tid p rq cap ex r))"
  unfolding registry_host_def
  by (auto split: option.splits intro!: host_resume_agrees host_create_agrees simp: find_Some_iff)

lemma leave_agrees: "agrees rec r \<Longrightarrow> agrees rec (snd (leave ops sid p r))"
  unfolding leave_def
  by (auto split: option.splits intro!: agrees_try_delete agrees_try_remove simp: Let_def)

lemma remove_member_agrees: "agrees rec r \<Longrightarrow> agrees rec (snd (remove_member ops sid p r))"
  unfolding remove_member_def lock_local_session_def
  by (auto split: option.splits intro!: agrees_try_remove simp: Let_def)

lemma publish_workspace_ticket_agrees: "agrees rec r \<Longrightarrow> agrees rec (snd (publish_workspace_ticket ops sid en r))"
  unfolding publish_workspace_ticket_def lock_local_session_def
  by (auto split: option.splits intro!: agrees_try_envelope simp: Let_def)

lemma host_closed_session_agrees: "agrees rec r \<Longrightarrow> agrees rec (snd (host_closed_session ops sid r))"
  unfolding host_closed_session_def by (auto split: option.splits intro!: agrees_try_delete)

lemma advance_host_epoch_watermark_agrees:
  "agrees rec r \<Longrightarrow> agrees rec (snd (advance_host_epoch_watermark ops sid e r))"
  unfolding advance_host_epoch_watermark_def by (auto split: option.splits intro!: agrees_try_bump)

lemma emit_workspace_ticket_agrees: "agrees rec r \<Longrightarrow> agrees rec (snd (emit_workspace_ticket ops sid p en r))"
  unfolding emit_workspace_ticket_def lock_remote_session_from_host_def
  by (auto split: option.splits intro!: agrees_try_envelope)

lemma sequence_message_agrees:
  assumes "agrees rec r" "get_session r sid = Some s"
  shows "agrees rec (snd (sequence_message ev ops now sid s peer kind action payload au r))"
  using assms unfolding sequence_message_def
  by (auto simp: Let_def session_message_new_def apply_capability_def
      split: sum.splits prod.splits option.splits
      intro!: agrees_try_append [where s = s] less_imp_le seq_next_less)

lemma send_agrees: "agrees rec r \<Longrightarrow> agrees rec (snd (send ev ops now sid peer kind action payload au ans r))"
  unfolding send_def forward_remote_send_def
  by (auto simp: Let_def split: option.splits sum.splits bridge_error.splits intro!: sequence_message_agrees)

lemma admit_peer_agrees:
  assumes "agrees rec r" "get_session r sid = Some s"
  shows "agrees rec (snd (admit_peer ops sid s peer c r))"
proof -
  let ?s1 = "s\<lparr> s_members := insert (pi_id peer) (s_members s) \<rparr>"
  have "agrees rec (put_session sid (?s1\<lparr> s_tickets := ts \<rparr>) (r\<lparr> r_store := st2 \<rparr>))"
    if mem: "agrees rec (put_session sid ?s1 (r\<lparr> r_store := st \<rparr>))"
      and tickets: "so_put_tickets ops sid ts st = (x, st2)" for st ts x st2
  proof -
    have get: "get_session (put_session sid ?s1 (r\<lparr> r_store := st \<rparr>)) sid = Some ?s1" by simp
    have "rec st sid \<noteq> None" using agreesE [OF mem get] by fastforce
    then show ?thesis
      using agrees_updates(1) [OF mem get, of ts st2] tickets put_tickets_ok [of st sid ts] by simp
  qed
  then show ?thesis unfolding admit_peer_def
    by (intro agrees_try_add [OF assms]) (auto simp: Let_def split: option.splits prod.splits)
qed

lemma auto_grant_on_join_agrees: "agrees rec r \<Longrightarrow> agrees rec (auto_grant_on_join ev ops now sid p c r)"
  unfolding auto_grant_on_join_def by (rule send_agrees)

lemma ensure_member_agrees: "agrees rec r \<Longrightarrow> agrees rec (snd (ensure_member ev ops now sid peer c r))"
  using admit_peer_agrees [of r sid _ peer c] unfolding ensure_member_def
  by (auto split: option.splits prod.splits sum.splits intro!: auto_grant_on_join_agrees simp: Let_def)

lemma join_member_agrees:
  "\<lbrakk>agrees rec r; get_session r sid = Some s\<rbrakk> \<Longrightarrow> agrees rec (snd (join_member ops sid s peer r))"
  unfolding join_member_def by (auto intro!: agrees_try_add simp: Let_def)

lemma rollback_agrees:
  assumes "agrees rec r"
  shows "agrees rec (rollback_remote_mirror ops sid r)"
proof -
  obtain st where st: "so_delete ops sid (r_store r) = (Inr (), st)"
    using delete_ok [of sid "r_store r"] by (metis prod.collapse)
  have "(remove_session sid r)\<lparr> r_store := st \<rparr> = remove_session sid (r\<lparr> r_store := st \<rparr>)"
    by (simp add: remove_session_def)
  with st agrees_delete [OF assms st] show ?thesis by (simp add: rollback_remote_mirror_def Let_def)
qed

lemma materialise_agrees:
  assumes "agrees rec r" "get_session r (st_session_id t) = None"
  shows "agrees rec (snd (materialise_remote_session ev ops sub t peer r))"
  unfolding materialise_remote_session_def Let_def
  by (auto simp: assms(1) remote_mirror_def session_new_def split: sum.splits
      intro!: agrees_try_create [OF assms] rollback_agrees)

lemma materialise_get:
  "materialise_remote_session ev ops sub t peer r = (Inr s, r') \<Longrightarrow> get_session r' (st_session_id t) = Some s"
  unfolding materialise_remote_session_def
  by (auto simp: Let_def store_try_def split: sum.splits if_splits prod.splits)

lemma join_agrees:
  assumes "agrees rec r"
  shows "agrees rec (snd (join ev ops sub raw peer r))"
proof -
  have "agrees rec r'" if "materialise_remote_session ev ops sub t peer r = (x, r')"
      "get_session r (st_session_id t) = None" for t x r'
    using materialise_agrees [OF assms that(2), of ev sub peer] that(1) by simp
  then show ?thesis
    using assms materialise_get [of ev sub _ peer r]
    by (auto simp: join_def Let_def split: option.splits prod.splits sum.splits intro!: join_member_agrees)
qed

lemma apply_inbound_agrees:
  assumes "agrees rec r" "\<And>s. get_session r sid = Some s \<Longrightarrow> s_kind s = Remote"
  shows "agrees rec (apply_inbound_mirror_message ev ops sid m r)"
proof (cases "get_session r sid")
  case (Some s)
  obtain a where "rec (r_store r) sid = Some a" using agreesE [OF assms(1) Some] .
  with assms Some no_failure(4) [of "r_store r" sid m] agrees_updates(7) [OF assms(1) Some, of m] show ?thesis
    by (auto simp: apply_inbound_mirror_message_def Let_def split: prod.splits sum.splits)
qed (simp add: apply_inbound_mirror_message_def assms(1))

lemma attachment_agrees:
  assumes "agrees rec r"
  shows "agrees rec (snd (register_attachment ops sid kind payload r))"
    and "agrees rec (snd (forget_attachment ops sid kind r))"
    and "agrees rec (snd (list_attachments ops kf r))"
  using assms attachments_ok [of sid kind payload "r_store r" kf] attachments [of sid kind payload "r_store r" _ _ kf]
  by (auto simp: register_attachment_def forget_attachment_def list_attachments_def store_try_def Let_def
      split: option.splits prod.splits sum.splits intro!: agrees_store)

end

end
