(* ===== verification/Runs.thy ===== *)
theory Runs
  imports Agreement
begin

text \<open>
  The daemon as a state machine: one step per registry operation, with the arguments a client,
  a peer or the bridge can choose, the registries reachable from an empty one, and what holds
  in all of them.  A restart is \<^const>\<open>load\<close> over the store that the run left.
\<close>

subsection \<open>Steps\<close>

datatype reg_op =
    OpHost u64 "session_id list" ticket_id peer_info "session_id option" capability u64
  | OpIssueTicket u64 ticket_id session_id capability u64
  | OpRevokeTicket session_id ticket_id
  | OpJoin "bridge_error + unit" ustring peer_info
  | OpLeave session_id peer_id
  | OpRemoveMember session_id peer_id
  | OpEnsureMember u64 session_id peer_info "cap_claim option"
  | OpSend u64 session_id peer_info message_kind string "byte list" authoring "bridge_error + session_message"
  | OpPublishTicket session_id "byte list"
  | OpInbound session_id session_message
  | OpHostClosed session_id
  | OpWatermark session_id u64
  | OpEmitTicket session_id peer_id "byte list"
  | OpRegisterAttachment session_id string "byte list"
  | OpForgetAttachment session_id string

fun reg_step :: "'k env \<Rightarrow> 's store_ops \<Rightarrow> reg_op \<Rightarrow> ('s, 'k) registry \<Rightarrow> ('s, 'k) registry" where
  "reg_step ev ops (OpHost now draws tid p rq cap ex) r = snd (registry_host ev ops now draws tid p rq cap ex r)"
| "reg_step ev ops (OpIssueTicket now tid sid cap ex) r = snd (issue_ticket ev ops now tid sid cap ex r)"
| "reg_step ev ops (OpRevokeTicket sid tid) r = snd (revoke_ticket ops sid tid r)"
| "reg_step ev ops (OpJoin sub raw p) r = snd (join ev ops sub raw p r)"
| "reg_step ev ops (OpLeave sid p) r = snd (leave ops sid p r)"
| "reg_step ev ops (OpRemoveMember sid p) r = snd (remove_member ops sid p r)"
| "reg_step ev ops (OpEnsureMember now sid p c) r = snd (ensure_member ev ops now sid p c r)"
| "reg_step ev ops (OpSend now sid p k a pl au ans) r = snd (send ev ops now sid p k a pl au ans r)"
| "reg_step ev ops (OpPublishTicket sid en) r = snd (publish_workspace_ticket ops sid en r)"
| "reg_step ev ops (OpInbound sid m) r = apply_inbound_mirror_message ev ops sid m r"
| "reg_step ev ops (OpHostClosed sid) r = snd (host_closed_session ops sid r)"
| "reg_step ev ops (OpWatermark sid e) r = snd (advance_host_epoch_watermark ops sid e r)"
| "reg_step ev ops (OpEmitTicket sid p en) r = snd (emit_workspace_ticket ops sid p en r)"
| "reg_step ev ops (OpRegisterAttachment sid k pl) r = snd (register_attachment ops sid k pl r)"
| "reg_step ev ops (OpForgetAttachment sid k) r = snd (forget_attachment ops sid k r)"

text \<open>The bridge registers the inbound callback for remote mirrors only.\<close>

fun enabled :: "reg_op \<Rightarrow> ('s, 'k) registry \<Rightarrow> bool" where
  "enabled (OpInbound sid m) r \<longleftrightarrow> is_local_session r sid \<noteq> Some True"
| "enabled _ r \<longleftrightarrow> True"

inductive reachable :: "'k env \<Rightarrow> 's store_ops \<Rightarrow> 's \<Rightarrow> ('s, 'k) registry \<Rightarrow> bool" for ev ops st where
  start: "\<lbrakk>r_sessions r = []; r_store r = st\<rbrakk> \<Longrightarrow> reachable ev ops st r"
| step: "\<lbrakk>reachable ev ops st r; enabled op r\<rbrakk> \<Longrightarrow> reachable ev ops st (reg_step ev ops op r)"

text \<open>A whole run, for concrete inputs: the steps in order, \<^const>\<open>None\<close> when one is not enabled.\<close>

fun reg_run :: "'k env \<Rightarrow> 's store_ops \<Rightarrow> reg_op list \<Rightarrow> ('s, 'k) registry \<Rightarrow> ('s, 'k) registry option" where
  "reg_run ev ops [] r = Some r"
| "reg_run ev ops (op # ops') r = (if enabled op r then reg_run ev ops ops' (reg_step ev ops op r) else None)"

lemma reg_run_reachable: "\<lbrakk>reg_run ev ops cs r = Some r'; reachable ev ops st r\<rbrakk> \<Longrightarrow> reachable ev ops st r'"
  by (induction cs arbitrary: r) (auto split: if_splits intro: reachable.step)

subsection \<open>Invariants of the reachable registries\<close>

lemma enabled_inbound: "\<lbrakk>enabled (OpInbound sid m) r; get_session r sid = Some s\<rbrakk> \<Longrightarrow> s_kind s = Remote"
  by (cases "s_kind s") (auto simp: is_local_session_def)

context session_invariant
begin

lemma attachment_inv:
  "all_sessions P r \<Longrightarrow> all_sessions P (snd (register_attachment ops sid k pl r))"
  "all_sessions P r \<Longrightarrow> all_sessions P (snd (forget_attachment ops sid k r))"
  by (auto simp: register_attachment_def forget_attachment_def split: option.splits intro!: all_sessions_store_try)

lemma reg_step_inv:
  assumes "all_sessions P r" "enabled op r"
  shows "all_sessions P (reg_step ev ops op r)"
  using assms
  by (cases op) (simp_all del: enabled.simps(1) add: registry_host_inv issue_ticket_inv revoke_ticket_inv join_inv leave_inv
      remove_member_inv ensure_member_inv send_inv publish_workspace_ticket_inv host_closed_session_inv
      advance_host_epoch_watermark_inv emit_workspace_ticket_inv attachment_inv apply_inbound_inv enabled_inbound)

lemma reachable_inv:
  assumes "reachable ev ops st r"
  shows "all_sessions P r"
  using assms
proof induction
  case (start r) then show ?case by (simp add: all_sessions_def)
next
  case (step r op) then show ?case by (simp add: reg_step_inv)
qed

end

lemma reachable_ok: "reachable ev ops st r \<Longrightarrow> registry_ok ev r"
  unfolding registry_ok_all by (rule wf.reachable_inv)

context reliable_store
begin

lemma reg_step_agrees:
  assumes "agrees rec r" "enabled op r"
  shows "agrees rec (reg_step ev ops op r)"
  using assms
  by (cases op) (simp_all del: enabled.simps(1) add: registry_host_agrees issue_ticket_agrees revoke_ticket_agrees
      join_agrees leave_agrees remove_member_agrees ensure_member_agrees send_agrees
      publish_workspace_ticket_agrees host_closed_session_agrees advance_host_epoch_watermark_agrees
      emit_workspace_ticket_agrees attachment_agrees apply_inbound_agrees enabled_inbound)

lemma reachable_agrees:
  assumes "reachable ev ops st r" "\<And>i. rec st i = None"
  shows "agrees rec r"
  using assms
proof induction
  case (start r) then show ?case by (simp add: agrees_def)
next
  case (step r op) then show ?case by (blast intro: reg_step_agrees)
qed

end

subsection \<open>Restart\<close>

lemma map_of_foldl_update:
  "map_of (foldl (\<lambda>m r. AList.update (f r) (g r) m) m0 rs) i =
    (case find (\<lambda>r. f r = i) (rev rs) of None \<Rightarrow> map_of m0 i | Some r \<Rightarrow> Some (g r))"
  by (induction rs rule: rev_induct) (simp_all add: update_conv')

lemma find_Some_set: "find P xs = Some x \<Longrightarrow> x \<in> set xs \<and> P x"
  by (induction xs) (auto split: if_splits)

lemma from_record_local:
  assumes "session_ok pc sid s" "record_agrees a (record_of s)" "s_kind s = Local"
  shows "from_record pc a = s"
  using assms by (cases s) (auto simp: record_agrees_iff session_ok_def from_record_def)

context session_store
begin

lemma load_get:
  assumes "so_load_all ops st = (Inr rs, st')" and ids: "\<And>i a. rec st i = Some a \<Longrightarrow> sr_id a = i"
  shows "map_of (foldl (\<lambda>m r. AList.update (sr_id r) (g r) m) [] rs) i = map_option g (rec st i)"
proof (cases "find (\<lambda>a. sr_id a = i) (rev rs)")
  case None
  have "rec st i = None"
  proof (rule ccontr)
    assume "rec st i \<noteq> None"
    then obtain a where "rec st i = Some a" by blast
    then have "a \<in> set rs" "sr_id a = i" using load_all [OF assms(1)] ids by auto
    with None show False by (simp add: find_None_iff)
  qed
  with None show ?thesis by (simp add: map_of_foldl_update)
next
  case (Some b)
  then have b: "b \<in> set rs" "sr_id b = i" using find_Some_set [OF Some] by simp_all
  then obtain j where "rec st j = Some b" using load_all [OF assms(1)] by blast
  with ids b(2) have "rec st i = Some b" by blast
  with Some show ?thesis by (simp add: map_of_foldl_update)
qed

end

context reliable_store
begin

lemma load_agrees:
  assumes "agrees rec r" "registry_ok ev r"
  obtains r' where "load ev ops d addr b key ep (r_store r) = Inr r'"
    and "\<And>sid. get_session r' sid = map_option (from_record (e_cap_action ev)) (rec (r_store r) sid)"
proof -
  obtain rs st where load: "so_load_all ops (r_store r) = (Inr rs, st)"
    using load_all_ok [of "r_store r"] by (metis prod.collapse)
  have "sr_id a = i" if "rec (r_store r) i = Some a" for i a
  proof (cases "get_session r i")
    case None then show ?thesis using agrees_None [OF assms(1)] that by simp
  next
    case (Some s)
    then show ?thesis using agreesE [OF assms(1) Some] registry_okD [OF assms(2) Some] that
      by (auto simp: record_agrees_iff session_ok_def)
  qed
  from load_get [OF load this, of "from_record (e_cap_action ev)"] show thesis
    by (intro that [of "\<lparr> r_daemon_peer_id = d, r_daemon_addr = addr,
      r_sessions = foldl (\<lambda>m r. AList.update (sr_id r) (from_record (e_cap_action ev) r) m) [] rs,
      r_store = st, r_bridge = b, r_signing_key = key, r_endpoint = ep, r_events = [], r_outbox = [] \<rparr>"])
      (simp_all add: load_def load)
qed

end

subsection \<open>A sample daemon\<close>

definition sample_env :: "peer_id env" where
  "sample_env = \<lparr> e_ed = open_ed, e_cap_action = to_codec sd_cap_action, e_b32 = sample_b32,
    e_ticket_body = to_codec sd_wire_body, e_serialized_size = (\<lambda>m. 200 + length (m_payload m)),
    e_bridge_text = (\<lambda>_. ''bridge'') \<rparr>"

definition sample_registry :: "(memory_store, peer_id) registry" where
  "sample_registry = \<lparr> r_daemon_peer_id = PeerId 7, r_daemon_addr = st_host_addr sample_ticket, r_sessions = [],
    r_store = memory_new, r_bridge = True, r_signing_key = Some (PeerId 7), r_endpoint = False,
    r_events = [], r_outbox = [] \<rparr>"

definition sample_host :: peer_info where
  "sample_host = \<lparr> pi_id = PeerId 7, pi_display_name = ''ada'' \<rparr>"

definition sample_steps :: "reg_op list" where
  "sample_steps = [OpHost 5 [] (TicketId 3) sample_host (Some (SessionId 9)) ReadWrite 0,
    OpSend 6 (SessionId 9) sample_host Chat ''chat.message'' [104] ALocal (Inl BSendTimeout)]"

definition sample_run :: "(memory_store, peer_id) registry" where
  "sample_run = the (reg_run sample_env memory_ops sample_steps sample_registry)"

lemmas sample_defs = sample_env_def sample_registry_def sample_host_def sample_steps_def sample_run_def

lemma sample_run_ends: "reg_run sample_env memory_ops sample_steps sample_registry = Some sample_run"
  by (simp add: sample_run_def sample_steps_def)

lemma sample_run_reachable: "reachable sample_env memory_ops memory_new sample_run"
  by (rule reg_run_reachable [OF sample_run_ends], rule reachable.start) (simp_all add: sample_registry_def)

text \<open>The definitions that evaluate a host and a send on concrete input.\<close>

lemmas host_eval = registry_host_def host_create_def store_try_def mem_defs mem_epoch_floor_def mint_ticket_def
  memory_new_def session_new_def record_of_def registry_defs Let_def

lemmas send_eval = send_def sequence_message_def reserved_system_action_def can_write_def resolve_authoring_def
  author_local_def sign_body_def canonical_bytes_def u32_be_len_def seq_next_def message_frame_len_def
  gossip_size_defs registry_defs mem_defs Let_def Seq_ZERO_def checked_add_1_def u64_MAX_def
  session_message_new_def

lemma sample_run_session:
  "\<exists>s. get_session sample_run (SessionId 9) = Some s \<and> s_kind s = Local \<and> length (s_log s) = 1"
  by (simp add: sample_defs host_eval) (simp add: send_eval)

subsection \<open>Properties\<close>

text \<open>C27: well-formedness in every reachable registry, whatever the store answers.  Starting from
  an empty registry, after any sequence of operations and with any store (one that fails at
  any call included), every session in the map is filed under its own id, has its host among
  its members with read-write, a log strictly increasing in sequence number and bounded by
  the head, and, when this daemon hosts it, exactly the capability set that the fold over
  its log gives.\<close>

theorem reachable_registry_ok:
  assumes "reachable ev ops st r"
  shows "registry_ok ev r"
  by (rule reachable_ok [OF assms])

theorem reachable_registry_ok_witness:
  "reachable sample_env memory_ops memory_new sample_run \<and> registry_ok sample_env sample_run
    \<and> get_session sample_run (SessionId 9) \<noteq> None"
  using sample_run_reachable reachable_registry_ok [OF sample_run_reachable] sample_run_session by auto

text \<open>C9: memory and store never diverge on a store without I/O faults.  In every registry
  reachable with the in-memory store, the stored record of every session equals the one in
  memory, up to the order of a mirror's log (which is stored in arrival order), and no other
  record is stored.\<close>

theorem reachable_store_agrees:
  assumes "reachable ev memory_ops memory_new r"
  shows "agrees mem_rec r"
  by (rule mem.reachable_agrees [OF assms]) (simp add: mem_rec_def memory_new_def)

theorem reachable_store_agrees_witness:
  "reachable sample_env memory_ops memory_new sample_run \<and> agrees mem_rec sample_run
    \<and> get_session sample_run (SessionId 9) \<noteq> None"
  using sample_run_reachable reachable_store_agrees [OF sample_run_reachable] sample_run_session by auto



end
