(* ===== verification/Evolution.thy ===== *)
theory Evolution
  imports Runs "HOL-Library.Sublist"
begin

text \<open>
  How a live session may change: the host, the kind and the log entries stay, a hosted log only
  grows at its end, the head and the host epoch never decrease, and the ticket ledger is
  append-only with revocation permanent.  Every operation moves every session along this
  order or creates it; what a new session starts with is fixed too.
\<close>

subsection \<open>The order on sessions\<close>

definition ticket_le :: "ticket_entry \<Rightarrow> ticket_entry \<Rightarrow> bool" where
  "ticket_le t t' \<longleftrightarrow> te_ticket_id t' = te_ticket_id t \<and> te_granted_cap t' = te_granted_cap t
    \<and> te_expiry_ms t' = te_expiry_ms t \<and> te_issued_at_ms t' = te_issued_at_ms t
    \<and> (te_status t = Revoked \<longrightarrow> te_status t' = Revoked) \<and> prefix (te_used_by t) (te_used_by t')"

definition ledger_le :: "ticket_entry list \<Rightarrow> ticket_entry list \<Rightarrow> bool" where
  "ledger_le ts ts' \<longleftrightarrow> length ts \<le> length ts' \<and> (\<forall>i<length ts. ticket_le (ts ! i) (ts' ! i))"

definition evolves :: "session \<Rightarrow> session \<Rightarrow> bool" where
  "evolves s s' \<longleftrightarrow> s_id s' = s_id s \<and> s_host s' = s_host s \<and> s_kind s' = s_kind s
    \<and> s_head s \<le> s_head s' \<and> s_host_epoch s \<le> s_host_epoch s' \<and> set (s_log s) \<subseteq> set (s_log s')
    \<and> (s_kind s = Local \<longrightarrow> prefix (s_log s) (s_log s')) \<and> ledger_le (s_tickets s) (s_tickets s')"

text \<open>A session that appears: nothing logged yet, and a hosted one starts at the store's epoch floor.\<close>

definition born :: "'s store_ops \<Rightarrow> 's \<Rightarrow> session_id \<Rightarrow> session \<Rightarrow> bool" where
  "born ops st sid s \<longleftrightarrow> s_id s = sid \<and> s_log s = [] \<and> s_head s = Seq_ZERO
    \<and> (s_kind s = Local \<longrightarrow> fst (so_epoch_floor ops sid st) = Inr (s_host_epoch s))"

text \<open>No session appears and each one that stays evolves; and the same with new sessions allowed.\<close>

definition keeps :: "('s, 'k) registry \<Rightarrow> ('s, 'k) registry \<Rightarrow> bool" where
  "keeps r r' \<longleftrightarrow> (\<forall>sid s'. get_session r' sid = Some s' \<longrightarrow> (\<exists>s. get_session r sid = Some s \<and> evolves s s'))"

definition moves :: "'s store_ops \<Rightarrow> ('s, 'k) registry \<Rightarrow> ('s, 'k) registry \<Rightarrow> bool" where
  "moves ops r r' \<longleftrightarrow> (\<forall>sid s'. get_session r' sid = Some s' \<longrightarrow>
    (case get_session r sid of None \<Rightarrow> born ops (r_store r) sid s' | Some s \<Rightarrow> evolves s s'))"

subsection \<open>Its laws\<close>

lemma ticket_le_refl [simp]: "ticket_le t t"
  by (simp add: ticket_le_def)

lemma ticket_le_trans: "\<lbrakk>ticket_le a b; ticket_le b c\<rbrakk> \<Longrightarrow> ticket_le a c"
  by (auto simp: ticket_le_def)

lemma ledger_le_refl [simp]: "ledger_le ts ts"
  by (simp add: ledger_le_def)

lemma ledger_le_trans: "\<lbrakk>ledger_le a b; ledger_le b c\<rbrakk> \<Longrightarrow> ledger_le a c"
  unfolding ledger_le_def by (meson order.strict_trans2 order_trans ticket_le_trans)

lemma ledger_le_append [simp]: "ledger_le ts (ts @ us)"
  by (simp add: ledger_le_def nth_append)

lemma ledger_le_update: "(i < length ts \<Longrightarrow> ticket_le (ts ! i) t) \<Longrightarrow> ledger_le ts (ts[i := t])"
  by (cases "i < length ts") (auto simp: ledger_le_def nth_list_update)

lemma ledger_le_Cons: "\<lbrakk>ticket_le a b; ledger_le as bs\<rbrakk> \<Longrightarrow> ledger_le (a # as) (b # bs)"
  by (auto simp: ledger_le_def nth_Cons split: nat.splits)

lemma ledger_le_record_use: "record_use tid p ts = Some ts' \<Longrightarrow> ledger_le ts ts'"
  by (induction ts arbitrary: ts') (auto simp: ledger_le_Cons ticket_le_def split: if_splits)

lemma evolves_refl [simp]: "evolves s s"
  by (simp add: evolves_def)

lemma evolves_trans: "\<lbrakk>evolves a b; evolves b c\<rbrakk> \<Longrightarrow> evolves a c"
  unfolding evolves_def by (auto intro: order_trans ledger_le_trans prefix_order.trans)

lemma evolves_update:
  "ledger_le (s_tickets s) ts \<Longrightarrow> evolves s (s\<lparr> s_tickets := ts \<rparr>)"
  "s_host_epoch s \<le> e \<Longrightarrow> evolves s (s\<lparr> s_host_epoch := e \<rparr>)"
  "\<lbrakk>s_host_epoch s \<le> e; ledger_le (s_tickets s) ts\<rbrakk> \<Longrightarrow> evolves s (s\<lparr> s_host_epoch := e, s_tickets := ts \<rparr>)"
  "evolves s (s\<lparr> s_workspace_ticket := w \<rparr>)" "evolves s (s\<lparr> s_members := m \<rparr>)"
  "ledger_le (s_tickets s) ts \<Longrightarrow> evolves s (s\<lparr> s_members := m, s_tickets := ts \<rparr>)"
  "s_head s \<le> h \<Longrightarrow> evolves s (s\<lparr> s_head := h, s_log := s_log s @ [msg] \<rparr>)"
  "s_head s \<le> h \<Longrightarrow> evolves s (s\<lparr> s_head := h, s_log := s_log s @ [msg], s_caps := c \<rparr>)"
  by (auto simp: evolves_def)

lemma saturating_add_1_le: "e \<le> saturating_add_1 e"
  using saturating_add_1_less [of e] by (cases "e = u64_MAX") (auto simp: saturating_add_1_def)

lemma keeps_refl [simp]: "keeps r r"
  by (simp add: keeps_def)

lemma keeps_trans: "\<lbrakk>keeps a b; keeps b c\<rbrakk> \<Longrightarrow> keeps a c"
  unfolding keeps_def by (meson evolves_trans)

lemma keeps_moves: "keeps r r' \<Longrightarrow> moves ops r r'"
  by (fastforce simp: keeps_def moves_def split: option.splits)

lemma keeps_frame [simp]:
  "keeps r (emit e r') = keeps r r'" "keeps r (bridge_do c r') = keeps r r'"
  "keeps r (deliver_workspace_ticket_to sid t en r') = keeps r r'"
  "keeps r (fold (\<lambda>m. deliver_workspace_ticket_to sid m en) ms r') = keeps r r'"
  "keeps r (r'\<lparr> r_store := st \<rparr>) = keeps r r'"
  by (simp_all add: keeps_def)

lemma keeps_remove: "keeps r r' \<Longrightarrow> keeps r (remove_session sid r')"
  by (simp add: keeps_def)

lemma keeps_put: "\<lbrakk>keeps r r'; get_session r sid = Some s; evolves s s'\<rbrakk> \<Longrightarrow> keeps r (put_session sid s' r')"
  by (simp add: keeps_def)

lemma keeps_store_try:
  "\<lbrakk>keeps r r'; \<And>v st. keeps r (snd (k v (r'\<lparr> r_store := st \<rparr>)))\<rbrakk> \<Longrightarrow> keeps r (snd (store_try io r' k))"
  by (auto simp: store_try_def Let_def split: prod.splits sum.splits)

lemmas keeps_intros = keeps_store_try keeps_remove keeps_put evolves_update

subsection \<open>Every operation moves sessions along the order\<close>

lemma issue_ticket_keeps: "keeps r (snd (issue_ticket ev ops now tid sid cap ex r))"
  unfolding issue_ticket_def lock_local_session_def
  by (auto split: option.splits intro!: keeps_intros simp: Let_def)

lemma revoke_ticket_keeps: "keeps r (snd (revoke_ticket ops sid tid r))"
  unfolding revoke_ticket_def lock_local_session_def
  by (auto split: option.splits intro!: keeps_intros ledger_le_update simp: Let_def ticket_le_def)

lemma leave_keeps: "keeps r (snd (leave ops sid p r))"
  unfolding leave_def by (auto split: option.splits intro!: keeps_intros simp: Let_def)

lemma remove_member_keeps: "keeps r (snd (remove_member ops sid p r))"
  unfolding remove_member_def lock_local_session_def
  by (auto split: option.splits intro!: keeps_intros simp: Let_def)

lemma sequence_message_keeps:
  "get_session r sid = Some s \<Longrightarrow> keeps r (snd (sequence_message ev ops now sid s peer kind action payload au r))"
  unfolding sequence_message_def
  by (auto simp: Let_def session_message_new_def apply_capability_def
      split: sum.splits prod.splits option.splits intro!: keeps_intros less_imp_le seq_next_less)

lemma send_keeps: "keeps r (snd (send ev ops now sid peer kind action payload au ans r))"
  unfolding send_def forward_remote_send_def
  by (auto simp: Let_def split: option.splits sum.splits bridge_error.splits intro!: sequence_message_keeps)

lemma publish_workspace_ticket_keeps: "keeps r (snd (publish_workspace_ticket ops sid en r))"
  unfolding publish_workspace_ticket_def lock_local_session_def
  by (auto split: option.splits intro!: keeps_intros simp: Let_def)

lemma admit_peer_keeps:
  "get_session r sid = Some s \<Longrightarrow> keeps r (snd (admit_peer ops sid s peer c r))"
  unfolding admit_peer_def
  by (auto split: option.splits prod.splits intro!: keeps_intros ledger_le_record_use simp: Let_def)

lemma auto_grant_on_join_keeps: "keeps r (auto_grant_on_join ev ops now sid p c r)"
  unfolding auto_grant_on_join_def by (rule send_keeps)

lemma ensure_member_keeps: "keeps r (snd (ensure_member ev ops now sid peer c r))"
  using admit_peer_keeps [of r sid _ ops peer c] unfolding ensure_member_def
  by (auto split: option.splits prod.splits sum.splits simp: Let_def
      intro: keeps_trans [OF _ auto_grant_on_join_keeps] auto_grant_on_join_keeps)

lemma apply_inbound_keeps:
  assumes "\<And>s. get_session r sid = Some s \<Longrightarrow> s_kind s = Remote"
  shows "keeps r (apply_inbound_mirror_message ev ops sid m r)"
  using assms unfolding apply_inbound_mirror_message_def
  by (auto simp: Let_def evolves_def set_insert_at split: option.splits prod.splits sum.splits intro!: keeps_put)

lemma host_closed_session_keeps: "keeps r (snd (host_closed_session ops sid r))"
  unfolding host_closed_session_def by (auto split: option.splits intro!: keeps_intros)

lemma advance_host_epoch_watermark_keeps: "keeps r (snd (advance_host_epoch_watermark ops sid e r))"
  unfolding advance_host_epoch_watermark_def by (auto split: option.splits intro!: keeps_intros)

lemma emit_workspace_ticket_keeps: "keeps r (snd (emit_workspace_ticket ops sid p en r))"
  unfolding emit_workspace_ticket_def lock_remote_session_from_host_def
  by (auto split: option.splits intro!: keeps_intros)

lemma attachment_keeps:
  "keeps r (snd (register_attachment ops sid k pl r))" "keeps r (snd (forget_attachment ops sid k r))"
  by (auto simp: register_attachment_def forget_attachment_def split: option.splits intro!: keeps_store_try)

lemma moves_refl [simp]: "moves ops r r"
  by (simp add: keeps_moves)

lemma moves_frame [simp]:
  "moves ops r (emit e r') = moves ops r r'" "moves ops r (bridge_do c r') = moves ops r r'"
  "moves ops r (r'\<lparr> r_store := st \<rparr>) = moves ops r r'"
  by (simp_all add: moves_def)

lemma moves_new:
  "\<lbrakk>moves ops r r'; get_session r sid = None; born ops (r_store r) sid s\<rbrakk> \<Longrightarrow> moves ops r (put_session sid s r')"
  by (simp add: moves_def)

lemma moves_store_try:
  "\<lbrakk>moves ops r r'; \<And>v st. io (r_store r') = (Inr v, st) \<Longrightarrow> moves ops r (snd (k v (r'\<lparr> r_store := st \<rparr>)))\<rbrakk>
    \<Longrightarrow> moves ops r (snd (store_try io r' k))"
  by (auto simp: store_try_def Let_def split: prod.splits sum.splits)

lemma host_resume_keeps:
  "get_session r sid = Some s \<Longrightarrow> keeps r (snd (host_resume ev ops now tid p sid s cap ex r))"
  unfolding host_resume_def
  by (auto split: prod.splits intro!: keeps_intros saturating_add_1_le simp: Let_def)

lemma host_create_moves:
  "get_session r sid = None \<Longrightarrow> moves ops r (snd (host_create ev ops now tid p sid cap ex r))"
  unfolding host_create_def
  by (auto split: prod.splits intro!: moves_store_try moves_new simp: Let_def born_def session_new_def)

lemma registry_host_moves: "moves ops r (snd (registry_host ev ops now dr tid p rq cap ex r))"
  unfolding registry_host_def
  by (auto split: option.splits intro!: host_create_moves keeps_moves [OF host_resume_keeps] dest: find_Some_set)

lemma join_member_keeps: "get_session r sid = Some s \<Longrightarrow> keeps r (snd (join_member ops sid s peer r))"
  unfolding join_member_def by (auto intro!: keeps_intros simp: Let_def)

lemma join_member_moves:
  "\<lbrakk>moves ops r r1; get_session r sid = None; born ops (r_store r) sid s\<rbrakk>
    \<Longrightarrow> moves ops r (snd (join_member ops sid s peer r1))"
  unfolding join_member_def by (auto intro!: moves_store_try moves_new simp: Let_def born_def)

lemma remote_mirror_born: "born ops st sid (remote_mirror sid hst e)"
  by (simp add: born_def remote_mirror_def session_new_def)

lemma rollback_moves: "moves ops r r' \<Longrightarrow> moves ops r (rollback_remote_mirror ops sid r')"
  by (simp add: rollback_remote_mirror_def Let_def moves_def split: prod.splits)

lemma materialise_moves:
  "get_session r (st_session_id t) = None \<Longrightarrow> moves ops r (snd (materialise_remote_session ev ops sub t peer r))"
  unfolding materialise_remote_session_def
  by (auto simp: Let_def remote_mirror_born split: sum.splits intro!: moves_store_try moves_new rollback_moves)

lemma join_moves: "moves ops r (snd (join ev ops sub raw peer r))"
proof (cases "parse_ticket ev raw")
  case (Inr t)
  have "moves ops r (case x of Inl e \<Rightarrow> r1 | Inr s \<Rightarrow> snd (join_member ops (st_session_id t) s peer r1))"
    if "materialise_remote_session ev ops sub t peer r = (x, r1)" "get_session r (st_session_id t) = None" for x r1
    using that materialise_moves [OF that(2), of ops ev sub peer] materialise_Inr [of ev ops sub t peer r]
    by (auto intro!: join_member_moves simp: remote_mirror_born split: sum.splits)
  then show ?thesis
    using Inr by (fastforce simp: join_def Let_def split: option.splits prod.splits sum.splits
        intro: keeps_moves [OF join_member_keeps])
qed (simp add: join_def)

lemma reg_step_moves:
  assumes "enabled op r"
  shows "moves ops r (reg_step ev ops op r)"
  using assms
  by (cases op) (simp_all del: enabled.simps(1) add: registry_host_moves issue_ticket_keeps revoke_ticket_keeps join_moves
      leave_keeps remove_member_keeps ensure_member_keeps send_keeps publish_workspace_ticket_keeps
      host_closed_session_keeps advance_host_epoch_watermark_keeps emit_workspace_ticket_keeps
      attachment_keeps apply_inbound_keeps enabled_inbound keeps_moves)

end
