(* ===== verification/Epochs.thy ===== *)
theory Epochs
  imports Evolution
begin

text \<open>
  Consequences of the order on sessions over whole runs: revocation of a ticket is permanent
  while its session lives, and a session id that is closed and hosted again starts above
  every epoch its earlier incarnations used.
\<close>

lemma movesD:
  assumes "moves ops r r'" "get_session r' sid = Some s'"
  shows "get_session r sid = Some s \<Longrightarrow> evolves s s'" "get_session r sid = None \<Longrightarrow> born ops (r_store r) sid s'"
proof -
  have "case get_session r sid of None \<Rightarrow> born ops (r_store r) sid s' | Some s \<Rightarrow> evolves s s'"
    using assms unfolding moves_def by blast
  then show "get_session r sid = Some s \<Longrightarrow> evolves s s'" "get_session r sid = None \<Longrightarrow> born ops (r_store r) sid s'"
    by simp_all
qed

subsection \<open>Runs that keep a session\<close>

fun stays :: "session_id \<Rightarrow> 'k env \<Rightarrow> 's store_ops \<Rightarrow> reg_op list \<Rightarrow> ('s, 'k) registry \<Rightarrow> bool" where
  "stays sid ev ops [] r \<longleftrightarrow> get_session r sid \<noteq> None"
| "stays sid ev ops (op # cs) r \<longleftrightarrow> get_session r sid \<noteq> None \<and> stays sid ev ops cs (reg_step ev ops op r)"

lemma run_evolves:
  assumes "reg_run ev ops cs r = Some r'" "stays sid ev ops cs r"
    and "get_session r sid = Some s" "get_session r' sid = Some s'"
  shows "evolves s s'"
  using assms
proof (induction cs arbitrary: r s)
  case (Cons op cs)
  then obtain t where run: "enabled op r" "reg_run ev ops cs (reg_step ev ops op r) = Some r'"
      and t: "get_session (reg_step ev ops op r) sid = Some t"
    by (cases cs) (auto split: if_splits)
  have "evolves s t" using movesD(1) [OF reg_step_moves [OF run(1)] t Cons.prems(3)] .
  moreover have "evolves t s'" using Cons.IH [OF run(2) _ t Cons.prems(4)] Cons.prems(2) by simp
  ultimately show ?case by (rule evolves_trans)
qed simp

subsection \<open>Revocation\<close>

lemma position_of_Some: "position_of tid ts = Some i \<Longrightarrow> i < length ts \<and> te_ticket_id (ts ! i) = tid"
  by (induction ts arbitrary: i) (auto split: if_splits)

lemma revoke_ticket_Inr:
  assumes "revoke_ticket ops sid tid r = (Inr (), r')"
  obtains s i where "get_session r' sid = Some s" "s_kind s = Local" "i < length (s_tickets s)"
    and "te_ticket_id (s_tickets s ! i) = tid" "te_status (s_tickets s ! i) = Revoked"
proof -
  obtain s where s: "get_session r sid = Some s" "s_kind s = Local"
    using assms by (auto simp: revoke_ticket_def lock_local_session_def split: option.splits if_splits)
  obtain i where i: "position_of tid (s_tickets s) = Some i"
    using assms s by (auto simp: revoke_ticket_def lock_local_session_def split: option.splits)
  note pos = position_of_Some [OF i]
  show thesis
  proof (cases "te_status (s_tickets s ! i) = Revoked")
    case True
    then have "r' = r" using assms s i by (simp add: revoke_ticket_def lock_local_session_def)
    then show ?thesis using that [of s i] s pos True by simp
  next
    case False
    then have "get_session r' sid = Some (s\<lparr> s_tickets := (s_tickets s)[i := (s_tickets s ! i)\<lparr> te_status := Revoked \<rparr>] \<rparr>)"
      using assms s i by (auto simp: revoke_ticket_def lock_local_session_def store_try_def Let_def split: prod.splits sum.splits)
    from that [OF this, of i] show ?thesis using s pos by simp
  qed
qed

lemma revoked_not_admissible:
  assumes "i < length (s_tickets s)" "te_ticket_id (s_tickets s ! i) = cc_ticket_id c"
    and "te_status (s_tickets s ! i) = Revoked" "s_kind s = Local" "distinct (map te_ticket_id (s_tickets s))"
  shows "\<not> ticket_admissible s c"
proof
  assume "ticket_admissible s c"
  then obtain j where "j < length (s_tickets s)" "te_ticket_id (s_tickets s ! j) = cc_ticket_id c"
      "te_status (s_tickets s ! j) = Active"
    using assms(4) by (auto simp: ticket_admissible_def list_ex_iff in_set_conv_nth)
  with assms(1-3,5) show False
    by (metis length_map nth_eq_iff_index_eq nth_map ticket_status.distinct(1))
qed

lemma not_admissible_refused:
  assumes "get_session r sid = Some s" "\<not> ticket_admissible s c"
  shows "\<exists>e. ensure_member ev ops now sid peer (Some c) r = (Inl e, r)"
  using assms by (auto simp: ensure_member_def split: sum.splits)

lemma evolves_revoked:
  assumes "evolves s s'" "i < length (s_tickets s)" "te_status (s_tickets s ! i) = Revoked"
  shows "i < length (s_tickets s')" "te_ticket_id (s_tickets s' ! i) = te_ticket_id (s_tickets s ! i)"
    "te_status (s_tickets s' ! i) = Revoked"
  using assms by (auto simp: evolves_def ledger_le_def ticket_le_def)

subsection \<open>Epoch floors of the in-memory store\<close>

text \<open>Floors never sink, and they stay above the epoch of every stored record.\<close>

definition floors_ok :: "memory_store \<Rightarrow> bool" where
  "floors_ok st \<longleftrightarrow> (\<forall>i a. mem_rec st i = Some a \<longrightarrow> sr_host_epoch a \<noteq> u64_MAX \<longrightarrow> sr_host_epoch a < mem_floor st i)"

definition mem_le :: "memory_store \<Rightarrow> memory_store \<Rightarrow> bool" where
  "mem_le st st' \<longleftrightarrow> (\<forall>i. mem_floor st i \<le> mem_floor st' i) \<and> (floors_ok st \<longrightarrow> floors_ok st')"

lemma mem_le_refl [simp]: "mem_le st st"
  by (simp add: mem_le_def)

lemma mem_le_trans: "\<lbrakk>mem_le a b; mem_le b c\<rbrakk> \<Longrightarrow> mem_le a c"
  unfolding mem_le_def by (meson order_trans)

lemma mem_update_record_le:
  "(\<And>r. sr_host_epoch (f r) = sr_host_epoch r) \<Longrightarrow> mem_le st (snd (mem_update_record i f st))"
  by (auto simp: mem_update_record_def mem_le_def floors_ok_def mem_rec_def update_conv' split: option.splits)

lemma mem_create_le: "mem_le st (snd (mem_create a st))"
  using mem_create_Inr [of a st "snd (mem_create a st)"]
  by (auto simp: mem_create_def Let_def mem_le_def floors_ok_def less_max_iff_disj less_add_1)

lemma mem_bump_le: "mem_le st (snd (mem_bump_host_epoch i e st))"
  using mem_bump_Inr [of i e st "snd (mem_bump_host_epoch i e st)"]
  by (auto simp: mem_bump_host_epoch_def Let_def mem_le_def floors_ok_def less_max_iff_disj less_add_1)

lemma mem_delete_le: "mem_le st (snd (mem_delete i st))"
  by (auto simp: mem_delete_def mem_le_def floors_ok_def mem_rec_def delete_conv')

lemma mem_attachment_le:
  "mem_le st (snd (mem_put_attachment i k pl st))" "mem_le st (snd (mem_delete_attachment i k st))"
  by (auto simp: mem_put_attachment_def mem_delete_attachment_def mem_le_def floors_ok_def mem_rec_def update_conv'
      split: option.splits)

lemma memory_ops_le:
  "mem_le st (snd (so_create memory_ops a st))" "mem_le st (snd (so_append memory_ops i m st))"
  "mem_le st (snd (so_bump_host_epoch memory_ops i e st))" "mem_le st (snd (so_epoch_floor memory_ops i st))"
  "mem_le st (snd (so_put_tickets memory_ops i ts st))" "mem_le st (snd (so_put_workspace_ticket memory_ops i w st))"
  "mem_le st (snd (so_add_member memory_ops i p st))" "mem_le st (snd (so_remove_member memory_ops i q st))"
  "mem_le st (snd (so_delete memory_ops i st))" "mem_le st (snd (so_put_attachment memory_ops i k pl st))"
  "mem_le st (snd (so_delete_attachment memory_ops i k st))"
  by (simp_all add: memory_ops_def mem_append_def mem_put_tickets_def mem_put_workspace_ticket_def mem_epoch_floor_def
      mem_add_member_def mem_remove_member_def mem_update_record_le mem_create_le mem_bump_le mem_delete_le mem_attachment_le)

lemma store_try_le:
  assumes "mem_le st0 (r_store r)" "\<And>st. mem_le st (snd (io st))"
    and "\<And>v st. mem_le st0 st \<Longrightarrow> mem_le st0 (r_store (snd (k v (r\<lparr> r_store := st \<rparr>))))"
  shows "mem_le st0 (r_store (snd (store_try io r k)))"
proof -
  have "mem_le st0 (snd (io (r_store r)))" using assms(1,2) mem_le_trans by blast
  then show ?thesis using assms(3) by (auto simp: store_try_def Let_def split: prod.splits sum.splits)
qed

lemmas le_intros = store_try_le memory_ops_le

lemma host_le: "mem_le (r_store r) (r_store (snd (registry_host ev memory_ops now dr tid p rq cap ex r)))"
  unfolding registry_host_def host_resume_def host_create_def
  by (auto simp: Let_def split: option.splits prod.splits intro!: le_intros)

lemma ticket_ops_le:
  "mem_le (r_store r) (r_store (snd (issue_ticket ev memory_ops now tid sid cap ex r)))"
  "mem_le (r_store r) (r_store (snd (revoke_ticket memory_ops sid tid r)))"
  unfolding issue_ticket_def revoke_ticket_def by (auto simp: Let_def split: sum.splits option.splits intro!: le_intros)

lemma member_ops_le:
  "mem_le (r_store r) (r_store (snd (leave memory_ops sid p r)))"
  "mem_le (r_store r) (r_store (snd (remove_member memory_ops sid p r)))"
  unfolding leave_def remove_member_def by (auto simp: Let_def split: sum.splits option.splits intro!: le_intros)

lemma send_le:
  "mem_le st0 (r_store r) \<Longrightarrow> mem_le st0 (r_store (snd (send ev memory_ops now sid peer kind action payload au ans r)))"
  unfolding send_def sequence_message_def forward_remote_send_def
  by (auto simp: Let_def split: sum.splits prod.splits option.splits bridge_error.splits intro!: le_intros)

lemma envelope_ops_le:
  "mem_le (r_store r) (r_store (snd (publish_workspace_ticket memory_ops sid en r)))"
  "mem_le (r_store r) (r_store (snd (emit_workspace_ticket memory_ops sid p en r)))"
  unfolding publish_workspace_ticket_def emit_workspace_ticket_def
  by (auto simp: Let_def split: sum.splits intro!: le_intros)

lemma admit_peer_le: "mem_le (r_store r) (r_store (snd (admit_peer memory_ops sid s peer c r)))"
proof -
  have "mem_le st0 st2" if "mem_le st0 st1" "so_put_tickets memory_ops sid ts st1 = (x, st2)" for st0 st1 st2 ts x
    using that memory_ops_le(5) [of st1 sid ts] mem_le_trans by fastforce
  then show ?thesis unfolding admit_peer_def
    by (auto simp: Let_def split: option.splits prod.splits intro!: le_intros)
qed

lemma ensure_member_le: "mem_le (r_store r) (r_store (snd (ensure_member ev memory_ops now sid peer c r)))"
proof -
  have "mem_le (r_store r) (r_store r1)" if "admit_peer memory_ops sid s peer c r = (x, r1)" for s x r1
    using admit_peer_le [of r sid s peer c] that by simp
  then show ?thesis unfolding ensure_member_def auto_grant_on_join_def
    by (auto simp: Let_def split: option.splits prod.splits sum.splits intro!: send_le)
qed

lemma join_member_le: "mem_le st0 (r_store r) \<Longrightarrow> mem_le st0 (r_store (snd (join_member memory_ops sid s peer r)))"
  unfolding join_member_def by (auto simp: Let_def intro!: le_intros)

lemma rollback_le: "mem_le st0 (r_store r) \<Longrightarrow> mem_le st0 (r_store (rollback_remote_mirror memory_ops sid r))"
  using memory_ops_le(9) [of "r_store r" sid] mem_le_trans
  by (fastforce simp: rollback_remote_mirror_def Let_def split: prod.splits)

lemma join_le: "mem_le (r_store r) (r_store (snd (join ev memory_ops sub raw peer r)))"
proof -
  have "mem_le (r_store r) (r_store (snd (materialise_remote_session ev memory_ops sub t peer r)))" for t
    unfolding materialise_remote_session_def
    by (auto simp: Let_def split: sum.splits intro!: le_intros rollback_le)
  then have "mem_le (r_store r) (r_store r1)" if "materialise_remote_session ev memory_ops sub t peer r = (x, r1)" for t x r1
    using that by (metis snd_conv)
  then show ?thesis unfolding join_def
    by (auto simp: Let_def split: sum.splits option.splits prod.splits intro!: join_member_le)
qed

lemma mirror_ops_le:
  "mem_le (r_store r) (r_store (apply_inbound_mirror_message ev memory_ops sid m r))"
  "mem_le (r_store r) (r_store (snd (host_closed_session memory_ops sid r)))"
  "mem_le (r_store r) (r_store (snd (advance_host_epoch_watermark memory_ops sid e r)))"
  "mem_le (r_store r) (r_store (snd (register_attachment memory_ops sid kd pl r)))"
  "mem_le (r_store r) (r_store (snd (forget_attachment memory_ops sid kd r)))"
  using memory_ops_le(2) [of "r_store r" sid m]
  unfolding apply_inbound_mirror_message_def host_closed_session_def advance_host_epoch_watermark_def
    register_attachment_def forget_attachment_def
  by (auto simp: Let_def split: sum.splits option.splits prod.splits intro!: le_intros)

lemma reg_step_le: "mem_le (r_store r) (r_store (reg_step ev memory_ops op r))"
  by (cases op) (simp_all add: host_le ticket_ops_le member_ops_le send_le envelope_ops_le ensure_member_le
      join_le mirror_ops_le)

lemma reg_run_le: "reg_run ev memory_ops cs r = Some r' \<Longrightarrow> mem_le (r_store r) (r_store r')"
proof (induction cs arbitrary: r)
  case (Cons op cs)
  then show ?case using reg_step_le [of r ev op] mem_le_trans by (fastforce split: if_splits)
qed simp

lemma reachable_floors: "reachable ev memory_ops memory_new r \<Longrightarrow> floors_ok (r_store r)"
proof (induction rule: reachable.induct)
  case (start r) then show ?case by (simp add: floors_ok_def mem_rec_def memory_new_def)
next
  case (step r op) then show ?case using reg_step_le [of r ev op] by (simp add: mem_le_def)
qed

lemma rehosted_above:
  assumes "reg_run ev memory_ops cs r = Some r'" "b \<le> mem_floor (r_store r) sid"
    and "\<And>s. get_session r sid = Some s \<Longrightarrow> s_kind s = Local \<Longrightarrow> b \<le> s_host_epoch s"
    and "get_session r' sid = Some s'" "s_kind s' = Local"
  shows "b \<le> s_host_epoch s'"
  using assms
proof (induction cs arbitrary: r)
  case (Cons op cs)
  let ?r = "reg_step ev memory_ops op r"
  have run: "enabled op r" "reg_run ev memory_ops cs ?r = Some r'"
    using Cons.prems(1) by (auto split: if_splits)
  have "b \<le> mem_floor (r_store ?r) sid"
    using Cons.prems(2) reg_step_le [of r ev op] by (auto simp: mem_le_def intro: order_trans)
  moreover have "b \<le> s_host_epoch t" if t: "get_session ?r sid = Some t" "s_kind t = Local" for t
  proof (cases "get_session r sid")
    case None
    from movesD(2) [OF reg_step_moves [OF run(1)] t(1) None] t(2) Cons.prems(2) show ?thesis
      by (simp add: born_def memory_ops_def mem_epoch_floor_def mem_floor_def)
  next
    case (Some s)
    from movesD(1) [OF reg_step_moves [OF run(1)] t(1) Some] t(2) Cons.prems(3) [OF Some] show ?thesis
      by (auto simp: evolves_def intro: order_trans)
  qed
  ultimately show ?case using Cons.IH [OF run(2) _ _ Cons.prems(4,5)] by blast
qed simp

subsection \<open>Properties\<close>

text \<open>C28: the history of a live session is append-only.  Whatever operation runs in whatever
  registry, a session that is there before and after keeps its id, host and kind; its head and
  its host epoch do not decrease; no logged message disappears, and a hosted log is extended
  at its end only; the ticket ledger keeps every entry at its place with its capability and
  expiry, never turns a revoked entry active again, and only extends who used it.\<close>

theorem session_history_append_only:
  assumes "enabled op r" "get_session r sid = Some s" "get_session (reg_step ev ops op r) sid = Some s'"
  shows "evolves s s'"
  by (rule movesD(1) [OF reg_step_moves [OF assms(1)] assms(3,2)])

definition sample_send :: reg_op where
  "sample_send = OpSend 6 (SessionId 9) sample_host Chat ''chat.message'' [104] ALocal (Inl BSendTimeout)"

lemma sample_run_unfold: "sample_run = reg_step sample_env memory_ops sample_send
    (reg_step sample_env memory_ops (OpHost 5 [] (TicketId 3) sample_host (Some (SessionId 9)) ReadWrite 0) sample_registry)"
  by (simp add: sample_run_def sample_steps_def sample_send_def)

lemma sample_hosted:
  "\<exists>s. get_session (reg_step sample_env memory_ops (OpHost 5 [] (TicketId 3) sample_host (Some (SessionId 9)) ReadWrite 0)
      sample_registry) (SessionId 9) = Some s \<and> s_log s = []"
  by (simp add: sample_defs host_eval)

theorem session_history_append_only_witness:
  "\<exists>r s s'. get_session r (SessionId 9) = Some s \<and> s_log s = []
    \<and> get_session (reg_step sample_env memory_ops sample_send r) (SessionId 9) = Some s'
    \<and> length (s_log s') = 1 \<and> evolves s s'"
  using sample_hosted sample_run_session
    session_history_append_only [of sample_send _ "SessionId 9" _ sample_env memory_ops]
  unfolding sample_run_unfold by (fastforce simp: sample_send_def)

text \<open>C3: a revoked ticket never admits again.  Once \<open>revoke_ticket\<close> has returned Ok, then after
  any further operations that keep the session, an announcement that presents the ticket is
  refused without any effect, whatever capability, expiry or signature it claims; the ids of
  the issued tickets being distinct.\<close>

theorem revoked_ticket_never_admits:
  assumes "revoke_ticket ops sid tid r = (Inr (), r1)"
    and "reg_run ev ops cs r1 = Some r2" "stays sid ev ops cs r1"
    and "\<And>s. get_session r2 sid = Some s \<Longrightarrow> distinct (map te_ticket_id (s_tickets s))"
    and "cc_ticket_id c = tid"
  shows "\<exists>e. ensure_member ev ops now sid peer (Some c) r2 = (Inl e, r2)"
proof -
  obtain s i where s: "get_session r1 sid = Some s" "s_kind s = Local" "i < length (s_tickets s)"
      and t: "te_ticket_id (s_tickets s ! i) = tid" "te_status (s_tickets s ! i) = Revoked"
    by (rule revoke_ticket_Inr [OF assms(1)])
  have "get_session r2 sid \<noteq> None" using assms(2,3)
    by (induction cs arbitrary: r1) (auto split: if_splits)
  then obtain s' where s': "get_session r2 sid = Some s'" by blast
  have ev: "evolves s s'" by (rule run_evolves [OF assms(2,3) s(1) s'])
  show ?thesis
    using not_admissible_refused [OF s' revoked_not_admissible [OF evolves_revoked(1) [OF ev s(3) t(2)]]]
      evolves_revoked(2,3) [OF ev s(3) t(2)] t(1) s(2) ev assms(4) [OF s'] assms(5)
    by (simp add: evolves_def)
qed

definition sample_claim :: cap_claim where
  "sample_claim = \<lparr> cc_ticket_id = TicketId 3, cc_granted_cap = ReadWrite, cc_expiry_ms = 0,
    cc_host_epoch = 0, cc_cap_sig = 1 \<rparr>"

lemma sample_revoked:
  "\<exists>r s. revoke_ticket memory_ops (SessionId 9) (TicketId 3) sample_run = (Inr (), r)
    \<and> get_session r (SessionId 9) = Some s \<and> map te_ticket_id (s_tickets s) = [TicketId 3]"
  by (simp add: sample_defs host_eval)
    (simp add: send_eval revoke_ticket_def lock_local_session_def store_try_def ledger_entry_def)

theorem revoked_ticket_never_admits_witness:
  "\<exists>r1 e. revoke_ticket memory_ops (SessionId 9) (TicketId 3) sample_run = (Inr (), r1)
    \<and> ensure_member sample_env memory_ops 8 (SessionId 9) \<lparr> pi_id = PeerId 5, pi_display_name = ''bob'' \<rparr>
        (Some sample_claim) r1 = (Inl e, r1)"
proof -
  obtain r s where "revoke_ticket memory_ops (SessionId 9) (TicketId 3) sample_run = (Inr (), r)"
      "get_session r (SessionId 9) = Some s" "map te_ticket_id (s_tickets s) = [TicketId 3]"
    using sample_revoked by metis
  with revoked_ticket_never_admits [OF this(1), where ev = sample_env and cs = "[]" and c = sample_claim and ?r2.0 = r]
  show ?thesis by (simp add: sample_claim_def)
qed

text \<open>C8: a session id that is closed and hosted again starts in a fresh epoch.  From any
  registry reachable with the in-memory store, let the session disappear and later be hosted
  again here: its epoch is then strictly above the one it had, so a close or beacon frame
  signed in the earlier incarnation is below the new watermark (short of the last
  representable epoch).\<close>

theorem rehosted_session_has_fresh_epoch:
  assumes "reachable ev memory_ops memory_new r" "get_session r sid = Some s" "s_host_epoch s \<noteq> u64_MAX"
    and "reg_run ev memory_ops cs1 r = Some r1" "get_session r1 sid = None"
    and "reg_run ev memory_ops cs2 r1 = Some r2" "get_session r2 sid = Some s2" "s_kind s2 = Local"
  shows "s_host_epoch s < s_host_epoch s2"
proof -
  have "agrees mem_rec r" by (rule mem.reachable_agrees [OF assms(1)]) (simp add: mem_rec_def memory_new_def)
  from this assms(2) obtain a where "mem_rec (r_store r) sid = Some a" "record_agrees a (record_of s)"
    by (rule agreesE)
  then have "s_host_epoch s < mem_floor (r_store r) sid"
    using reachable_floors [OF assms(1)] assms(3) unfolding floors_ok_def record_agrees_iff by metis
  also have "\<dots> \<le> mem_floor (r_store r1) sid" using reg_run_le [OF assms(4)] by (simp add: mem_le_def)
  also have "\<dots> \<le> s_host_epoch s2"
    by (rule rehosted_above [OF assms(6) order_refl _ assms(7,8)]) (use assms(5) in simp)
  finally show ?thesis .
qed

definition sample_leave :: reg_op where
  "sample_leave = OpLeave (SessionId 9) (PeerId 7)"

definition sample_rehost :: reg_op where
  "sample_rehost = OpHost 9 [] (TicketId 4) sample_host (Some (SessionId 9)) Read 0"

lemma sample_rehosted:
  "\<exists>s r1 r2 s2. get_session sample_run (SessionId 9) = Some s \<and> s_host_epoch s = 0
    \<and> reg_run sample_env memory_ops [sample_leave] sample_run = Some r1 \<and> get_session r1 (SessionId 9) = None
    \<and> reg_run sample_env memory_ops [sample_rehost] r1 = Some r2
    \<and> get_session r2 (SessionId 9) = Some s2 \<and> s_kind s2 = Local"
  by (simp add: sample_defs host_eval sample_leave_def sample_rehost_def)
    (simp add: send_eval leave_def store_try_def host_eval)

theorem rehosted_session_has_fresh_epoch_witness:
  "\<exists>s r1 r2 s2. get_session sample_run (SessionId 9) = Some s
    \<and> reg_run sample_env memory_ops [sample_leave] sample_run = Some r1
    \<and> reg_run sample_env memory_ops [sample_rehost] r1 = Some r2
    \<and> get_session r2 (SessionId 9) = Some s2 \<and> s_host_epoch s < s_host_epoch s2"
proof -
  obtain s r1 r2 s2 where w: "get_session sample_run (SessionId 9) = Some s" "s_host_epoch s = 0"
      "reg_run sample_env memory_ops [sample_leave] sample_run = Some r1" "get_session r1 (SessionId 9) = None"
      "reg_run sample_env memory_ops [sample_rehost] r1 = Some r2" "get_session r2 (SessionId 9) = Some s2" "s_kind s2 = Local"
    using sample_rehosted by blast
  from rehosted_session_has_fresh_epoch [OF sample_run_reachable w(1) _ w(3-7)] w show ?thesis
    by (auto simp: u64_MAX_def)
qed

end
