(* ===== verification/Logs.thy ===== *)
theory Logs
  imports Epochs
begin

text \<open>
  What a reachable log contains.  A hosted log is numbered without gaps from 1 up to the head,
  and every entry passed the gates of \<open>send\<close>; every entry of a mirror passed both signature
  checks.  Both are session invariants, so the operations need no further argument.  Then the
  surfaces that read logs: \<open>subscribe\<close> and the gossip replay \<open>log_since\<close>.
\<close>

subsection \<open>Hosted logs\<close>

definition gapless :: "session_message list \<Rightarrow> seq \<Rightarrow> bool" where
  "gapless log head \<longleftrightarrow> (\<forall>i<length log. m_seq (log ! i) = Seq (of_nat (Suc i)))
    \<and> head = Seq (of_nat (length log)) \<and> length log < 2 ^ 64"

definition host_log_ok :: "'k env \<Rightarrow> session \<Rightarrow> bool" where
  "host_log_ok ev s \<longleftrightarrow> (s_kind s = Local \<longrightarrow> gapless (s_log s) (s_head s) \<and> (\<forall>m\<in>set (s_log s). entry_ok ev m))"

lemma gapless_Nil: "gapless [] Seq_ZERO"
  by (simp add: gapless_def Seq_ZERO_def)

lemma gapless_snoc:
  assumes "gapless log head" "seq_next head = Some (m_seq m)"
  shows "gapless (log @ [m]) (m_seq m)"
proof -
  let ?n = "length log"
  have n: "head = Seq (of_nat ?n)" "?n < 2 ^ 64" using assms(1) by (simp_all add: gapless_def)
  then have nmax: "of_nat ?n \<noteq> u64_MAX" and q: "m_seq m = Seq (of_nat (Suc ?n))"
    using assms(2) by (auto simp: seq_next_def checked_add_1_def add.commute split: if_splits)
  have "Suc ?n \<noteq> 2 ^ 64"
  proof
    assume "Suc ?n = 2 ^ 64"
    then have "of_nat (Suc ?n) = (0 :: u64)" by (simp only: of_nat_power) simp
    then have "(of_nat ?n :: u64) + 1 = 0" by (simp add: add.commute)
    then show False using nmax by (simp add: u64_MAX_def eq_neg_iff_add_eq_0)
  qed
  with n assms(1) q show ?thesis by (auto simp: gapless_def nth_append less_Suc_eq)
qed

interpretation hosted: session_invariant ev "\<lambda>sid. host_log_ok ev" for ev :: "'k env"
  by unfold_locales
    (auto simp: host_log_ok_def session_new_def remote_mirror_def gapless_Nil gapless_snoc commit_def apply_capability_def Let_def)

subsection \<open>Mirrored logs\<close>

definition mirror_log_ok :: "'k env \<Rightarrow> session_id \<Rightarrow> session \<Rightarrow> bool" where
  "mirror_log_ok ev sid s \<longleftrightarrow> (s_kind s = Remote \<longrightarrow> (\<forall>m\<in>set (s_log s).
    verify_message (e_ed ev) sid m (m_signature m) = Inr ()
    \<and> verify_seq (e_ed ev) (s_host s) sid (m_seq m) (m_signature m) (m_host_sig m) = Inr ()))"

interpretation mirrored: session_invariant ev "mirror_log_ok ev" for ev :: "'k env"
  by unfold_locales
    (auto simp: mirror_log_ok_def session_new_def remote_mirror_def commit_def apply_capability_def Let_def)

subsection \<open>Replay from a position\<close>

lemma gapless_filter:
  assumes "gapless log head"
  shows "filter (\<lambda>m. m_seq m > Seq q) log = drop (unat q) log"
proof -
  have seqs: "unat (seq_get (m_seq (log ! i))) = Suc i" if "i < length log" for i
    using assms that by (simp add: gapless_def unat_of_nat del: of_nat_Suc)
  have low: "filter (\<lambda>m. m_seq m > Seq q) (take (unat q) log) = []"
    using seqs by (fastforce simp: filter_empty_conv in_set_conv_nth less_seq_def word_less_nat_alt)
  have high: "filter (\<lambda>m. m_seq m > Seq q) (drop (unat q) log) = drop (unat q) log"
  proof (rule filter_True, rule ballI)
    fix m assume "m \<in> set (drop (unat q) log)"
    then obtain i where "unat q + i < length log" "m = log ! (unat q + i)"
      by (auto simp: in_set_conv_nth less_diff_conv add.commute)
    with seqs [of "unat q + i"] show "m_seq m > Seq q" by (simp add: less_seq_def word_less_nat_alt)
  qed
  have "filter (\<lambda>m. m_seq m > Seq q) (take (unat q) log @ drop (unat q) log) = drop (unat q) log"
    by (simp only: filter_append low high append_Nil)
  then show ?thesis by simp
qed

lemma entry_ok_replayed:
  "\<forall>m\<in>set log. entry_ok ev m \<Longrightarrow>
    filter (\<lambda>m. P m \<and> (m_kind m = System \<longrightarrow> reserved_system_action (m_action m) = None)) log = filter P log"
  by (rule filter_cong) (auto simp: entry_ok_def)

subsection \<open>Properties\<close>

text \<open>C29: sequence numbers of a hosted log have no gap and no repetition.  In every reachable
  registry the log of a hosted session carries exactly the numbers 1, 2, up to the head, in
  this order; and no entry is a reserved system action or larger than what every carrier
  frame can hold.\<close>

theorem hosted_log_gapless:
  assumes "reachable ev ops st r" "get_session r sid = Some s" "s_kind s = Local"
  shows "(\<forall>i<length (s_log s). m_seq (s_log s ! i) = Seq (of_nat (Suc i)))
    \<and> s_head s = Seq (of_nat (length (s_log s)))
    \<and> (\<forall>m\<in>set (s_log s). \<not> (m_kind m = System \<and> reserved_system_action (m_action m) \<noteq> None)
        \<and> message_frame_len (e_serialized_size ev) m \<le> MAX_SESSION_MESSAGE_FRAME)"
  using hosted.invD [OF hosted.reachable_inv [OF assms(1)] assms(2)] assms(3)
  by (simp add: host_log_ok_def gapless_def entry_ok_def)

theorem hosted_log_gapless_witness:
  "\<exists>s. get_session sample_run (SessionId 9) = Some s \<and> length (s_log s) = 1
    \<and> m_seq (s_log s ! 0) = Seq 1 \<and> s_head s = Seq 1"
  using sample_run_session hosted_log_gapless [OF sample_run_reachable, of "SessionId 9"] by fastforce


definition mirror_ed :: "peer_id ed25519" where
  "mirror_ed = open_ed\<lparr> ed_verify_strict := (\<lambda>pk m s. s = 1 \<and>
    (m = sample_bytes sample_body \<or> m = seq_canonical_bytes (SessionId 9) (Seq 1) 1)) \<rparr>"

definition mirror_env :: "peer_id env" where
  "mirror_env = sample_env\<lparr> e_ed := mirror_ed \<rparr>"

definition mirror_registry :: "(memory_store, peer_id) registry" where
  "mirror_registry = sample_registry\<lparr> r_daemon_peer_id := PeerId 5, r_signing_key := None \<rparr>"

definition mirror_steps :: "reg_op list" where
  "mirror_steps = [OpJoin (Inr ()) (encode_ticket sample_b32 (to_codec sd_wire_body) sample_ticket)
      \<lparr> pi_id = PeerId 5, pi_display_name = ''bob'' \<rparr>, OpInbound (SessionId 9) sample_message]"

definition mirror_run :: "(memory_store, peer_id) registry" where
  "mirror_run = foldl (\<lambda>r op. reg_step mirror_env memory_ops op r) mirror_registry mirror_steps"

lemma mirror_parse: "parse_ticket mirror_env (encode_ticket sample_b32 (to_codec sd_wire_body) sample_ticket) = Inr sample_ticket"
  using decode_own_text [OF sample_b32_ok to_codec_ok [OF sd_wire_body], of sample_ticket]
  by (simp add: parse_ticket_def mirror_env_def sample_env_def)

lemmas join_eval = join_def materialise_remote_session_def join_member_def host_peer_id_def remote_mirror_def
  sample_ticket_def mirror_registry_def sample_registry_def session_new_def record_of_def memory_new_def
  registry_defs mem_defs Let_def

lemma mirror_joined:
  "\<exists>s r. r = reg_step mirror_env memory_ops (hd mirror_steps) mirror_registry \<and> get_session r (SessionId 9) = Some s
    \<and> s_kind s = Remote \<and> s_host s = PeerId 7 \<and> s_log s = [] \<and> s_head s = Seq 0 \<and> mem_rec (r_store r) (SessionId 9) \<noteq> None"
  using mirror_parse by (simp add: mirror_steps_def join_eval Seq_ZERO_def mem_rec_def)

lemma mirror_run_unfold: "mirror_run = apply_inbound_mirror_message mirror_env memory_ops (SessionId 9) sample_message
    (reg_step mirror_env memory_ops (hd mirror_steps) mirror_registry)"
  by (simp add: mirror_run_def mirror_steps_def)

lemma mirror_run_reachable: "reachable mirror_env memory_ops memory_new mirror_run"
proof -
  have "reachable mirror_env memory_ops memory_new mirror_registry"
    by (rule reachable.start) (simp_all add: mirror_registry_def sample_registry_def)
  then have "reachable mirror_env memory_ops memory_new (reg_step mirror_env memory_ops (hd mirror_steps) mirror_registry)"
    by (rule reachable.step) (simp add: mirror_steps_def)
  from reachable.step [OF this, of "OpInbound (SessionId 9) sample_message"] mirror_joined show ?thesis
    by (auto simp: mirror_run_unfold is_local_session_def)
qed

lemma sample_body_bytes: "canonical_bytes (SessionId 9) MESSAGE_FORMAT 5 \<lparr> pi_id = PeerId 7, pi_display_name = ''ada'' \<rparr>
    Chat ''chat.message'' [104, 105] = Some (sample_bytes sample_body)"
  by (simp add: sample_bytes_def sample_body_def canonical_bytes_def u32_be_len_def Let_def del: be_bytes.simps)

lemma sample_request: "request_bytes sample_codecs sample_body = Some (sample_bytes sample_body)"
  by (simp add: sample_bytes_def sample_body_def canonical_bytes_def u32_be_len_def Let_def del: be_bytes.simps)

lemma mirror_verifies:
  "verify_message mirror_ed (SessionId 9) sample_message 1 = Inr ()"
  "verify_seq mirror_ed (PeerId 7) (SessionId 9) (Seq 1) 1 1 = Inr ()"
  by (simp_all add: verify_message_def verify_seq_def sample_message_def session_message_new_def mirror_ed_def
      open_ed_def strict_check_def SIGNATURE_UNSIGNED_def sample_body_bytes)

lemma mirror_run_session:
  "\<exists>s. get_session mirror_run (SessionId 9) = Some s \<and> s_kind s = Remote \<and> s_host s = PeerId 7 \<and> s_log s = [sample_message]"
proof -
  obtain s r where r: "r = reg_step mirror_env memory_ops (hd mirror_steps) mirror_registry"
      "get_session r (SessionId 9) = Some s" "s_kind s = Remote" "s_host s = PeerId 7" "s_log s = []"
      "mem_rec (r_store r) (SessionId 9) \<noteq> None" using mirror_joined by blast
  obtain st where "so_append memory_ops (SessionId 9) sample_message (r_store r) = (Inr (), st)"
    using mem.append_ok [OF r(6), of sample_message] by (metis prod.collapse)
  with r mirror_verifies show ?thesis unfolding mirror_run_unfold
    by (simp add: apply_inbound_mirror_message_def Let_def sample_message_def session_message_new_def
        mirror_env_def partition_point_def insert_at_def reserved_system_action_def)
qed


text \<open>Resubscribing from the last seen message continues without a gap and without a
  repetition.  On a hosted session of a reachable registry, \<open>subscribe\<close> with \<open>since = q\<close> replays,
  after the current workspace ticket if there is one, exactly the entries after position \<open>q\<close>.\<close>

theorem subscribe_resumes_exactly:
  assumes "reachable ev ops st r" "get_session r sid = Some s" "s_kind s = Local"
  shows "subscribe r sid (Some (Seq q)) =
    Inr ((case s_workspace_ticket s of None \<Rightarrow> [] | Some w \<Rightarrow> [synthetic_ticket_message (s_host s) w])
      @ drop (unat q) (s_log s))"
  using hosted.invD [OF hosted.reachable_inv [OF assms(1)] assms(2)] assms(2,3)
  by (auto simp: subscribe_def Let_def host_log_ok_def gapless_filter entry_ok_replayed)

theorem subscribe_resumes_exactly_witness:
  "\<exists>s w. get_session sample_run (SessionId 9) = Some s \<and> length (s_log s) = 1
    \<and> subscribe sample_run (SessionId 9) (Some (Seq 0)) = Inr (w @ s_log s)
    \<and> subscribe sample_run (SessionId 9) (Some (Seq 1)) = Inr w"
  using sample_run_session subscribe_resumes_exactly [OF sample_run_reachable, of "SessionId 9"]
  by fastforce

end
