(* ===== verification/Guarantees.thy ===== *)
theory Guarantees
  imports Logs
begin

text \<open>
  What the operations of the registry promise to their callers: the exact effect of an accepted
  and of a rejected send, who may write, who is admitted and with what, that a mirror takes
  what its host sequences, and that mirrors converge.
\<close>

subsection \<open>Send\<close>

lemma send_Inr:
  assumes "send ev ops now sid peer kind action payload au ans r = (Inr m, r')"
    and "get_session r sid = Some s" "s_kind s = Local"
  obtains ts sg q st where "\<not> (kind = System \<and> reserved_system_action action \<noteq> None)"
    and "pi_id peer \<in> s_members s" "can_write s (pi_id peer)"
    and "resolve_authoring ev r now au peer kind action payload sid = Inr (ts, sg)"
    and "seq_next (s_head s) = Some q"
    and "m = session_message_new q ts peer kind action payload sg (sign_seq_for ev r sid q sg)"
    and "message_frame_len (e_serialized_size ev) m \<le> MAX_SESSION_MESSAGE_FRAME"
    and "so_append ops sid m (r_store r) = (Inr (), st)"
    and "r' = (if kind \<noteq> CapabilityKind then bridge_do (CallPublishMessage sid m) else id)
      (emit (EvMessage sid m) (put_session sid (commit (e_cap_action ev) s m) (r\<lparr> r_store := st \<rparr>)))"
proof -
  have gate: "\<not> (kind = System \<and> reserved_system_action action \<noteq> None)" "pi_id peer \<in> s_members s"
    and seq: "sequence_message ev ops now sid s peer kind action payload au r = (Inr m, r')"
    using assms by (auto simp: send_def split: if_splits)
  then obtain ts sg q where auth: "resolve_authoring ev r now au peer kind action payload sid = Inr (ts, sg)"
      and q: "seq_next (s_head s) = Some q" and w: "can_write s (pi_id peer)"
    by (auto simp: sequence_message_def split: if_splits sum.splits prod.splits option.splits)
  let ?m = "session_message_new q ts peer kind action payload sg (sign_seq_for ev r sid q sg)"
  have kind: "m_kind ?m = kind" "m_seq ?m = q" by (simp_all add: session_message_new_def)
  have fits: "message_frame_len (e_serialized_size ev) ?m \<le> MAX_SESSION_MESSAGE_FRAME"
    using seq auth q w gate by (auto simp: sequence_message_def Let_def split: if_splits)
  obtain st where st: "so_append ops sid ?m (r_store r) = (Inr (), st)" "m = ?m"
      and r': "r' = (if kind \<noteq> CapabilityKind then bridge_do (CallPublishMessage sid ?m) else id)
        (emit (EvMessage sid ?m) (put_session sid (commit (e_cap_action ev) s ?m) (r\<lparr> r_store := st \<rparr>)))"
    using seq auth q w gate fits
    by (auto simp: sequence_message_def store_try_def Let_def commit_def kind split: if_splits prod.splits sum.splits)
  show thesis using that [OF gate w auth q st(2)] fits st r' by simp
qed

lemma send_Inl:
  assumes "send ev ops now sid peer kind action payload au ans r = (Inl e, r')"
  shows "r_sessions r' = r_sessions r \<and> r_events r' = r_events r
    \<and> (is_local_session r sid \<noteq> Some False \<longrightarrow> r_outbox r' = r_outbox r)
    \<and> ((\<forall>x. e \<noteq> Storage x) \<longrightarrow> r_store r' = r_store r)"
  using assms
  by (auto simp: send_def sequence_message_def forward_remote_send_def store_try_def Let_def is_local_session_def
      bridge_do_def split: if_splits option.splits sum.splits prod.splits bridge_error.splits)

lemma commit_eq: "commit pc s m = s\<lparr> s_head := m_seq m, s_log := s_log s @ [m],
    s_caps := project_step pc (s_host s) (s_caps s) m \<rparr>"
  by (cases s) (simp add: commit_def apply_capability_def project_step_def)

subsection \<open>Write access\<close>

text \<open>The action a log entry performs on the capability set, if any.\<close>

definition cap_effect :: "capability_action codec \<Rightarrow> peer_id \<Rightarrow> session_message \<Rightarrow> capability_action option" where
  "cap_effect pc hst m =
    (if m_kind m = CapabilityKind \<and> pi_id (m_peer m) = hst
     then (case decode_cap_action pc (m_payload m) of
         Inl _ \<Rightarrow> None
       | Inr a \<Rightarrow> if ca_peer a = hst then None else Some a)
     else None)"

fun cap_after :: "capability_action option \<Rightarrow> capability option" where
  "cap_after None = None"
| "cap_after (Some (Grant p c)) = Some c"
| "cap_after (Some (Revoke p)) = None"

definition concerns :: "peer_id \<Rightarrow> capability_action option \<Rightarrow> bool" where
  "concerns p a \<longleftrightarrow> (case a of None \<Rightarrow> False | Some x \<Rightarrow> ca_peer x = p)"

lemma project_step_effect:
  "project_step pc hst caps m p =
    (if concerns p (cap_effect pc hst m) then cap_after (cap_effect pc hst m) else caps p)"
  by (auto simp: project_step_def apply_capability_to_def cap_effect_def concerns_def
      split: sum.splits capability_action.splits)

lemma foldl_project_last:
  "foldl (project_step pc hst) caps ms p =
    (case find (\<lambda>m. concerns p (cap_effect pc hst m)) (rev ms) of
      None \<Rightarrow> caps p | Some m \<Rightarrow> cap_after (cap_effect pc hst m))"
  by (induction ms rule: rev_induct) (simp_all add: project_step_effect)

lemma log_ok_sort: "log_ok log h \<Longrightarrow> sort_key m_seq log = log"
  by (rule sort_key_id_if_sorted) (simp add: log_ok_def strict_sorted_iff)

subsection \<open>Admission\<close>

lemma ensure_member_Inr:
  assumes "ensure_member ev ops now sid peer (Some c) r = (Inr (), r')"
    and "get_session r sid = Some s" "s_kind s = Local"
  shows "check_claim ev r now sid c = Inr ()" "ticket_admissible s c"
  using assms by (auto simp: ensure_member_def split: sum.splits if_splits)

lemma check_claim_Inr:
  "check_claim ev r now sid c = Inr () \<longleftrightarrow> (cc_expiry_ms c = 0 \<or> now < cc_expiry_ms c)
    \<and> (r_signing_key r \<noteq> None \<longrightarrow> verify_ticket_cap (e_ed ev) (r_daemon_peer_id r) (cc_ticket_id c) sid
        (cc_granted_cap c) (cc_expiry_ms c) (cc_host_epoch c) (cc_cap_sig c) = Inr ())"
  by (auto simp: check_claim_def split: sum.splits verify_error.splits)

lemma admit_peer_Inr:
  assumes "admit_peer ops sid s peer c r = (Inr (), r1)" "get_session r sid = Some s"
  obtains s1 where "get_session r1 sid = Some s1" "s_members s1 = insert (pi_id peer) (s_members s)"
    and "s_log s1 = s_log s" "s_caps s1 = s_caps s" "s_host s1 = s_host s" "s_kind s1 = s_kind s"
    and "r_daemon_peer_id r1 = r_daemon_peer_id r"
  using assms
  by (fastforce simp: admit_peer_def store_try_def Let_def emit_def put_session_def update_conv'
      split: prod.splits sum.splits option.splits)

text \<open>The auto-grant either fails and changes no session, or appends the host's grant.\<close>

lemma auto_grant_cases:
  assumes "get_session r sid = Some s" "s_kind s = Local" "s_host s = r_daemon_peer_id r" "p \<noteq> s_host s"
    and "codec_ok (e_cap_action ev)"
  obtains "get_session (auto_grant_on_join ev ops now sid p cap r) sid = Some s"
    | m s' where "get_session (auto_grant_on_join ev ops now sid p cap r) sid = Some s'" "s_log s' = s_log s @ [m]"
      "cap_effect (e_cap_action ev) (s_host s) m = Some (Grant p cap)" "s_caps s' = (s_caps s)(p \<mapsto> cap)"
      "s_members s' = s_members s"
proof -
  let ?send = "send ev ops now sid (host_author r) CapabilityKind (action_str (Grant p cap))
    (encode_cap_action (e_cap_action ev) (Grant p cap)) ALocal (Inl BSendTimeout) r"
  obtain res r' where send: "?send = (res, r')" by (cases ?send)
  show thesis
  proof (cases res)
    case (Inl e)
    from that(1) send_Inl [OF send [unfolded Inl]] send assms(1) show ?thesis
      by (simp add: auto_grant_on_join_def)
  next
    case (Inr m)
    obtain ts sg q st where m: "m = session_message_new q ts (host_author r) CapabilityKind (action_str (Grant p cap))
          (encode_cap_action (e_cap_action ev) (Grant p cap)) sg (sign_seq_for ev r sid q sg)"
        and r': "r' = (if CapabilityKind \<noteq> CapabilityKind then bridge_do (CallPublishMessage sid m) else id)
          (emit (EvMessage sid m) (put_session sid (commit (e_cap_action ev) s m) (r\<lparr> r_store := st \<rparr>)))"
      by (rule send_Inr [OF send [unfolded Inr] assms(1,2)])
    have eff: "cap_effect (e_cap_action ev) (s_host s) m = Some (Grant p cap)"
      using assms(3-5) by (simp add: m cap_effect_def session_message_new_def host_author_def decode_cap_action_def
          encode_cap_action_def codec_okD)
    have "project_step (e_cap_action ev) (s_host s) (s_caps s) m = (s_caps s)(p \<mapsto> cap)"
      by (rule ext) (simp add: project_step_effect eff concerns_def)
    then show ?thesis using that(2) [OF _ _ eff] send r' by (simp add: auto_grant_on_join_def commit_eq)
  qed
qed

lemma admitted_member:
  assumes "registry_ok ev r" "get_session r sid = Some s" "s_kind s = Local" "s_host s = r_daemon_peer_id r"
    and "pi_id peer \<notin> s_members s" "codec_ok (e_cap_action ev)"
    and "ensure_member ev ops now sid peer (Some c) r = (Inr (), r')"
  shows "\<exists>s'. get_session r' sid = Some s' \<and> s_members s' = insert (pi_id peer) (s_members s)
    \<and> (s_log s' = s_log s \<and> s_caps s' = s_caps s
      \<or> (\<exists>m. s_log s' = s_log s @ [m]
          \<and> cap_effect (e_cap_action ev) (s_host s) m = Some (Grant (pi_id peer) (cc_granted_cap c))
          \<and> s_caps s' = (s_caps s)(pi_id peer \<mapsto> cc_granted_cap c)))"
proof -
  have p: "pi_id peer \<noteq> s_host s" using registry_okD [OF assms(1,2)] assms(5) by (auto simp: session_ok_def)
  obtain r1 where r1: "admit_peer ops sid s peer (Some c) r = (Inr (), r1)"
      and r': "get_session r' sid = get_session (auto_grant_on_join ev ops now sid (pi_id peer) (cc_granted_cap c) r1) sid"
    using assms(2,3,5,7) by (auto simp: ensure_member_def Let_def split: sum.splits if_splits prod.splits option.splits)
  obtain s1 where s1: "get_session r1 sid = Some s1" "s_members s1 = insert (pi_id peer) (s_members s)"
      "s_log s1 = s_log s" "s_caps s1 = s_caps s" "s_host s1 = s_host s" "s_kind s1 = s_kind s"
      "r_daemon_peer_id r1 = r_daemon_peer_id r"
    by (rule admit_peer_Inr [OF r1 assms(2)])
  show ?thesis
    by (rule auto_grant_cases [of r1 sid s1 "pi_id peer" ev ops now "cc_granted_cap c"])
      (use s1 r' assms(3,4,6) p in auto)
qed

lemma sample_grant_length:
  "length (encode_cap_action (to_codec sd_cap_action) (Grant (PeerId 5) ReadWrite)) = 34"
  by (simp add: encode_cap_action_def to_codec_def sd_cap_action_def sd_iso_def sd_sum_def sd_pair_def sd_word_def
      sd_cap_def sd_unit_def del: be_bytes.simps)

lemma sample_admitted:
  "\<exists>r s. ensure_member sample_env memory_ops 8 (SessionId 9) \<lparr> pi_id = PeerId 5, pi_display_name = ''bob'' \<rparr>
      (Some sample_claim) sample_run = (Inr (), r) \<and> get_session r (SessionId 9) = Some s \<and> length (s_log s) = 2"
  by (simp add: sample_defs host_eval)
    (simp add: send_eval store_try_def ensure_member_def check_claim_def verify_ticket_cap_def sample_claim_def
      strict_check_def open_ed_def SIGNATURE_UNSIGNED_def ticket_admissible_def ledger_entry_def admit_peer_def
      auto_grant_on_join_def host_author_def apply_capability_def sample_grant_length ACTION_GRANT_def)

lemma sample_run_facts:
  "\<exists>s. get_session sample_run (SessionId 9) = Some s \<and> s_kind s = Local \<and> s_host s = PeerId 7 \<and> s_members s = {PeerId 7}
    \<and> length (s_log s) = 1 \<and> r_daemon_peer_id sample_run = PeerId 7"
  by (simp add: sample_defs host_eval) (simp add: send_eval)

lemma sample_admitted_caps:
  "\<exists>r s. r = reg_step sample_env memory_ops (OpEnsureMember 8 (SessionId 9) \<lparr> pi_id = PeerId 5, pi_display_name = ''bob'' \<rparr>
      (Some sample_claim)) sample_run \<and> get_session r (SessionId 9) = Some s \<and> s_kind s = Local \<and> s_host s = PeerId 7
      \<and> can_write s (PeerId 5)"
proof -
  obtain s where s: "get_session sample_run (SessionId 9) = Some s" "s_kind s = Local" "s_host s = PeerId 7"
      "s_members s = {PeerId 7}" "length (s_log s) = 1" "r_daemon_peer_id sample_run = PeerId 7"
    using sample_run_facts by blast
  obtain r s2 where r: "ensure_member sample_env memory_ops 8 (SessionId 9) \<lparr> pi_id = PeerId 5, pi_display_name = ''bob'' \<rparr>
      (Some sample_claim) sample_run = (Inr (), r)" "get_session r (SessionId 9) = Some s2" "length (s_log s2) = 2"
    using sample_admitted by metis
  have codec: "codec_ok (e_cap_action sample_env)" by (simp add: sample_env_def to_codec_ok sd_cap_action)
  have "s_caps s2 (PeerId 5) = Some ReadWrite"
    using admitted_member [OF reachable_ok [OF sample_run_reachable] s(1,2) _ _ codec r(1)] s r(2,3)
    by (auto simp: sample_claim_def)
  moreover have "evolves s s2"
    using movesD(1) [OF reg_step_moves [of "OpEnsureMember 8 (SessionId 9) \<lparr> pi_id = PeerId 5, pi_display_name = ''bob'' \<rparr>
      (Some sample_claim)" sample_run memory_ops sample_env] _ s(1), of s2] r by simp
  ultimately show ?thesis using r s by (simp add: can_write_def evolves_def)
qed

subsection \<open>Properties\<close>

text \<open>C17: the effect of an accepted send on a hosted session.  The author is a member with write
  access; the message gets the next sequence number after the head, carries the author's
  fields, is not reserved and fits every carrier; it is appended to the store, then to the
  log, the head moves to it, a capability message updates the capability set; the event is
  emitted once, the message is broadcast unless it is a capability message, and no other
  session changes.\<close>

theorem accepted_send_effect:
  assumes "send ev ops now sid peer kind action payload au ans r = (Inr m, r')"
    and "get_session r sid = Some s" "s_kind s = Local"
  shows "pi_id peer \<in> s_members s \<and> can_write s (pi_id peer)
    \<and> \<not> (kind = System \<and> reserved_system_action action \<noteq> None)
    \<and> seq_next (s_head s) = Some (m_seq m) \<and> m_peer m = peer \<and> m_kind m = kind \<and> m_action m = action
    \<and> m_payload m = payload \<and> m_version m = MESSAGE_FORMAT
    \<and> message_frame_len (e_serialized_size ev) m \<le> MAX_SESSION_MESSAGE_FRAME
    \<and> so_append ops sid m (r_store r) = (Inr (), r_store r')
    \<and> get_session r' sid = Some (s\<lparr> s_head := m_seq m, s_log := s_log s @ [m],
        s_caps := project_step (e_cap_action ev) (s_host s) (s_caps s) m \<rparr>)
    \<and> (\<forall>j. j \<noteq> sid \<longrightarrow> get_session r' j = get_session r j)
    \<and> r_events r' = r_events r @ [EvMessage sid m]
    \<and> r_outbox r' = r_outbox r @ (if r_bridge r \<and> kind \<noteq> CapabilityKind then [CallPublishMessage sid m] else [])"
proof -
  obtain ts sg q st where acc: "\<not> (kind = System \<and> reserved_system_action action \<noteq> None)"
      "pi_id peer \<in> s_members s" "can_write s (pi_id peer)" "seq_next (s_head s) = Some q"
      "m = session_message_new q ts peer kind action payload sg (sign_seq_for ev r sid q sg)"
      "message_frame_len (e_serialized_size ev) m \<le> MAX_SESSION_MESSAGE_FRAME"
      "so_append ops sid m (r_store r) = (Inr (), st)"
      "r' = (if kind \<noteq> CapabilityKind then bridge_do (CallPublishMessage sid m) else id)
        (emit (EvMessage sid m) (put_session sid (commit (e_cap_action ev) s m) (r\<lparr> r_store := st \<rparr>)))"
    by (rule send_Inr [OF assms])
  with commit_eq [of "e_cap_action ev" s m] show ?thesis
    by (auto simp: session_message_new_def bridge_do_def emit_def put_session_def update_conv')
qed

lemma sample_send_again:
  "\<exists>m r'. send sample_env memory_ops 7 (SessionId 9) sample_host Chat ''chat.message'' [105] ALocal (Inl BSendTimeout)
    sample_run = (Inr m, r')"
  by (simp add: sample_defs host_eval) (simp add: send_eval store_try_def)

theorem accepted_send_effect_witness:
  "\<exists>m r' s. get_session sample_run (SessionId 9) = Some s \<and> length (s_log s) = 1
    \<and> send sample_env memory_ops 7 (SessionId 9) sample_host Chat ''chat.message'' [105] ALocal (Inl BSendTimeout)
        sample_run = (Inr m, r') \<and> seq_next (s_head s) = Some (m_seq m)
    \<and> r_events r' = r_events sample_run @ [EvMessage (SessionId 9) m]"
proof -
  obtain m r' where send: "send sample_env memory_ops 7 (SessionId 9) sample_host Chat ''chat.message'' [105] ALocal
      (Inl BSendTimeout) sample_run = (Inr m, r')" using sample_send_again by metis
  obtain s where "get_session sample_run (SessionId 9) = Some s" "s_kind s = Local" "length (s_log s) = 1"
    using sample_run_session by blast
  with accepted_send_effect [OF send this(1,2)] send show ?thesis by blast
qed

text \<open>A rejected send leaves no trace.  Whatever the reason of the error, no session and no
  event changes; nothing is broadcast from a hosted session; and unless the store itself
  failed, the store is untouched.\<close>

theorem rejected_send_no_trace:
  assumes "send ev ops now sid peer kind action payload au ans r = (Inl e, r')"
  shows "r_sessions r' = r_sessions r \<and> r_events r' = r_events r
    \<and> (is_local_session r sid \<noteq> Some False \<longrightarrow> r_outbox r' = r_outbox r)
    \<and> ((\<forall>x. e \<noteq> Storage x) \<longrightarrow> r_store r' = r_store r)"
  by (rule send_Inl [OF assms])

theorem rejected_send_no_trace_witness:
  "\<exists>e r'. send sample_env memory_ops 7 (SessionId 9) sample_host System TICKET_ACTION [] ALocal (Inl BSendTimeout)
      sample_run = (Inl e, r') \<and> r_sessions r' = r_sessions sample_run \<and> r_store r' = r_store sample_run"
proof -
  have send: "send sample_env memory_ops 7 (SessionId 9) sample_host System TICKET_ACTION [] ALocal (Inl BSendTimeout)
      sample_run = (Inl (ReservedAction TICKET_ACTION), sample_run)"
    by (simp add: send_def reserved_system_action_def)
  from rejected_send_no_trace [OF this] send show ?thesis by blast
qed

text \<open>C14: write access is decided by the host's last word.  In a hosted session of a reachable
  registry, a peer other than the host can write exactly when the last capability message of
  the host that names the peer grants it read-write; messages of other authors, malformed
  ones and ones about the host change nothing, and the host itself can always write.\<close>

theorem write_access_is_last_host_word:
  assumes "reachable ev ops st r" "get_session r sid = Some s" "s_kind s = Local"
  shows "can_write s (s_host s)
    \<and> (p \<noteq> s_host s \<longrightarrow> (can_write s p \<longleftrightarrow>
        (case find (\<lambda>m. concerns p (cap_effect (e_cap_action ev) (s_host s) m)) (rev (s_log s)) of
          None \<Rightarrow> False
        | Some m \<Rightarrow> cap_effect (e_cap_action ev) (s_host s) m = Some (Grant p ReadWrite))))"
proof -
  have ok: "session_ok (e_cap_action ev) sid s" by (rule registry_okD [OF reachable_ok [OF assms(1)] assms(2)])
  then have caps: "s_caps s = project_caps (e_cap_action ev) (s_host s) (s_log s)"
      and log: "sort_key m_seq (s_log s) = s_log s"
    using assms(3) log_ok_sort by (auto simp: session_ok_def)
  have grant: "permits_write c \<longleftrightarrow> c = ReadWrite" for c by (cases c) simp_all
  have "cap_after a = Some ReadWrite \<longleftrightarrow> a = Some (Grant p ReadWrite)" if "concerns p a" for a
    using that by (cases a rule: cap_after.cases) (auto simp: concerns_def)
  then have "can_write s p \<longleftrightarrow> (case find (\<lambda>m. concerns p (cap_effect (e_cap_action ev) (s_host s) m)) (rev (s_log s)) of
      None \<Rightarrow> False | Some m \<Rightarrow> cap_effect (e_cap_action ev) (s_host s) m = Some (Grant p ReadWrite))" if "p \<noteq> s_host s"
    using that find_Some_set [of "\<lambda>m. concerns p (cap_effect (e_cap_action ev) (s_host s) m)" "rev (s_log s)"]
    unfolding can_write_def caps project_caps_def log foldl_project_last
    by (auto simp: grant split: option.splits)
  then show ?thesis using ok by (simp add: can_write_host session_ok_def)
qed

theorem write_access_is_last_host_word_witness:
  "\<exists>(r :: (memory_store, peer_id) registry) s m. get_session r (SessionId 9) = Some s \<and> can_write s (PeerId 5)
    \<and> m \<in> set (s_log s) \<and> cap_effect (e_cap_action sample_env) (s_host s) m = Some (Grant (PeerId 5) ReadWrite)"
proof -
  obtain r s where r: "r = reg_step sample_env memory_ops (OpEnsureMember 8 (SessionId 9)
        \<lparr> pi_id = PeerId 5, pi_display_name = ''bob'' \<rparr> (Some sample_claim)) sample_run"
      and s: "get_session r (SessionId 9) = Some s" "s_kind s = Local" "s_host s = PeerId 7" "can_write s (PeerId 5)"
    using sample_admitted_caps by blast
  have "reachable sample_env memory_ops memory_new r"
    unfolding r by (rule reachable.step [OF sample_run_reachable]) simp
  from write_access_is_last_host_word [OF this s(1,2), of "PeerId 5"] s(3,4)
  obtain m where "find (\<lambda>m. concerns (PeerId 5) (cap_effect (e_cap_action sample_env) (s_host s) m)) (rev (s_log s)) = Some m"
      "cap_effect (e_cap_action sample_env) (s_host s) m = Some (Grant (PeerId 5) ReadWrite)"
    by (auto split: option.splits)
  moreover from this(1) have "m \<in> set (s_log s)" by (auto dest!: find_Some_set)
  ultimately show ?thesis using s by blast
qed

text \<open>C16: admission is issued-only.  A peer that announces a ticket claim is admitted to a hosted
  session only if the ledger holds an active entry with the claimed id, capability and expiry,
  the claim has not expired, and, on a host with a signing key, the host's own signature covers
  exactly the claimed fields; any refusal leaves the registry unchanged or reports a storage
  failure.\<close>

theorem admission_is_issued_only:
  assumes "get_session r sid = Some s" "s_kind s = Local"
    and "ensure_member ev ops now sid peer (Some c) r = (res, r')"
  shows "(res = Inr () \<longrightarrow>
      (\<exists>t\<in>set (s_tickets s). te_ticket_id t = cc_ticket_id c \<and> te_status t = Active
        \<and> te_granted_cap t = cc_granted_cap c \<and> te_expiry_ms t = cc_expiry_ms c)
      \<and> (cc_expiry_ms c = 0 \<or> now < cc_expiry_ms c)
      \<and> (r_signing_key r \<noteq> None \<longrightarrow> verify_ticket_cap (e_ed ev) (r_daemon_peer_id r) (cc_ticket_id c) sid
          (cc_granted_cap c) (cc_expiry_ms c) (cc_host_epoch c) (cc_cap_sig c) = Inr ()))
    \<and> (\<forall>e. res = Inl e \<longrightarrow> r_sessions r' = r_sessions r \<and> ((\<forall>x. e \<noteq> Storage x) \<longrightarrow> r' = r))"
proof -
  have "\<exists>t\<in>set (s_tickets s). te_ticket_id t = cc_ticket_id c \<and> te_status t = Active
      \<and> te_granted_cap t = cc_granted_cap c \<and> te_expiry_ms t = cc_expiry_ms c" if "res = Inr ()"
    using ensure_member_Inr(2) [OF _ assms(1,2)] assms(2,3) that by (auto simp: ticket_admissible_def list_ex_iff)
  moreover have "check_claim ev r now sid c = Inr ()" if "res = Inr ()"
    using ensure_member_Inr(1) [OF _ assms(1,2)] assms(3) that by auto
  moreover have "r_sessions r' = r_sessions r \<and> ((\<forall>x. e \<noteq> Storage x) \<longrightarrow> r' = r)" if "res = Inl e" for e
    using assms that
    by (auto simp: ensure_member_def admit_peer_def store_try_def Let_def split: sum.splits if_splits prod.splits)
  ultimately show ?thesis unfolding check_claim_Inr by blast
qed

theorem admission_is_issued_only_witness:
  "\<exists>r' s t. ensure_member sample_env memory_ops 8 (SessionId 9) \<lparr> pi_id = PeerId 5, pi_display_name = ''bob'' \<rparr>
      (Some sample_claim) sample_run = (Inr (), r')
    \<and> get_session sample_run (SessionId 9) = Some s \<and> t \<in> set (s_tickets s) \<and> te_ticket_id t = TicketId 3"
proof -
  obtain s where s: "get_session sample_run (SessionId 9) = Some s" "s_kind s = Local"
    using sample_run_session by blast
  obtain r where r: "ensure_member sample_env memory_ops 8 (SessionId 9) \<lparr> pi_id = PeerId 5, pi_display_name = ''bob'' \<rparr>
      (Some sample_claim) sample_run = (Inr (), r)" using sample_admitted by metis
  from admission_is_issued_only [OF s r] r s show ?thesis by (auto simp: sample_claim_def)
qed

text \<open>A newly admitted peer gets the capability of its ticket and nothing else changes.  When
  the host admits a peer that was not a member, the peer becomes a member, and either the
  host's grant of exactly the claimed capability is appended to the log and in force, or the
  grant could not be appended and the log and all capabilities are as before.\<close>

theorem admission_grants_ticket_capability:
  assumes "registry_ok ev r" "get_session r sid = Some s" "s_kind s = Local" "s_host s = r_daemon_peer_id r"
    and "pi_id peer \<notin> s_members s" "codec_ok (e_cap_action ev)"
    and "ensure_member ev ops now sid peer (Some c) r = (Inr (), r')"
  shows "\<exists>s'. get_session r' sid = Some s' \<and> s_members s' = insert (pi_id peer) (s_members s)
    \<and> (s_log s' = s_log s \<and> s_caps s' = s_caps s
      \<or> (\<exists>m. s_log s' = s_log s @ [m]
          \<and> cap_effect (e_cap_action ev) (s_host s) m = Some (Grant (pi_id peer) (cc_granted_cap c))
          \<and> s_caps s' = (s_caps s)(pi_id peer \<mapsto> cc_granted_cap c)))"
  by (rule admitted_member [OF assms])

theorem admission_grants_ticket_capability_witness:
  "\<exists>r s. ensure_member sample_env memory_ops 8 (SessionId 9) \<lparr> pi_id = PeerId 5, pi_display_name = ''bob'' \<rparr>
      (Some sample_claim) sample_run = (Inr (), r) \<and> get_session r (SessionId 9) = Some s
    \<and> s_caps s (PeerId 5) = Some ReadWrite \<and> s_members s = {PeerId 5, PeerId 7}"
proof -
  obtain s where s: "get_session sample_run (SessionId 9) = Some s" "s_kind s = Local" "s_host s = PeerId 7"
      "s_members s = {PeerId 7}" "length (s_log s) = 1" "r_daemon_peer_id sample_run = PeerId 7"
    using sample_run_facts by blast
  obtain r s2 where r: "ensure_member sample_env memory_ops 8 (SessionId 9) \<lparr> pi_id = PeerId 5, pi_display_name = ''bob'' \<rparr>
      (Some sample_claim) sample_run = (Inr (), r)" "get_session r (SessionId 9) = Some s2" "length (s_log s2) = 2"
    using sample_admitted by metis
  have codec: "codec_ok (e_cap_action sample_env)" by (simp add: sample_env_def to_codec_ok sd_cap_action)
  from admission_grants_ticket_capability [OF reachable_ok [OF sample_run_reachable] s(1,2) _ _ codec r(1)] s r
  show ?thesis by (auto simp: sample_claim_def)
qed

end
