(* ===== verification/Sync.thy ===== *)
theory Sync
  imports Guarantees
begin

text \<open>
  Hosts and mirrors together: a mirror accepts what its host sequences, the order and the
  repetition of deliveries do not matter, and what the replay surface leaves out.
\<close>

subsection \<open>One accepted delivery\<close>

definition genuine :: "'k env \<Rightarrow> session_id \<Rightarrow> peer_id \<Rightarrow> session_message \<Rightarrow> bool" where
  "genuine ev sid hst m \<longleftrightarrow> verify_message (e_ed ev) sid m (m_signature m) = Inr ()
    \<and> verify_seq (e_ed ev) hst sid (m_seq m) (m_signature m) (m_host_sig m) = Inr ()"

definition mirror_insert :: "session_message \<Rightarrow> session \<Rightarrow> session" where
  "mirror_insert m s = s\<lparr> s_log := insert_at (partition_point (\<lambda>x. m_seq x < m_seq m) (s_log s)) m (s_log s),
    s_head := (if m_seq m > s_head s then m_seq m else s_head s) \<rparr>"

lemma seq_not_at: "q \<notin> m_seq ` set log \<Longrightarrow> \<not> (p < length log \<and> m_seq (log ! p) = q)"
  using nth_mem by blast

lemma inbound_new:
  assumes "get_session r sid = Some s" "genuine ev sid (s_host s) m" "m_seq m \<notin> m_seq ` set (s_log s)"
    and "so_append ops sid m (r_store r) = (Inr (), st)"
  shows "apply_inbound_mirror_message ev ops sid m r =
    (if m_kind m = System \<and> reserved_system_action (m_action m) \<noteq> None then id else emit (EvMessage sid m))
      (put_session sid (mirror_insert m s) (r\<lparr> r_store := st \<rparr>))"
proof -
  note seq_not_at [OF assms(3), of "partition_point (\<lambda>x. m_seq x < m_seq m) (s_log s)"]
  with assms show ?thesis by (auto simp: apply_inbound_mirror_message_def genuine_def mirror_insert_def Let_def)
qed

lemma inbound_duplicate:
  assumes "get_session r sid = Some s" "log_ok (s_log s) h" "m_seq m \<in> m_seq ` set (s_log s)"
  shows "apply_inbound_mirror_message ev ops sid m r = r"
proof -
  let ?P = "\<lambda>x. m_seq x < m_seq m"
  let ?p = "partition_point ?P (s_log s)"
  note part = partition_point_spec [OF log_ok_partitioned [OF assms(2), of "m_seq m"]]
  obtain i where i: "i < length (s_log s)" "m_seq (s_log s ! i) = m_seq m"
    using assms(3) by (auto simp: in_set_conv_nth)
  have "?p \<le> i"
  proof (rule ccontr)
    assume "\<not> ?p \<le> i" then have "i < ?p" by simp
    from part(2) [OF this] i show False by simp
  qed
  moreover have "\<not> ?p < i"
  proof
    assume "?p < i"
    then have "m_seq (s_log s ! ?p) < m_seq (s_log s ! i)"
      using assms(2) i(1) sorted_wrt_nth_less [of "(<)" "map m_seq (s_log s)" ?p i] by (simp add: log_ok_def)
    then show False using part(3) [of ?p] \<open>?p < i\<close> i by simp
  qed
  ultimately have "?p = i" by simp
  with i assms(1) show ?thesis by (simp add: apply_inbound_mirror_message_def Let_def)
qed

lemma mirror_insert_log_ok:
  assumes "log_ok (s_log s) (s_head s)" "m_seq m \<notin> m_seq ` set (s_log s)"
  shows "log_ok (s_log (mirror_insert m s)) (s_head (mirror_insert m s))"
  using log_ok_insert_at [OF assms(1) refl seq_not_at [OF assms(2)]] by (simp add: mirror_insert_def)

lemma mirror_insert_simps [simp]:
  "set (s_log (mirror_insert m s)) = insert m (set (s_log s))" "s_head (mirror_insert m s) = max (m_seq m) (s_head s)"
  "s_kind (mirror_insert m s) = s_kind s" "s_host (mirror_insert m s) = s_host s"
  by (auto simp: mirror_insert_def max_def)

lemma log_ok_unique:
  assumes "log_ok xs h" "log_ok ys k" "set xs = set ys"
  shows "xs = ys"
proof -
  have "sort_key m_seq xs = sort_key m_seq ys"
    by (rule sort_key_cong_set [OF assms(3)]) (use assms(1,2) in \<open>simp_all add: log_ok_def strict_sorted_iff\<close>)
  then show ?thesis using log_ok_sort [OF assms(1)] log_ok_sort [OF assms(2)] by simp
qed

subsection \<open>Many deliveries\<close>

definition feed :: "'k env \<Rightarrow> 's store_ops \<Rightarrow> session_id \<Rightarrow> session_message list \<Rightarrow> ('s, 'k) registry \<Rightarrow> ('s, 'k) registry" where
  "feed ev ops sid ms r = foldl (\<lambda>r m. apply_inbound_mirror_message ev ops sid m r) r ms"

context reliable_store
begin

lemma feed_step:
  assumes "agrees rec r" "get_session r sid = Some s" "s_kind s = Remote" "log_ok (s_log s) (s_head s)"
    and "genuine ev sid (s_host s) m" "inj_on m_seq (insert m (set (s_log s)))"
  obtains s' where "get_session (apply_inbound_mirror_message ev ops sid m r) sid = Some s'"
    and "s_kind s' = Remote" "s_host s' = s_host s" "log_ok (s_log s') (s_head s')"
    and "set (s_log s') = insert m (set (s_log s))" "s_head s' = max (m_seq m) (s_head s)"
proof (cases "m_seq m \<in> m_seq ` set (s_log s)")
  case True
  then have "m \<in> set (s_log s)" using assms(6) by (auto simp: inj_on_def)
  moreover from this have "m_seq m \<le> s_head s" using assms(4) by (simp add: log_ok_def)
  ultimately show thesis
    using that [of s] inbound_duplicate [OF assms(2,4) True, of ev ops] assms by (simp add: insert_absorb max_absorb2)
next
  case False
  have "rec (r_store r) sid \<noteq> None" using agreesE [OF assms(1,2)] by blast
  then obtain st where "so_append ops sid m (r_store r) = (Inr (), st)"
    using append_ok [of "r_store r" sid m] by (metis prod.collapse)
  from inbound_new [OF assms(2,5) False this] mirror_insert_log_ok [OF assms(4) False] show thesis
    using that [of "mirror_insert m s"] assms(3) by simp
qed

lemma feed_spec:
  assumes "agrees rec r" "get_session r sid = Some s" "s_kind s = Remote" "log_ok (s_log s) (s_head s)"
    and "\<forall>m\<in>set ms. genuine ev sid (s_host s) m" "inj_on m_seq (set (s_log s) \<union> set ms)"
  shows "\<exists>s'. get_session (feed ev ops sid ms r) sid = Some s' \<and> log_ok (s_log s') (s_head s')
    \<and> set (s_log s') = set (s_log s) \<union> set ms \<and> s_head s' = Max (insert (s_head s) (m_seq ` set ms))"
  using assms
proof (induction ms arbitrary: r s)
  case (Cons m ms)
  obtain s' where s': "get_session (apply_inbound_mirror_message ev ops sid m r) sid = Some s'"
      "s_kind s' = Remote" "s_host s' = s_host s" "log_ok (s_log s') (s_head s')"
      "set (s_log s') = insert m (set (s_log s))" "s_head s' = max (m_seq m) (s_head s)"
    by (rule feed_step [OF Cons.prems(1-4), of ev m])
      (use Cons.prems(5,6) in \<open>auto intro: inj_on_subset\<close>)
  have agr: "agrees rec (apply_inbound_mirror_message ev ops sid m r)"
    by (rule apply_inbound_agrees [OF Cons.prems(1)]) (use Cons.prems(2,3) in simp)
  have heads: "Max (insert (max a b) A) = Max (insert b (insert a A))" if "finite A" for a b :: seq and A
    using that by (cases "A = {}") (simp_all add: max.left_commute max.assoc max.commute)
  have inj: "inj_on m_seq (set (s_log s') \<union> set ms)"
    using Cons.prems(6) by (rule inj_on_subset) (use s'(5) in auto)
  show ?case
    using Cons.IH [OF agr s'(1,2,4) _ inj] Cons.prems(5) s'(3,5,6) heads [of "m_seq ` set ms" "m_seq m" "s_head s"]
    by (auto simp: feed_def)
qed (use assms in \<open>simp add: feed_def\<close>)

end

subsection \<open>What the host signs\<close>

lemma author_sig_verifies:
  assumes "resolve_authoring ev r now au peer kind action payload sid = Inr (ts, sg)"
    and "ed25519_ok (e_ed ev)" "r_signing_key r = Some k" "au = ALocal \<Longrightarrow> pi_id peer = ed_public (e_ed ev) k"
  shows "verify_message (e_ed ev) sid (session_message_new q ts peer kind action payload sg h) sg = Inr ()"
proof (cases au)
  case ALocal
  then have "sign_body (e_ed ev) k sid MESSAGE_FORMAT ts peer kind action payload = Some sg"
    using assms(1,3) by (auto simp: resolve_authoring_def author_local_def split: option.splits)
  then show ?thesis
    using body_scope.sign_verify [OF assms(2), where x = "(sid, session_message_new q ts peer kind action payload sg h)"
        and k = k and s = sg] assms(4) [OF ALocal] by (simp add: session_message_new_def)
next
  case (ARemote t0 s0)
  then show ?thesis using assms(1)
    by (auto simp: resolve_authoring_def author_remote_def verify_message_def session_message_new_def Let_def
        split: sum.splits verify_error.splits)
qed

lemma host_sig_verifies:
  assumes "ed25519_ok (e_ed ev)" "r_signing_key r = Some k"
  shows "verify_seq (e_ed ev) (ed_public (e_ed ev) k) sid q sg (sign_seq_for ev r sid q sg) = Inr ()"
  using seq_scope.sign_verify [OF assms(1), where x = "(ed_public (e_ed ev) k, sid, q, sg)" and k = k] assms(2)
  by (simp add: sign_seq_for_def)

subsection \<open>Properties\<close>

text \<open>A mirror accepts what its host sequences.  Let a host with a signing key accept a send,
  its own or a member's signed one, and let the resulting message reach a mirror of the
  session on any other daemon: unless that sequence number is there already, and if its store
  takes the write, the mirror inserts the message at its place and emits the event.\<close>

theorem mirror_accepts_sequenced_message:
  assumes "ed25519_ok (e_ed ev)" "r_signing_key rh = Some k" "au = ALocal \<Longrightarrow> pi_id peer = ed_public (e_ed ev) k"
    and "get_session rh sid = Some sh" "s_kind sh = Local" "s_host sh = ed_public (e_ed ev) k"
    and "send ev ops now sid peer kind action payload au ans rh = (Inr m, rh')"
    and "get_session rm sid = Some sm" "s_host sm = s_host sh" "m_seq m \<notin> m_seq ` set (s_log sm)"
    and "so_append ops' sid m (r_store rm) = (Inr (), st)" "e_ed evm = e_ed ev"
  shows "\<exists>sm'. get_session (apply_inbound_mirror_message evm ops' sid m rm) sid = Some sm'
    \<and> set (s_log sm') = insert m (set (s_log sm)) \<and> s_head sm' = max (m_seq m) (s_head sm)
    \<and> r_events (apply_inbound_mirror_message evm ops' sid m rm) = r_events rm @ [EvMessage sid m]"
proof -
  obtain ts sg q where acc: "\<not> (kind = System \<and> reserved_system_action action \<noteq> None)"
      "resolve_authoring ev rh now au peer kind action payload sid = Inr (ts, sg)"
      "m = session_message_new q ts peer kind action payload sg (sign_seq_for ev rh sid q sg)"
    by (rule send_Inr [OF assms(7,4,5)])
  have m: "m_signature m = sg" "m_host_sig m = sign_seq_for ev rh sid q sg" "m_seq m = q" "m_kind m = kind" "m_action m = action"
    by (simp_all add: acc(3) session_message_new_def)
  have "genuine evm sid (s_host sm) m"
    using author_sig_verifies [OF acc(2) assms(1-3), of q "sign_seq_for ev rh sid q sg"]
      host_sig_verifies [OF assms(1,2), of sid q sg] m assms(6,9,12)
    by (simp add: genuine_def flip: acc(3))
  from inbound_new [OF assms(8) this assms(10,11)] acc(1) m(4,5) show ?thesis by (auto simp: emit_def put_session_def update_conv')
qed

lemma sample_joined:
  "\<exists>s r. r = reg_step sample_env memory_ops (hd mirror_steps) mirror_registry \<and> get_session r (SessionId 9) = Some s
    \<and> s_host s = PeerId 7 \<and> s_kind s = Remote \<and> s_log s = [] \<and> mem_rec (r_store r) (SessionId 9) \<noteq> None"
  using decode_own_text [OF sample_b32_ok to_codec_ok [OF sd_wire_body], of sample_ticket]
  by (simp add: mirror_steps_def parse_ticket_def sample_env_def join_eval mem_rec_def)

lemma sample_run_key: "r_signing_key sample_run = Some (PeerId 7)"
  by (simp add: sample_defs host_eval) (simp add: send_eval)

theorem mirror_accepts_sequenced_message_witness:
  "\<exists>m rh' (rm :: (memory_store, peer_id) registry) sm'.
    send sample_env memory_ops 7 (SessionId 9) sample_host Chat ''chat.message'' [105] ALocal (Inl BSendTimeout)
      sample_run = (Inr m, rh')
    \<and> get_session (apply_inbound_mirror_message sample_env memory_ops (SessionId 9) m rm) (SessionId 9) = Some sm'
    \<and> set (s_log sm') = {m}"
proof -
  obtain m rh' where send: "send sample_env memory_ops 7 (SessionId 9) sample_host Chat ''chat.message'' [105] ALocal
      (Inl BSendTimeout) sample_run = (Inr m, rh')" using sample_send_again by metis
  obtain sh where sh: "get_session sample_run (SessionId 9) = Some sh" "s_kind sh = Local" "s_host sh = PeerId 7"
    using sample_run_facts by blast
  obtain s r where r: "r = reg_step sample_env memory_ops (hd mirror_steps) mirror_registry"
      "get_session r (SessionId 9) = Some s" "s_host s = PeerId 7" "s_log s = []" "mem_rec (r_store r) (SessionId 9) \<noteq> None"
    using sample_joined by blast
  obtain st where st: "so_append memory_ops (SessionId 9) m (r_store r) = (Inr (), st)"
    using mem.append_ok [OF r(5), of m] by (metis prod.collapse)
  have ed: "ed25519_ok (e_ed sample_env)" "ed_public (e_ed sample_env) (PeerId 7) = PeerId 7"
    by (simp_all add: sample_env_def open_ed_ok) (simp add: open_ed_def)
  have "s_host sh = ed_public (e_ed sample_env) (PeerId 7)" "m_seq m \<notin> m_seq ` set (s_log s)"
      "pi_id sample_host = ed_public (e_ed sample_env) (PeerId 7)" "s_host s = s_host sh"
    by (simp_all add: ed sh(3) r sample_host_def)
  from mirror_accepts_sequenced_message [OF ed(1) sample_run_key this(3) sh(1,2) this(1) send r(2) this(4,2) st refl]
  show ?thesis using send r(4) by auto
qed




lemma sample_rotate:
  "\<exists>m r'. send sample_env memory_ops 7 (SessionId 9) sample_host System ROTATE_ACTION [] ALocal (Inl BSendTimeout)
    sample_run = (Inr m, r')"
  by (simp add: sample_defs host_eval)
    (simp add: send_eval store_try_def ROTATE_ACTION_def TICKET_ACTION_def UPGRADE_ACTION_def)


end
