(* ===== verification/Fs_Log.thy ===== *)
theory Fs_Log
  imports Sync
begin

text \<open>
  The log file of the on-disk store, \<open>artel-daemon/src/store/fs.rs\<close>: length-prefixed frames, the
  reader that survives torn tails and damaged frames, and the file names of attachments.  The
  payload codec (postcard) is a parameter; files are their bytes.
\<close>

subsection \<open>Frames\<close>

definition MAX_FRAME_SIZE :: nat where
  "MAX_FRAME_SIZE = 16 * 1024 * 1024"

definition log_frame :: "session_message codec \<Rightarrow> session_message \<Rightarrow> byte list" where
  "log_frame pc m = be_bytes 4 (length (enc pc m)) @ enc pc m"

text \<open>
  The reading loop.  The result is the messages kept and the length up to which the file is
  good; \<open>keep\<close> is the signature check.  An incomplete prefix, an incomplete payload and an
  oversized announcement end the loop, a payload that does not decode is skipped.
\<close>

function read_frames :: "session_message codec \<Rightarrow> (session_message \<Rightarrow> bool) \<Rightarrow> byte list \<Rightarrow> session_message list \<times> nat" where
  "read_frames pc keep bs =
    (if length bs < 4 then ([], 0)
     else let len = from_be (take 4 bs) in
       if len > MAX_FRAME_SIZE then ([], 0)
       else if length bs < 4 + len then ([], 0)
       else let (ms, good) = read_frames pc keep (drop (4 + len) bs) in
         (case dec pc (take len (drop 4 bs)) of
            Inr m \<Rightarrow> if keep m then m # ms else ms
          | Inl _ \<Rightarrow> ms, 4 + len + good))"
  by pat_completeness auto

termination
  by (relation "measure (\<lambda>(pc, keep, bs). length bs)") auto

declare read_frames.simps [simp del]

subsection \<open>Attachment file names\<close>

text \<open>A file name is its list of Unicode code points; a kind is the bytes of its UTF-8 text.  The
  source measures a stem in bytes and reads it in characters, so both lengths are modelled.\<close>

type_synonym file_name = "nat list"

definition ascii :: "string \<Rightarrow> file_name" where
  "ascii s = map of_char s"

definition len_utf8 :: "nat \<Rightarrow> nat" where
  "len_utf8 c = (if c < 0x80 then 1 else if c < 0x800 then 2 else if c < 0x10000 then 3 else 4)"

definition byte_len :: "file_name \<Rightarrow> nat" where
  "byte_len s = sum_list (map len_utf8 s)"

definition ATTACHMENT_FILE_SUFFIX :: string where
  "ATTACHMENT_FILE_SUFFIX = ''.bin''"

definition MAX_KIND_LEN :: nat where
  "MAX_KIND_LEN = 100"

text \<open>\<open>char::from_digit(n, 16)\<close>.\<close>

definition lower_hex_digit :: "nat \<Rightarrow> nat" where
  "lower_hex_digit n = (if n < 10 then 48 + n else 87 + n)"

definition kind_byte_hex :: "char \<Rightarrow> file_name" where
  "kind_byte_hex c = [lower_hex_digit (of_char c div 16), lower_hex_digit (of_char c mod 16)]"

definition attachment_filename :: "string \<Rightarrow> file_name" where
  "attachment_filename kind = concat (map kind_byte_hex kind) @ ascii ATTACHMENT_FILE_SUFFIX"

definition decode_lower_hex_nibble :: "nat \<Rightarrow> nat option" where
  "decode_lower_hex_nibble c =
    (if 48 \<le> c \<and> c \<le> 57 then Some (c - 48)
     else if 97 \<le> c \<and> c \<le> 102 then Some (c - 97 + 10)
     else None)"

fun decode_hex_pairs :: "file_name \<Rightarrow> string option" where
  "decode_hex_pairs (h # l # rest) =
    (case (decode_lower_hex_nibble h, decode_lower_hex_nibble l) of
       (Some hi, Some lo) \<Rightarrow> map_option (Cons (char_of (16 * hi + lo))) (decode_hex_pairs rest)
     | _ \<Rightarrow> None)"
| "decode_hex_pairs _ = Some []"

definition strip_suffix :: "file_name \<Rightarrow> file_name \<Rightarrow> file_name option" where
  "strip_suffix suf s =
    (let n = length s - length suf in
     if length suf \<le> length s \<and> drop n s = suf then Some (take n s) else None)"

text \<open>\<open>is_utf8\<close> is \<open>String::from_utf8(..).is_ok()\<close>.\<close>

definition decode_attachment_filename :: "(string \<Rightarrow> bool) \<Rightarrow> file_name \<Rightarrow> string option" where
  "decode_attachment_filename is_utf8 name =
    (case strip_suffix (ascii ATTACHMENT_FILE_SUFFIX) name of
       None \<Rightarrow> None
     | Some stem \<Rightarrow>
         if byte_len stem mod 2 \<noteq> 0 then None
         else (case decode_hex_pairs stem of
             None \<Rightarrow> None
           | Some kind \<Rightarrow> if is_utf8 kind then Some kind else None))"

text \<open>\<open>rsplit_once('.')\<close> and the shape of the temporary names of attachment writes.\<close>

definition rsplit_dot :: "file_name \<Rightarrow> (file_name \<times> file_name) option" where
  "rsplit_dot s =
    (let tl = takeWhile (\<lambda>c. c \<noteq> 46) (rev s) in
     if length tl = length s then None
     else Some (take (length s - length tl - 1) s, rev tl))"

definition is_digit :: "nat \<Rightarrow> bool" where
  "is_digit c \<longleftrightarrow> 48 \<le> c \<and> c \<le> 57"

definition is_lower_hex :: "nat \<Rightarrow> bool" where
  "is_lower_hex c \<longleftrightarrow> is_digit c \<or> (97 \<le> c \<and> c \<le> 102)"

definition is_attachment_tmp :: "file_name \<Rightarrow> bool" where
  "is_attachment_tmp name =
    (case strip_suffix (ascii ''.tmp'') name of None \<Rightarrow> False | Some stem \<Rightarrow>
     case rsplit_dot stem of None \<Rightarrow> False | Some (before_counter, counter) \<Rightarrow>
       if counter = [] \<or> \<not> list_all is_digit counter then False
       else case rsplit_dot before_counter of None \<Rightarrow> False | Some (before_pid, pid) \<Rightarrow>
         if pid = [] \<or> \<not> list_all is_digit pid then False
         else case strip_suffix (ascii ATTACHMENT_FILE_SUFFIX) before_pid of None \<Rightarrow> False | Some hex_stem \<Rightarrow>
           hex_stem \<noteq> [] \<and> byte_len hex_stem mod 2 = 0 \<and> list_all is_lower_hex hex_stem)"

definition unique_tmp_name :: "(nat \<Rightarrow> file_name) \<Rightarrow> file_name \<Rightarrow> nat \<Rightarrow> nat \<Rightarrow> file_name" where
  "unique_tmp_name decimal name pid counter =
    name @ [46] @ decimal pid @ [46] @ decimal counter @ ascii ''.tmp''"

subsection \<open>Reading frames back\<close>

definition frames :: "session_message codec \<Rightarrow> session_message list \<Rightarrow> byte list" where
  "frames pc ms = concat (map (log_frame pc) ms)"

lemma length_log_frame [simp]: "length (log_frame pc m) = 4 + length (enc pc m)"
  by (simp add: log_frame_def del: be_bytes.simps)

lemma read_frames_short: "length bs < 4 \<Longrightarrow> read_frames pc keep bs = ([], 0)"
  by (subst read_frames.simps) simp

lemma read_frames_incomplete:
  assumes "from_be (take 4 bs) = n" "length bs < 4 + n"
  shows "read_frames pc keep bs = ([], 0)"
  using assms by (subst read_frames.simps) (simp only: Let_def if_True if_False split: if_splits, simp)

lemma read_frames_oversized:
  assumes "MAX_FRAME_SIZE < from_be (take 4 bs)"
  shows "read_frames pc keep bs = ([], 0)"
  using assms by (subst read_frames.simps) (simp add: Let_def)

lemma read_frames_step:
  assumes "length pre = 4" "from_be pre = length body" "length body \<le> MAX_FRAME_SIZE"
  shows "read_frames pc keep (pre @ body @ rest) =
    (case read_frames pc keep rest of (ms, good) \<Rightarrow>
      (case dec pc body of Inr m \<Rightarrow> if keep m then m # ms else ms | Inl _ \<Rightarrow> ms, 4 + length body + good))"
  using assms by (subst read_frames.simps) (simp add: Let_def)

lemma frame_announces:
  assumes "length (enc pc m) \<le> MAX_FRAME_SIZE"
  shows "from_be (be_bytes 4 (length (enc pc m))) = length (enc pc m)"
  using assms by (simp add: MAX_FRAME_SIZE_def from_be_be_bytes del: be_bytes.simps)

lemma read_frames_Cons:
  assumes "codec_ok pc" "length (enc pc m) \<le> MAX_FRAME_SIZE"
  shows "read_frames pc keep (log_frame pc m @ rest) =
    (case read_frames pc keep rest of (ms, good) \<Rightarrow>
      (if keep m then m # ms else ms, length (log_frame pc m) + good))"
  using read_frames_step [of "be_bytes 4 (length (enc pc m))" "enc pc m" pc keep rest]
  by (simp add: assms frame_announces codec_okD log_frame_def del: be_bytes.simps split: prod.splits)

lemma read_frames_append:
  assumes "codec_ok pc" "\<forall>m\<in>set ms. length (enc pc m) \<le> MAX_FRAME_SIZE \<and> keep m"
  shows "read_frames pc keep (frames pc ms @ rest) =
    (case read_frames pc keep rest of (ns, good) \<Rightarrow> (ms @ ns, length (frames pc ms) + good))"
  using assms(2)
  by (induction ms) (simp_all add: frames_def read_frames_Cons [OF assms(1)] split: prod.splits)

text \<open>The rest of a write that was cut short.\<close>

lemma read_frames_torn:
  assumes "length (enc pc m) \<le> MAX_FRAME_SIZE" "k < length (log_frame pc m)"
  shows "read_frames pc keep (take k (log_frame pc m)) = ([], 0)"
proof (cases "k < 4")
  case True then show ?thesis by (intro read_frames_short) simp
next
  case False
  have "take 4 (take k (log_frame pc m)) = be_bytes 4 (length (enc pc m))"
    using False by (simp add: log_frame_def min_def del: be_bytes.simps)
  then show ?thesis
    using assms frame_announces [OF assms(1)] by (intro read_frames_incomplete) (simp_all del: take_take be_bytes.simps)
qed

subsection \<open>File names back and forth\<close>

lemma nibble_roundtrip:
  "n < 16 \<Longrightarrow> decode_lower_hex_nibble (lower_hex_digit n) = Some n"
  "decode_lower_hex_nibble c = Some n \<Longrightarrow> n < 16 \<and> lower_hex_digit n = c"
  by (auto simp: decode_lower_hex_nibble_def lower_hex_digit_def split: if_splits)

lemma byte_bound [simp]: "of_char c div 16 < (16::nat)"
proof -
  have "of_char c mod 256 < (256::nat)" by simp
  then show ?thesis unfolding of_char_mod_256 by (simp add: less_mult_imp_div_less)
qed

lemma decode_hex_pairs_hex: "decode_hex_pairs (concat (map kind_byte_hex kind)) = Some kind"
  by (induction kind) (simp_all add: nibble_roundtrip kind_byte_hex_def)

lemma hex_decode_hex_pairs:
  assumes "decode_hex_pairs s = Some kind" "even (length s)"
  shows "concat (map kind_byte_hex kind) = s"
  using assms
proof (induction s arbitrary: kind rule: decode_hex_pairs.induct)
  case (1 h l rest)
  from 1(2) obtain hi lo k where d: "decode_lower_hex_nibble h = Some hi" "decode_lower_hex_nibble l = Some lo"
      "decode_hex_pairs rest = Some k" "kind = char_of (16 * hi + lo) # k"
    by (auto split: option.splits)
  from nibble_roundtrip(2) [OF d(1)] nibble_roundtrip(2) [OF d(2)]
  have "hi < 16" "lo < 16" "lower_hex_digit hi = h" "lower_hex_digit lo = l" by auto
  moreover from this have "of_char (char_of (16 * hi + lo)) = (16 * hi + lo :: nat)" by (simp add: of_char_of)
  ultimately show ?case using 1(1) [OF refl d(1,2,3)] 1(3) d(4) by (simp add: kind_byte_hex_def)
qed auto

lemma hex_digit_bound: "n < 16 \<Longrightarrow> lower_hex_digit n < 128 \<and> is_lower_hex (lower_hex_digit n)"
  by (auto simp: lower_hex_digit_def is_lower_hex_def is_digit_def)

lemma byte_len_ascii: "\<forall>c\<in>set s. c < 128 \<Longrightarrow> byte_len s = length s"
  by (induction s) (simp_all add: byte_len_def len_utf8_def)

lemma hex_stem:
  "length (concat (map kind_byte_hex kind)) = 2 * length kind"
  "byte_len (concat (map kind_byte_hex kind)) = 2 * length kind"
  "list_all is_lower_hex (concat (map kind_byte_hex kind))"
proof goal_cases
  case 1 show len: ?case by (induction kind) (simp_all add: kind_byte_hex_def)
  case 2 show ?case
    using len byte_len_ascii [of "concat (map kind_byte_hex kind)"] by (auto simp: kind_byte_hex_def hex_digit_bound)
  case 3 show ?case by (induction kind) (simp_all add: kind_byte_hex_def hex_digit_bound)
qed

lemma strip_suffix_append [simp]: "strip_suffix suf (s @ suf) = Some s"
  by (simp add: strip_suffix_def)

lemma strip_suffix_Some: "strip_suffix suf s = Some t \<Longrightarrow> s = t @ suf"
  by (auto simp: strip_suffix_def Let_def split: if_splits) (metis append_take_drop_id)

lemma decode_attachment_filename_name:
  "is_utf8 kind \<Longrightarrow> decode_attachment_filename is_utf8 (attachment_filename kind) = Some kind"
  by (simp add: decode_attachment_filename_def attachment_filename_def decode_hex_pairs_hex hex_stem)

lemma attachment_filename_decoded:
  assumes "decode_attachment_filename is_utf8 name = Some kind" "\<forall>c\<in>set name. c < 128"
  shows "name = attachment_filename kind \<and> is_utf8 kind"
proof -
  from assms(1) obtain stem where stem: "name = stem @ ascii ATTACHMENT_FILE_SUFFIX" "even (byte_len stem)"
      "decode_hex_pairs stem = Some kind" "is_utf8 kind"
    by (auto simp: decode_attachment_filename_def dest!: strip_suffix_Some split: option.splits if_splits)
  with assms(2) have "even (length stem)" by (simp add: byte_len_ascii)
  from hex_decode_hex_pairs [OF stem(3) this] stem show ?thesis by (simp add: attachment_filename_def)
qed

lemma tmp_name_not_attachment: "decode_attachment_filename is_utf8 (s @ ascii ''.tmp'') = None"
  by (auto simp: decode_attachment_filename_def ATTACHMENT_FILE_SUFFIX_def ascii_def
      dest: strip_suffix_Some split: option.splits)

lemma rsplit_dot_append: "46 \<notin> set t \<Longrightarrow> rsplit_dot (s @ 46 # t) = Some (s, t)"
  by (simp add: rsplit_dot_def Let_def takeWhile_append)

lemma digits_no_dot: "list_all is_digit t \<Longrightarrow> 46 \<notin> set t"
  by (auto simp: list_all_iff is_digit_def)

text \<open>The file name of an attachment determines its kind.  Decoding the name of any kind
  that is valid text gives the kind back, every ASCII name that decodes is the name of the
  kind it decodes to, and the temporary name of a write is recognised by the sweep and is
  never taken for an attachment.  The restriction to ASCII is needed: a last character of two
  bytes passes the check of the length and is then dropped.\<close>

theorem attachment_names_faithful:
  assumes "is_utf8 kind" "kind \<noteq> []" "\<forall>n. decimal n \<noteq> [] \<and> list_all is_digit (decimal n)"
  shows "decode_attachment_filename is_utf8 (attachment_filename kind) = Some kind
    \<and> (\<forall>name k. (\<forall>c\<in>set name. c < 128) \<longrightarrow>
        (decode_attachment_filename is_utf8 name = Some k \<longleftrightarrow> is_utf8 k \<and> name = attachment_filename k))
    \<and> is_attachment_tmp (unique_tmp_name decimal (attachment_filename kind) pid counter)
    \<and> decode_attachment_filename is_utf8 (unique_tmp_name decimal (attachment_filename kind) pid counter) = None
    \<and> decode_attachment_filename (\<lambda>_. True) ([0x36, 0x31, 0xe9] @ ascii ATTACHMENT_FILE_SUFFIX) = Some ''a''"
proof -
  let ?stem = "concat (map kind_byte_hex kind)"
  have "?stem \<noteq> []" using assms(2) by (cases kind) (simp_all add: kind_byte_hex_def)
  moreover have tmp: "unique_tmp_name decimal (attachment_filename kind) pid counter =
      (((?stem @ ascii ATTACHMENT_FILE_SUFFIX) @ 46 # decimal pid) @ 46 # decimal counter) @ ascii ''.tmp''"
    by (simp add: unique_tmp_name_def attachment_filename_def)
  ultimately have "is_attachment_tmp (unique_tmp_name decimal (attachment_filename kind) pid counter)"
    unfolding is_attachment_tmp_def tmp strip_suffix_append
    using assms(3) hex_stem [of kind]
    by (simp add: rsplit_dot_append digits_no_dot del: append_assoc)
  moreover have "decode_attachment_filename (\<lambda>_. True) ([0x36, 0x31, 0xe9] @ ascii ATTACHMENT_FILE_SUFFIX) = Some ''a''"
    unfolding decode_attachment_filename_def strip_suffix_append
    by (simp add: byte_len_def len_utf8_def decode_lower_hex_nibble_def char_of_def bit_0)
  ultimately show ?thesis
    using assms(1) decode_attachment_filename_name attachment_filename_decoded tmp_name_not_attachment
    unfolding tmp by blast
qed

theorem attachment_names_faithful_witness:
  "decode_attachment_filename (\<lambda>_. True) (attachment_filename ''artel-fs'') = Some ''artel-fs''
    \<and> is_attachment_tmp (unique_tmp_name (\<lambda>_. ascii ''12'') (attachment_filename ''artel-fs'') 12 12)"
  using attachment_names_faithful [of "\<lambda>_. True" "''artel-fs''" "\<lambda>_. ascii ''12''" 12 12]
  by (simp add: is_digit_def ascii_def)

end
