(* ===== verification/Fs_Store.thy ===== *)
theory Fs_Store
  imports Fs_Log
begin

text \<open>
  The on-disk store, \<open>FsLogStore\<close> of \<open>artel-daemon/src/store/fs.rs\<close>.  The disk is the set of
  session directories, the files in them and the attachments; every system call may fail, and
  which ones do is the state's list of faults, consumed one per call.  A write that fails may
  have written a prefix.  The JSON and postcard codecs are parameters.

  Temporary files of the atomic writes are not part of the state (no reader opens them), except
  among the attachments, where a listing meets them.  A session directory is named by its id;
  the directory of the epoch floors has a name that is no id and every enumeration skips it.
\<close>

subsection \<open>Documents\<close>

record meta =
  mt_version :: nat
  mt_host :: peer_id
  mt_members :: "peer_id set"
  mt_head :: seq
  mt_kind :: session_kind
  mt_host_epoch :: u64

definition Meta_CURRENT_VERSION :: nat where
  "Meta_CURRENT_VERSION = 3"

definition meta_from_record :: "session_record \<Rightarrow> meta" where
  "meta_from_record r = \<lparr> mt_version = Meta_CURRENT_VERSION, mt_host = sr_host r, mt_members = sr_members r,
    mt_head = sr_head r, mt_kind = sr_kind r, mt_host_epoch = sr_host_epoch r \<rparr>"

record tickets_file =
  tf_version :: nat
  tf_entries :: "ticket_entry list"

definition TicketsFile_CURRENT_VERSION :: nat where
  "TicketsFile_CURRENT_VERSION = 1"

record epoch_floor_file =
  ef_version :: nat
  ef_floor :: u64

definition EpochFloorFile_CURRENT_VERSION :: nat where
  "EpochFloorFile_CURRENT_VERSION = 1"

subsection \<open>The disk\<close>

datatype fs_path =
    MetaPath session_id
  | LogPath session_id
  | TicketsPath session_id
  | QuarantinePath session_id
  | EnvelopePath session_id
  | FloorPath session_id

datatype fault = Fault (fault_error: io_error) (fault_written: nat)

record fs_disk =
  fd_dirs :: "session_id list"
  fd_floor_dir :: bool
  fd_files :: "fs_path \<Rightarrow> byte list option"
  fd_attachments :: "session_id \<Rightarrow> (file_name \<times> byte list) list option"
  fd_faults :: "fault option list"

definition fs_new :: fs_disk where
  "fs_new = \<lparr> fd_dirs = [], fd_floor_dir = False, fd_files = (\<lambda>_. None), fd_attachments = (\<lambda>_. None), fd_faults = [] \<rparr>"

text \<open>The codecs, the signature scheme, and whether this build verifies on load.\<close>

record 'k fs_env =
  fe_message :: "session_message codec"
  fe_meta :: "meta codec"
  fe_tickets :: "tickets_file codec"
  fe_floor :: "epoch_floor_file codec"
  fe_ed :: "'k ed25519"
  fe_verify :: bool
  fe_is_utf8 :: "string \<Rightarrow> bool"

definition fs_not_found :: io_error where
  "fs_not_found = IoError NotFound ''no such file or directory''"

definition fs_invalid :: "string \<Rightarrow> io_error" where
  "fs_invalid s = IoError InvalidData s"

subsection \<open>Sequencing with the question mark, and system calls\<close>

definition io_bind :: "('s, 'a) store_io \<Rightarrow> ('a \<Rightarrow> ('s, 'b) store_io) \<Rightarrow> ('s, 'b) store_io" where
  "io_bind m f s = (case m s of (Inl e, s') \<Rightarrow> (Inl e, s') | (Inr x, s') \<Rightarrow> f x s')"

definition io_then :: "('s, unit) store_io \<Rightarrow> ('s, 'b) store_io \<Rightarrow> ('s, 'b) store_io" where
  "io_then m n = io_bind m (\<lambda>_. n)"

definition io_return :: "'a \<Rightarrow> ('s, 'a) store_io" where
  "io_return x s = (Inr x, s)"

definition io_fail :: "io_error \<Rightarrow> ('s, 'a) store_io" where
  "io_fail e s = (Inl e, s)"

definition sys :: "(fs_disk, unit) store_io" where
  "sys s = (case fd_faults s of
      [] \<Rightarrow> (Inr (), s)
    | None # fs \<Rightarrow> (Inr (), s\<lparr> fd_faults := fs \<rparr>)
    | Some f # fs \<Rightarrow> (Inl (fault_error f), s\<lparr> fd_faults := fs \<rparr>))"

definition put_file :: "fs_path \<Rightarrow> byte list \<Rightarrow> (fs_disk, unit) store_io" where
  "put_file p bs s = (Inr (), s\<lparr> fd_files := (fd_files s)(p \<mapsto> bs) \<rparr>)"

fun parent_exists :: "fs_path \<Rightarrow> fs_disk \<Rightarrow> bool" where
  "parent_exists (FloorPath i) s = fd_floor_dir s"
| "parent_exists (MetaPath i) s = (i \<in> set (fd_dirs s))"
| "parent_exists (LogPath i) s = (i \<in> set (fd_dirs s))"
| "parent_exists (TicketsPath i) s = (i \<in> set (fd_dirs s))"
| "parent_exists (QuarantinePath i) s = (i \<in> set (fd_dirs s))"
| "parent_exists (EnvelopePath i) s = (i \<in> set (fd_dirs s))"

definition read_file :: "fs_path \<Rightarrow> (fs_disk, byte list) store_io" where
  "read_file p = io_then sys (\<lambda>s. case fd_files s p of None \<Rightarrow> (Inl fs_not_found, s) | Some bs \<Rightarrow> (Inr bs, s))"

text \<open>\<open>write_all\<close> on a file opened for appending.\<close>

definition append_file :: "fs_path \<Rightarrow> byte list \<Rightarrow> (fs_disk, unit) store_io" where
  "append_file p bs s =
    (let old = (case fd_files s p of None \<Rightarrow> [] | Some b \<Rightarrow> b) in
     case fd_faults s of
       [] \<Rightarrow> put_file p (old @ bs) s
     | None # fs \<Rightarrow> put_file p (old @ bs) (s\<lparr> fd_faults := fs \<rparr>)
     | Some f # fs \<Rightarrow> (Inl (fault_error f), snd (put_file p (old @ take (fault_written f) bs) (s\<lparr> fd_faults := fs \<rparr>))))"

text \<open>The temporary file is written and synced, then renamed, then the directory is synced: a
  failure before the rename leaves the old file, a failure after it the new one.\<close>

definition write_bytes_atomic :: "fs_path \<Rightarrow> byte list \<Rightarrow> (fs_disk, unit) store_io" where
  "write_bytes_atomic p bs s =
    (if \<not> parent_exists p s then (Inl fs_not_found, s)
     else io_then sys (io_then (put_file p bs) sys) s)"

definition write_json_atomic :: "'a codec \<Rightarrow> fs_path \<Rightarrow> 'a \<Rightarrow> (fs_disk, unit) store_io" where
  "write_json_atomic c p x = write_bytes_atomic p (enc c x)"

definition read_json :: "'a codec \<Rightarrow> fs_path \<Rightarrow> (fs_disk, 'a) store_io" where
  "read_json c p = io_bind (read_file p) (\<lambda>bs.
    case dec c bs of Inl _ \<Rightarrow> io_fail (fs_invalid ''json'') | Inr x \<Rightarrow> io_return x)"

text \<open>\<open>ensure_dir\<close>: stat, create, chmod, sync of the parent.\<close>

definition ensure_dir :: "(fs_disk \<Rightarrow> bool) \<Rightarrow> (fs_disk \<Rightarrow> fs_disk) \<Rightarrow> (fs_disk, unit) store_io" where
  "ensure_dir present create =
    io_then sys (\<lambda>s. if present s then (Inr (), s)
      else io_then sys (io_then (\<lambda>t. (Inr (), create t)) (io_then sys sys)) s)"

definition ensure_session_dir :: "session_id \<Rightarrow> (fs_disk, unit) store_io" where
  "ensure_session_dir i = ensure_dir (\<lambda>s. i \<in> set (fd_dirs s)) (\<lambda>s. s\<lparr> fd_dirs := fd_dirs s @ [i] \<rparr>)"

definition ensure_floor_dir :: "(fs_disk, unit) store_io" where
  "ensure_floor_dir = ensure_dir fd_floor_dir (\<lambda>s. s\<lparr> fd_floor_dir := True \<rparr>)"

definition ensure_attachments_dir :: "session_id \<Rightarrow> (fs_disk, unit) store_io" where
  "ensure_attachments_dir i = ensure_dir (\<lambda>s. fd_attachments s i \<noteq> None)
    (\<lambda>s. s\<lparr> fd_attachments := (fd_attachments s)(i \<mapsto> []) \<rparr>)"

subsection \<open>Documents on disk\<close>

definition read_meta :: "'k fs_env \<Rightarrow> session_id \<Rightarrow> (fs_disk, meta) store_io" where
  "read_meta fe i = read_json (fe_meta fe) (MetaPath i)"

definition write_meta :: "'k fs_env \<Rightarrow> session_id \<Rightarrow> meta \<Rightarrow> (fs_disk, unit) store_io" where
  "write_meta fe i m = write_json_atomic (fe_meta fe) (MetaPath i) m"

definition write_tickets :: "'k fs_env \<Rightarrow> session_id \<Rightarrow> ticket_entry list \<Rightarrow> (fs_disk, unit) store_io" where
  "write_tickets fe i ts = write_json_atomic (fe_tickets fe) (TicketsPath i)
    \<lparr> tf_version = TicketsFile_CURRENT_VERSION, tf_entries = ts \<rparr>"

definition read_tickets :: "'k fs_env \<Rightarrow> session_id \<Rightarrow> (fs_disk, ticket_entry list) store_io" where
  "read_tickets fe i s =
    (case read_json (fe_tickets fe) (TicketsPath i) s of
       (Inl e, s') \<Rightarrow> if io_error_kind e = NotFound then (Inr [], s') else (Inl e, s')
     | (Inr doc, s') \<Rightarrow> if tf_version doc \<noteq> TicketsFile_CURRENT_VERSION
         then (Inl (fs_invalid ''unsupported tickets version''), s') else (Inr (tf_entries doc), s'))"

definition read_epoch_floor :: "'k fs_env \<Rightarrow> session_id \<Rightarrow> (fs_disk, u64) store_io" where
  "read_epoch_floor fe i s =
    (case read_json (fe_floor fe) (FloorPath i) s of
       (Inr doc, s') \<Rightarrow> if ef_version doc \<noteq> EpochFloorFile_CURRENT_VERSION
         then (Inl (fs_invalid ''unsupported epoch_floor version''), s') else (Inr (ef_floor doc), s')
     | (Inl e, s') \<Rightarrow> if io_error_kind e = NotFound then (Inr 0, s') else (Inl e, s'))"

definition read_and_raise_epoch_floor :: "'k fs_env \<Rightarrow> session_id \<Rightarrow> u64 \<Rightarrow> (fs_disk, u64) store_io" where
  "read_and_raise_epoch_floor fe i raise_to = io_bind (read_epoch_floor fe i) (\<lambda>current.
    if raise_to > current
    then io_then ensure_floor_dir
      (io_then (write_json_atomic (fe_floor fe) (FloorPath i)
          \<lparr> ef_version = EpochFloorFile_CURRENT_VERSION, ef_floor = raise_to \<rparr>)
        (io_return current))
    else io_return current)"

definition write_workspace_ticket :: "session_id \<Rightarrow> byte list \<Rightarrow> (fs_disk, unit) store_io" where
  "write_workspace_ticket i w =
    (if length w > WORKSPACE_TICKET_ENVELOPE_MAX then io_fail (fs_invalid ''workspace ticket envelope too large'')
     else write_bytes_atomic (EnvelopePath i) w)"

definition read_workspace_ticket :: "session_id \<Rightarrow> (fs_disk, byte list option) store_io" where
  "read_workspace_ticket i s =
    (case read_file (EnvelopePath i) s of
       (Inl e, s') \<Rightarrow> if io_error_kind e = NotFound then (Inr None, s') else (Inl e, s')
     | (Inr w, s') \<Rightarrow>
         if length w > WORKSPACE_TICKET_ENVELOPE_MAX then (Inl (fs_invalid ''workspace ticket sidecar too large''), s')
         else io_bind (read_file (EnvelopePath i)) (\<lambda>b. io_return (Some b)) s')"

text \<open>\<open>OpenOptions::append(true).create(true).open\<close> and the touch in \<open>create\<close> leave an existing
  log as it is.\<close>

definition open_log :: "session_id \<Rightarrow> (fs_disk, unit) store_io" where
  "open_log i = io_then sys (\<lambda>s. if i \<notin> set (fd_dirs s) then (Inl fs_not_found, s)
    else case fd_files s (LogPath i) of None \<Rightarrow> put_file (LogPath i) [] s | Some _ \<Rightarrow> (Inr (), s))"

definition append_log :: "'k fs_env \<Rightarrow> session_id \<Rightarrow> session_message \<Rightarrow> (fs_disk, unit) store_io" where
  "append_log fe i m =
    (let payload = enc (fe_message fe) m in
     if length payload > MAX_FRAME_SIZE then io_fail (fs_invalid ''log frame too large'')
     else io_then (open_log i)
       (io_then (append_file (LogPath i) (be_bytes 4 (length payload)))
         (io_then (append_file (LogPath i) payload) sys)))"

definition keep_message :: "'k fs_env \<Rightarrow> session_id \<Rightarrow> session_message \<Rightarrow> bool" where
  "keep_message fe i m \<longleftrightarrow> \<not> fe_verify fe \<or> verify_message (fe_ed fe) i m (m_signature m) = Inr ()"

definition read_log :: "'k fs_env \<Rightarrow> session_id \<Rightarrow> (fs_disk, session_message list) store_io" where
  "read_log fe i = io_then sys (\<lambda>s.
    case fd_files s (LogPath i) of
      None \<Rightarrow> (Inr [], s)
    | Some bs \<Rightarrow>
        io_then sys (let (ms, good) = read_frames (fe_message fe) (keep_message fe i) bs in
          if good = length bs then io_return ms
          else io_then sys (io_then (put_file (LogPath i) (take good bs)) (io_return ms))) s)"

subsection \<open>The store operations\<close>

fun append_logs :: "'k fs_env \<Rightarrow> session_id \<Rightarrow> session_message list \<Rightarrow> (fs_disk, unit) store_io" where
  "append_logs fe i [] = io_return ()"
| "append_logs fe i (m # ms) = io_then (append_log fe i m) (append_logs fe i ms)"

definition fs_create :: "'k fs_env \<Rightarrow> session_record \<Rightarrow> (fs_disk, unit) store_io" where
  "fs_create fe r =
    io_then (ensure_session_dir (sr_id r))
     (io_bind (read_and_raise_epoch_floor fe (sr_id r) (sr_host_epoch r + 1)) (\<lambda>_.
      io_then (open_log (sr_id r)) (io_then sys
       (io_then (write_meta fe (sr_id r) (meta_from_record r))
        (io_then (if sr_tickets r = [] then io_return () else write_tickets fe (sr_id r) (sr_tickets r))
         (io_then (case sr_workspace_ticket r of None \<Rightarrow> io_return () | Some w \<Rightarrow> write_workspace_ticket (sr_id r) w)
          (append_logs fe (sr_id r) (sr_log r))))))))"

definition fs_append :: "'k fs_env \<Rightarrow> session_id \<Rightarrow> session_message \<Rightarrow> (fs_disk, unit) store_io" where
  "fs_append fe i m =
    io_then (append_log fe i m)
     (io_bind (read_meta fe i) (\<lambda>meta. write_meta fe i (meta\<lparr> mt_head := max (mt_head meta) (m_seq m) \<rparr>)))"

definition fs_bump_host_epoch :: "'k fs_env \<Rightarrow> session_id \<Rightarrow> u64 \<Rightarrow> (fs_disk, unit) store_io" where
  "fs_bump_host_epoch fe i epoch s =
    (case read_meta fe i s of
       (Inl e, s') \<Rightarrow> if io_error_kind e = NotFound then (Inr (), s') else (Inl e, s')
     | (Inr meta, s') \<Rightarrow>
         io_bind (read_and_raise_epoch_floor fe i (epoch + 1)) (\<lambda>_.
           write_meta fe i (meta\<lparr> mt_host_epoch := epoch \<rparr>)) s')"

definition fs_epoch_floor :: "'k fs_env \<Rightarrow> session_id \<Rightarrow> (fs_disk, u64) store_io" where
  "fs_epoch_floor fe i = read_and_raise_epoch_floor fe i 0"

definition fs_put_tickets :: "'k fs_env \<Rightarrow> session_id \<Rightarrow> ticket_entry list \<Rightarrow> (fs_disk, unit) store_io" where
  "fs_put_tickets fe i ts s =
    (if i \<notin> set (fd_dirs s) then (Inl fs_not_found, s) else write_tickets fe i ts s)"

definition fs_put_workspace_ticket :: "session_id \<Rightarrow> byte list \<Rightarrow> (fs_disk, unit) store_io" where
  "fs_put_workspace_ticket i w s =
    (if i \<notin> set (fd_dirs s) then (Inl fs_not_found, s) else write_workspace_ticket i w s)"

definition fs_add_member :: "'k fs_env \<Rightarrow> session_id \<Rightarrow> peer_info \<Rightarrow> (fs_disk, unit) store_io" where
  "fs_add_member fe i p = io_bind (read_meta fe i) (\<lambda>meta.
    write_meta fe i (meta\<lparr> mt_members := insert (pi_id p) (mt_members meta) \<rparr>))"

definition fs_remove_member :: "'k fs_env \<Rightarrow> session_id \<Rightarrow> peer_id \<Rightarrow> (fs_disk, unit) store_io" where
  "fs_remove_member fe i q = io_bind (read_meta fe i) (\<lambda>meta.
    write_meta fe i (meta\<lparr> mt_members := mt_members meta - {q} \<rparr>))"

text \<open>\<open>remove_dir_all\<close> unlinks entry by entry and removes the directory last; the order of the
  entries is not specified, the model takes one.\<close>

definition unlink :: "fs_path \<Rightarrow> (fs_disk, unit) store_io" where
  "unlink p = io_then sys (\<lambda>s. (Inr (), s\<lparr> fd_files := (fd_files s)(p := None) \<rparr>))"

definition unlink_attachments :: "session_id \<Rightarrow> (fs_disk, unit) store_io" where
  "unlink_attachments i = io_then sys (\<lambda>s. (Inr (), s\<lparr> fd_attachments := (fd_attachments s)(i := None) \<rparr>))"

definition remove_dir_all :: "session_id \<Rightarrow> (fs_disk, unit) store_io" where
  "remove_dir_all i s =
    (if i \<notin> set (fd_dirs s) then (Inl fs_not_found, s)
     else io_then (unlink (MetaPath i)) (io_then (unlink (LogPath i)) (io_then (unlink (TicketsPath i))
       (io_then (unlink (QuarantinePath i)) (io_then (unlink (EnvelopePath i)) (io_then (unlink_attachments i)
         (io_then sys (\<lambda>t. (Inr (), t\<lparr> fd_dirs := filter (\<lambda>j. j \<noteq> i) (fd_dirs t) \<rparr>)))))))) s)"

definition fs_delete :: "session_id \<Rightarrow> (fs_disk, unit) store_io" where
  "fs_delete i s =
    (case remove_dir_all i s of
       (Inl e, s') \<Rightarrow> if io_error_kind e = NotFound then (Inr (), s') else (Inl e, s')
     | (Inr x, s') \<Rightarrow> (Inr x, s'))"

subsection \<open>Loading\<close>

definition rename_to_quarantine :: "session_id \<Rightarrow> (fs_disk, unit) store_io" where
  "rename_to_quarantine i = io_then sys (\<lambda>s. (Inr (), s\<lparr> fd_files :=
    (fd_files s)(QuarantinePath i := fd_files s (TicketsPath i), TicketsPath i := None) \<rparr>))"

definition load_tickets :: "'k fs_env \<Rightarrow> session_id \<Rightarrow> (fs_disk, ticket_entry list) store_io" where
  "load_tickets fe i s =
    (case read_tickets fe i s of
       (Inr ts, s') \<Rightarrow> (Inr ts, s')
     | (Inl e, s') \<Rightarrow>
         if io_error_kind e = InvalidData then io_then (rename_to_quarantine i) (io_return []) s'
         else (Inl e, s'))"

definition log_tail :: "session_message list \<Rightarrow> seq" where
  "log_tail log = foldr (\<lambda>m. max (m_seq m)) log Seq_ZERO"

definition load_one :: "'k fs_env \<Rightarrow> session_id \<Rightarrow> (fs_disk, session_record) store_io" where
  "load_one fe i = io_bind (read_meta fe i) (\<lambda>meta.
    if mt_version meta \<noteq> Meta_CURRENT_VERSION then io_fail (fs_invalid ''unsupported meta version'')
    else io_bind (read_log fe i) (\<lambda>log.
      io_bind (load_tickets fe i) (\<lambda>tickets.
        io_bind (read_workspace_ticket i) (\<lambda>workspace_ticket.
          io_return \<lparr> sr_id = i, sr_host = mt_host meta, sr_members = mt_members meta,
            sr_head = max (mt_head meta) (log_tail log), sr_log = log, sr_kind = mt_kind meta,
            sr_host_epoch = mt_host_epoch meta, sr_tickets = tickets, sr_workspace_ticket = workspace_ticket \<rparr>))))"

fun load_dirs :: "'k fs_env \<Rightarrow> session_id list \<Rightarrow> (fs_disk, session_record list) store_io" where
  "load_dirs fe [] s = (Inr [], s)"
| "load_dirs fe (i # is) s =
    (case sys s of
       (Inl e, s') \<Rightarrow> (Inl e, s')
     | (Inr _, s') \<Rightarrow>
         (case load_one fe i s' of
            (Inl _, t) \<Rightarrow> load_dirs fe is t
          | (Inr r, t) \<Rightarrow> io_bind (load_dirs fe is) (\<lambda>rs. io_return (r # rs)) t))"

definition fs_load_all :: "'k fs_env \<Rightarrow> (fs_disk, session_record list) store_io" where
  "fs_load_all fe s =
    (case sys s of
       (Inl e, s') \<Rightarrow> if io_error_kind e = NotFound then (Inr [], s') else (Inl e, s')
     | (Inr _, s') \<Rightarrow> load_dirs fe (fd_dirs s') s')"

subsection \<open>Attachments\<close>

definition write_attachment :: "session_id \<Rightarrow> file_name \<Rightarrow> byte list \<Rightarrow> (fs_disk, unit) store_io" where
  "write_attachment i name payload =
    io_then sys (io_then (\<lambda>s. (Inr (), s\<lparr> fd_attachments := (fd_attachments s)
      (i := map_option (AList.update name payload) (fd_attachments s i)) \<rparr>)) sys)"

definition fs_put_attachment :: "session_id \<Rightarrow> string \<Rightarrow> byte list \<Rightarrow> (fs_disk, bool) store_io" where
  "fs_put_attachment i kind payload =
    (if length payload > MAX_FRAME_SIZE then io_fail (fs_invalid ''attachment payload too large'')
     else if length kind > MAX_KIND_LEN then io_fail (fs_invalid ''attachment kind too long'')
     else if kind = [] then io_fail (fs_invalid ''attachment kind must be non-empty'')
     else (\<lambda>s. if i \<notin> set (fd_dirs s) then (Inr False, s)
       else io_then (ensure_attachments_dir i)
         (io_then (write_attachment i (attachment_filename kind) payload) (io_return True)) s))"

text \<open>An entry that vanishes while it is listed is skipped.\<close>

definition skip_vanished :: "(fs_disk, 'a option) store_io \<Rightarrow> (fs_disk, 'a option) store_io" where
  "skip_vanished m s =
    (case m s of
       (Inl e, s') \<Rightarrow> if io_error_kind e = NotFound then (Inr None, s') else (Inl e, s')
     | (Inr x, s') \<Rightarrow> (Inr x, s'))"

definition list_entry ::
  "'k fs_env \<Rightarrow> string option \<Rightarrow> session_id \<Rightarrow> file_name \<times> byte list \<Rightarrow> (fs_disk, stored_attachment option) store_io" where
  "list_entry fe kind_filter i e = skip_vanished (io_then sys
    (if is_attachment_tmp (fst e) then io_return None
     else case decode_attachment_filename (fe_is_utf8 fe) (fst e) of
         None \<Rightarrow> io_return None
       | Some kind \<Rightarrow>
           if kind_filter \<noteq> None \<and> kind_filter \<noteq> Some kind then io_return None
           else io_then sys (if length (snd e) > MAX_FRAME_SIZE then io_return None
             else io_then sys (io_return (Some \<lparr> sa_session = i, sa_kind = kind, sa_payload = snd e \<rparr>)))))"

fun list_entries ::
  "'k fs_env \<Rightarrow> string option \<Rightarrow> session_id \<Rightarrow> (file_name \<times> byte list) list
    \<Rightarrow> (fs_disk, stored_attachment list) store_io" where
  "list_entries fe kf i [] = io_return []"
| "list_entries fe kf i (e # es) = io_bind (list_entry fe kf i e) (\<lambda>a.
    io_bind (list_entries fe kf i es) (\<lambda>as. io_return (case a of None \<Rightarrow> as | Some x \<Rightarrow> x # as)))"

text \<open>\<open>read_dir\<close> of the attachments directory of one session; absent is empty.\<close>

definition read_attachments_dir :: "session_id \<Rightarrow> (fs_disk, (file_name \<times> byte list) list option) store_io" where
  "read_attachments_dir i = skip_vanished (io_then sys (\<lambda>s. (Inr (fd_attachments s i), s)))"

fun list_dirs :: "'k fs_env \<Rightarrow> string option \<Rightarrow> session_id list \<Rightarrow> (fs_disk, stored_attachment list) store_io" where
  "list_dirs fe kf [] = io_return []"
| "list_dirs fe kf (i # is) = io_then sys (io_bind (read_attachments_dir i) (\<lambda>d.
    io_bind (case d of None \<Rightarrow> io_return [] | Some es \<Rightarrow> list_entries fe kf i es) (\<lambda>as.
      io_bind (list_dirs fe kf is) (\<lambda>bs. io_return (as @ bs)))))"

definition fs_list_attachments :: "'k fs_env \<Rightarrow> string option \<Rightarrow> (fs_disk, stored_attachment list) store_io" where
  "fs_list_attachments fe kind_filter s =
    (case sys s of
       (Inl e, s') \<Rightarrow> if io_error_kind e = NotFound then (Inr [], s') else (Inl e, s')
     | (Inr _, s') \<Rightarrow> list_dirs fe kind_filter (fd_dirs s') s')"

definition fs_delete_attachment :: "session_id \<Rightarrow> string \<Rightarrow> (fs_disk, unit) store_io" where
  "fs_delete_attachment i kind s =
    (case sys s of
       (Inl e, s') \<Rightarrow> if io_error_kind e = NotFound then (Inr (), s') else (Inl e, s')
     | (Inr _, s') \<Rightarrow> (Inr (), s'\<lparr> fd_attachments := (fd_attachments s')
         (i := map_option (AList.delete (attachment_filename kind)) (fd_attachments s' i)) \<rparr>))"

text \<open>The sweep of \<open>open\<close>, with its best-effort removals.\<close>

definition sweep_tmp_files :: "fs_disk \<Rightarrow> fs_disk" where
  "sweep_tmp_files s = s\<lparr> fd_attachments := (\<lambda>i. if i \<in> set (fd_dirs s)
    then map_option (filter (\<lambda>(n, _). \<not> is_attachment_tmp n)) (fd_attachments s i) else fd_attachments s i) \<rparr>"

definition fs_ops :: "'k fs_env \<Rightarrow> fs_disk store_ops" where
  "fs_ops fe = \<lparr> so_create = fs_create fe, so_append = fs_append fe, so_bump_host_epoch = fs_bump_host_epoch fe,
    so_epoch_floor = fs_epoch_floor fe, so_put_tickets = fs_put_tickets fe,
    so_put_workspace_ticket = fs_put_workspace_ticket, so_add_member = fs_add_member fe,
    so_remove_member = fs_remove_member fe, so_delete = fs_delete, so_load_all = fs_load_all fe,
    so_put_attachment = fs_put_attachment, so_list_attachments = fs_list_attachments fe,
    so_delete_attachment = fs_delete_attachment \<rparr>"

end
