(* ===== verification/Fs_Refine.thy ===== *)
theory Fs_Refine
  imports Fs_Store
begin

text \<open>
  The on-disk store implements the same contract as the in-memory one: a relation between a disk
  and a memory store that every call keeps when the medium does not fail, what an append leaves
  behind when it does, and what loading makes of it.
\<close>

definition fs_env_ok :: "'k fs_env \<Rightarrow> bool" where
  "fs_env_ok fe \<longleftrightarrow> codec_ok (fe_message fe) \<and> codec_ok (fe_meta fe) \<and> codec_ok (fe_tickets fe) \<and> codec_ok (fe_floor fe)"

definition storable :: "'k fs_env \<Rightarrow> session_id \<Rightarrow> session_message \<Rightarrow> bool" where
  "storable fe i m \<longleftrightarrow> length (enc (fe_message fe) m) \<le> MAX_FRAME_SIZE \<and> keep_message fe i m"

text \<open>The directory of a session holds a record; the head of the meta document may lag.\<close>

definition dir_holds :: "'k fs_env \<Rightarrow> fs_disk \<Rightarrow> session_id \<Rightarrow> session_record \<Rightarrow> bool" where
  "dir_holds fe s i r \<longleftrightarrow> sr_id r = i \<and> i \<in> set (fd_dirs s)
    \<and> (\<exists>h. fd_files s (MetaPath i) = Some (enc (fe_meta fe) ((meta_from_record r)\<lparr> mt_head := h \<rparr>))
        \<and> sr_head r = max h (log_tail (sr_log r)))
    \<and> fd_files s (LogPath i) = Some (frames (fe_message fe) (sr_log r)) \<and> list_all (storable fe i) (sr_log r)
    \<and> (fd_files s (TicketsPath i) = Some (enc (fe_tickets fe)
          \<lparr> tf_version = TicketsFile_CURRENT_VERSION, tf_entries = sr_tickets r \<rparr>)
        \<or> fd_files s (TicketsPath i) = None \<and> sr_tickets r = [])
    \<and> fd_files s (EnvelopePath i) = sr_workspace_ticket r
    \<and> (\<forall>w. sr_workspace_ticket r = Some w \<longrightarrow> length w \<le> WORKSPACE_TICKET_ENVELOPE_MAX)"

definition dir_absent :: "fs_disk \<Rightarrow> session_id \<Rightarrow> bool" where
  "dir_absent s i \<longleftrightarrow> i \<notin> set (fd_dirs s) \<and> fd_files s (MetaPath i) = None \<and> fd_files s (LogPath i) = None
    \<and> fd_files s (TicketsPath i) = None \<and> fd_files s (EnvelopePath i) = None"

definition floor_holds :: "'k fs_env \<Rightarrow> fs_disk \<Rightarrow> session_id \<Rightarrow> u64 \<Rightarrow> bool" where
  "floor_holds fe s i f \<longleftrightarrow>
    fd_files s (FloorPath i) = Some (enc (fe_floor fe) \<lparr> ef_version = EpochFloorFile_CURRENT_VERSION, ef_floor = f \<rparr>)
    \<or> fd_files s (FloorPath i) = None \<and> f = 0"

definition dir_is :: "'k fs_env \<Rightarrow> fs_disk \<Rightarrow> session_id \<Rightarrow> session_record option \<Rightarrow> bool" where
  "dir_is fe s i x = (case x of None \<Rightarrow> dir_absent s i | Some r \<Rightarrow> dir_holds fe s i r)"

definition disk_holds :: "'k fs_env \<Rightarrow> fs_disk \<Rightarrow> memory_store \<Rightarrow> bool" where
  "disk_holds fe s mem \<longleftrightarrow> fd_faults s = [] \<and> distinct (fd_dirs s)
    \<and> (\<forall>i. dir_is fe s i (mem_rec mem i) \<and> floor_holds fe s i (mem_floor mem i))"

lemma dir_is_simps [simp]: "dir_is fe s i None = dir_absent s i" "dir_is fe s i (Some r) = dir_holds fe s i r"
  by (simp_all add: dir_is_def)

subsection \<open>System calls that succeed\<close>

lemma sys_calm [simp]: "fd_faults s = [] \<Longrightarrow> sys s = (Inr (), s)"
  by (simp add: sys_def)

lemma io_simps [simp]:
  "io_return x s = (Inr x, s)" "io_fail e s = (Inl e, s)"
  "m s = (Inr x, s') \<Longrightarrow> io_bind m f s = f x s'" "m s = (Inl e, s') \<Longrightarrow> io_bind m f s = (Inl e, s')"
  "n s = (Inr y, s') \<Longrightarrow> io_then n k s = k s'" "n s = (Inl e, s') \<Longrightarrow> io_then n k s = (Inl e, s')"
  by (simp_all add: io_return_def io_fail_def io_bind_def io_then_def)

lemma put_file_simp [simp]: "put_file p bs s = (Inr (), s\<lparr> fd_files := (fd_files s)(p \<mapsto> bs) \<rparr>)"
  by (simp add: put_file_def)

lemma put_same [simp]: "fd_files s p = Some bs \<Longrightarrow> s\<lparr> fd_files := (fd_files s)(p \<mapsto> bs) \<rparr> = s"
  by (simp add: fun_upd_idem)

lemma append_file_calm [simp]:
  "\<lbrakk>fd_faults s = []; fd_files s p = Some old\<rbrakk> \<Longrightarrow>
    append_file p bs s = (Inr (), s\<lparr> fd_files := (fd_files s)(p \<mapsto> old @ bs) \<rparr>)"
  by (simp add: append_file_def)

lemma read_file_calm [simp]:
  "\<lbrakk>fd_faults s = []; fd_files s p = Some bs\<rbrakk> \<Longrightarrow> read_file p s = (Inr bs, s)"
  "\<lbrakk>fd_faults s = []; fd_files s p = None\<rbrakk> \<Longrightarrow> read_file p s = (Inl fs_not_found, s)"
  by (simp_all add: read_file_def)

lemma read_json_calm [simp]:
  "\<lbrakk>fd_faults s = []; fd_files s p = Some bs; dec c bs = Inr x\<rbrakk> \<Longrightarrow> read_json c p s = (Inr x, s)"
  "\<lbrakk>fd_faults s = []; fd_files s p = None\<rbrakk> \<Longrightarrow> read_json c p s = (Inl fs_not_found, s)"
  by (simp_all add: read_json_def)

lemma write_atomic_calm [simp]:
  "\<lbrakk>fd_faults s = []; parent_exists p s\<rbrakk> \<Longrightarrow>
    write_bytes_atomic p bs s = (Inr (), s\<lparr> fd_files := (fd_files s)(p \<mapsto> bs) \<rparr>)"
  "\<not> parent_exists p s \<Longrightarrow> write_bytes_atomic p bs s = (Inl fs_not_found, s)"
  by (simp_all add: write_bytes_atomic_def)

lemma not_found_kind [simp]: "io_error_kind fs_not_found = NotFound" "io_error_kind (fs_invalid t) = InvalidData"
  by (simp_all add: fs_not_found_def fs_invalid_def)

subsection \<open>Loading a directory\<close>

lemma log_tail_simps [simp]:
  "log_tail [] = Seq_ZERO" "log_tail (m # ms) = max (m_seq m) (log_tail ms)"
  "log_tail (ms @ [m]) = max (log_tail ms) (m_seq m)"
proof goal_cases
  case 3 show ?case
    by (induction ms) (auto simp: log_tail_def max.assoc max.commute max.left_commute)
qed (simp_all add: log_tail_def)

lemma read_log_take:
  assumes "fd_faults s = []" "fd_files s (LogPath i) = Some bs"
  shows "read_log fe i s = (Inr (fst (read_frames (fe_message fe) (keep_message fe i) bs)),
    s\<lparr> fd_files := (fd_files s)(LogPath i \<mapsto> take (snd (read_frames (fe_message fe) (keep_message fe i) bs)) bs) \<rparr>)"
  using assms put_same [OF assms(2)] by (auto simp: read_log_def split: prod.splits)

lemma read_log_holds:
  assumes "fs_env_ok fe" "fd_faults s = []" "list_all (storable fe i) ms"
    and "fd_files s (LogPath i) = Some (frames (fe_message fe) ms @ torn)"
    and "read_frames (fe_message fe) (keep_message fe i) torn = ([], 0)"
  shows "read_log fe i s = (Inr ms, s\<lparr> fd_files := (fd_files s)(LogPath i \<mapsto> frames (fe_message fe) ms) \<rparr>)"
proof -
  have "read_frames (fe_message fe) (keep_message fe i) (frames (fe_message fe) ms @ torn) =
      (ms, length (frames (fe_message fe) ms))"
    using read_frames_append [of "fe_message fe" ms "keep_message fe i" torn] assms
    by (auto simp: fs_env_ok_def storable_def list_all_iff)
  then show ?thesis using read_log_take [OF assms(2,4), of fe] by simp
qed

lemma load_tickets_holds:
  assumes "fs_env_ok fe" "fd_faults s = []"
    and "fd_files s (TicketsPath i) = Some (enc (fe_tickets fe) \<lparr> tf_version = TicketsFile_CURRENT_VERSION, tf_entries = ts \<rparr>)
      \<or> fd_files s (TicketsPath i) = None \<and> ts = []"
  shows "load_tickets fe i s = (Inr ts, s)"
  using assms codec_okD [of "fe_tickets fe"]
  by (auto simp: fs_env_ok_def load_tickets_def read_tickets_def)

text \<open>A directory whose log ends in the rest of an unfinished write loads as if it was not there,
  and is repaired.\<close>

definition repaired :: "'k fs_env \<Rightarrow> session_id \<Rightarrow> session_record \<Rightarrow> fs_disk \<Rightarrow> fs_disk" where
  "repaired fe i r s = s\<lparr> fd_files := (fd_files s)(LogPath i \<mapsto> frames (fe_message fe) (sr_log r)) \<rparr>"

definition dir_torn :: "'k fs_env \<Rightarrow> fs_disk \<Rightarrow> session_id \<Rightarrow> session_record \<Rightarrow> bool" where
  "dir_torn fe s i r \<longleftrightarrow> dir_holds fe (repaired fe i r s) i r
    \<and> (\<exists>torn. fd_files s (LogPath i) = Some (frames (fe_message fe) (sr_log r) @ torn)
        \<and> read_frames (fe_message fe) (keep_message fe i) torn = ([], 0))"

lemma repaired_simps [simp]:
  "fd_faults (repaired fe i r s) = fd_faults s" "fd_dirs (repaired fe i r s) = fd_dirs s"
  "p \<noteq> LogPath i \<Longrightarrow> fd_files (repaired fe i r s) p = fd_files s p"
  by (simp_all add: repaired_def)

lemma repaired_id: "dir_holds fe s i r \<Longrightarrow> repaired fe i r s = s"
  by (auto simp: dir_holds_def repaired_def)

lemma dir_holds_torn: "dir_holds fe s i r \<Longrightarrow> dir_torn fe s i r"
  by (auto simp: dir_torn_def repaired_id read_frames_short dir_holds_def)

lemma load_one_docs:
  assumes ok: "fs_env_ok fe" and calm: "fd_faults s = []" "fd_faults t = []" and sid: "sr_id r = i"
    and meta: "fd_files s (MetaPath i) = Some (enc (fe_meta fe) ((meta_from_record r)\<lparr> mt_head := h \<rparr>))"
    and log: "read_log fe i s = (Inr ms, t)" and tickets: "load_tickets fe i t = (Inr (sr_tickets r), t)"
    and env: "fd_files t (EnvelopePath i) = sr_workspace_ticket r"
    and small: "\<And>w. sr_workspace_ticket r = Some w \<Longrightarrow> length w \<le> WORKSPACE_TICKET_ENVELOPE_MAX"
  shows "load_one fe i s = (Inr (r\<lparr> sr_head := max h (log_tail ms), sr_log := ms \<rparr>), t)"
proof -
  have m: "read_meta fe i s = (Inr ((meta_from_record r)\<lparr> mt_head := h \<rparr>), s)"
    using ok calm meta by (auto simp: read_meta_def fs_env_ok_def codec_okD)
  have w: "read_workspace_ticket i t = (Inr (sr_workspace_ticket r), t)"
  proof (cases "sr_workspace_ticket r")
    case None with env calm show ?thesis by (simp add: read_workspace_ticket_def)
  next
    case (Some e) with env calm small [OF Some] show ?thesis by (simp add: read_workspace_ticket_def)
  qed
  show ?thesis
    unfolding load_one_def using m log tickets w sid
    by (cases r) (simp add: meta_from_record_def)
qed

lemma load_one_torn:
  assumes ok: "fs_env_ok fe" and calm: "fd_faults s = []" and torn: "dir_torn fe s i r"
  shows "load_one fe i s = (Inr r, repaired fe i r s)"
proof -
  from torn have h: "dir_holds fe (repaired fe i r s) i r" by (simp add: dir_torn_def)
  then obtain hd where meta: "fd_files s (MetaPath i) = Some (enc (fe_meta fe) ((meta_from_record r)\<lparr> mt_head := hd \<rparr>))"
      and head: "sr_head r = max hd (log_tail (sr_log r))" and st: "list_all (storable fe i) (sr_log r)"
      and env: "fd_files (repaired fe i r s) (EnvelopePath i) = sr_workspace_ticket r" and sid: "sr_id r = i"
      and small: "\<And>w. sr_workspace_ticket r = Some w \<Longrightarrow> length w \<le> WORKSPACE_TICKET_ENVELOPE_MAX"
    by (auto simp: dir_holds_def)
  from torn obtain t where "fd_files s (LogPath i) = Some (frames (fe_message fe) (sr_log r) @ t)"
      "read_frames (fe_message fe) (keep_message fe i) t = ([], 0)"
    by (auto simp: dir_torn_def)
  from read_log_holds [OF ok calm st this] have l: "read_log fe i s = (Inr (sr_log r), repaired fe i r s)"
    by (simp add: repaired_def)
  have t: "load_tickets fe i (repaired fe i r s) = (Inr (sr_tickets r), repaired fe i r s)"
    using h by (intro load_tickets_holds [OF ok]) (auto simp: calm dir_holds_def)
  from load_one_docs [OF ok calm _ sid meta l t env small] calm head show ?thesis by simp
qed

lemma load_one_holds:
  assumes "fs_env_ok fe" "fd_faults s = []" "dir_holds fe s i r"
  shows "load_one fe i s = (Inr r, s)"
  using load_one_torn [OF assms(1,2) dir_holds_torn [OF assms(3)]] repaired_id [OF assms(3)] by simp

subsection \<open>One call at a time\<close>

lemma read_meta_holds:
  assumes "fs_env_ok fe" "fd_faults s = []" "dir_holds fe s i r"
  obtains h where "read_meta fe i s = (Inr ((meta_from_record r)\<lparr> mt_head := h \<rparr>), s)" "sr_head r = max h (log_tail (sr_log r))"
  using assms by (auto simp: dir_holds_def read_meta_def fs_env_ok_def codec_okD)

lemma read_meta_absent:
  assumes "fd_faults s = []" "dir_absent s i"
  shows "read_meta fe i s = (Inl fs_not_found, s)"
  using assms by (simp add: dir_absent_def read_meta_def)

lemma append_log_calm:
  assumes "fd_faults s = []" "i \<in> set (fd_dirs s)" "fd_files s (LogPath i) = Some old" "storable fe i m"
  shows "append_log fe i m s = (Inr (), s\<lparr> fd_files := (fd_files s)(LogPath i \<mapsto> old @ log_frame (fe_message fe) m) \<rparr>)"
  using assms by (simp add: append_log_def open_log_def storable_def log_frame_def Let_def del: be_bytes.simps)

lemma append_log_absent:
  assumes "fd_faults s = []" "i \<notin> set (fd_dirs s)"
  shows "\<exists>e. append_log fe i m s = (Inl e, s)"
  using assms by (auto simp: append_log_def open_log_def Let_def simp del: be_bytes.simps)

lemma frames_snoc: "frames pc (ms @ [m]) = frames pc ms @ log_frame pc m"
  by (simp add: frames_def)

lemma append_logs_calm:
  assumes "fd_faults s = []" "i \<in> set (fd_dirs s)" "fd_files s (LogPath i) = Some old" "list_all (storable fe i) ms"
  shows "append_logs fe i ms s = (Inr (), s\<lparr> fd_files := (fd_files s)(LogPath i \<mapsto> old @ frames (fe_message fe) ms) \<rparr>)"
  using assms
proof (induction ms arbitrary: s old)
  case Nil show ?case
    by (simp only: append_logs.simps io_simps frames_def list.map concat.simps append_Nil2 put_same [OF Nil(3)])
next
  case (Cons m ms)
  let ?s = "s\<lparr> fd_files := (fd_files s)(LogPath i \<mapsto> old @ log_frame (fe_message fe) m) \<rparr>"
  have "append_log fe i m s = (Inr (), ?s)" using Cons.prems by (intro append_log_calm) simp_all
  moreover have "append_logs fe i ms ?s = (Inr (), ?s\<lparr> fd_files := (fd_files ?s)
      (LogPath i \<mapsto> (old @ log_frame (fe_message fe) m) @ frames (fe_message fe) ms) \<rparr>)"
    using Cons.prems by (intro Cons.IH) simp_all
  ultimately show ?case by (simp add: frames_def fun_upd_def cong: if_cong)
qed

lemma raise_floor_calm:
  assumes "fs_env_ok fe" "fd_faults s = []" "floor_holds fe s i f"
  shows "read_and_raise_epoch_floor fe i v s = (Inr f, if v > f
    then s\<lparr> fd_floor_dir := True, fd_files := (fd_files s)(FloorPath i \<mapsto>
      enc (fe_floor fe) \<lparr> ef_version = EpochFloorFile_CURRENT_VERSION, ef_floor = v \<rparr>) \<rparr> else s)"
proof -
  have "read_epoch_floor fe i s = (Inr f, s)"
    using assms codec_okD [of "fe_floor fe"] by (auto simp: floor_holds_def read_epoch_floor_def fs_env_ok_def)
  moreover have "ensure_floor_dir s = (Inr (), s\<lparr> fd_floor_dir := True \<rparr>)"
    using assms(2) by (cases "fd_floor_dir s") (auto simp: ensure_floor_dir_def ensure_dir_def intro: fs_disk.equality)
  ultimately show ?thesis
    using assms(2) by (simp add: read_and_raise_epoch_floor_def write_json_atomic_def)
qed

text \<open>An update of the meta document.\<close>

lemma meta_update_holds:
  assumes "fs_env_ok fe" "fd_faults s = []" "dir_holds fe s i r"
    and "\<And>h. f ((meta_from_record r)\<lparr> mt_head := h \<rparr>) = (meta_from_record r')\<lparr> mt_head := g h \<rparr>"
    and "r' = r\<lparr> sr_members := mem, sr_host_epoch := e \<rparr>" "\<And>h. g h = h"
  shows "\<exists>x. io_bind (read_meta fe i) (\<lambda>meta. write_meta fe i (f meta)) s =
      (Inr (), s\<lparr> fd_files := (fd_files s)(MetaPath i \<mapsto> x) \<rparr>)
    \<and> dir_holds fe (s\<lparr> fd_files := (fd_files s)(MetaPath i \<mapsto> x) \<rparr>) i r'"
proof -
  from assms(1-3) obtain h where h: "read_meta fe i s = (Inr ((meta_from_record r)\<lparr> mt_head := h \<rparr>), s)"
      "sr_head r = max h (log_tail (sr_log r))" by (rule read_meta_holds)
  have "i \<in> set (fd_dirs s)" using assms(3) by (simp add: dir_holds_def)
  then show ?thesis using assms h
    by (intro exI [of _ "enc (fe_meta fe) ((meta_from_record r')\<lparr> mt_head := h \<rparr>)"])
      (auto simp: write_meta_def write_json_atomic_def dir_holds_def)
qed

text \<open>Calls that only change the directory of one session keep every other directory.\<close>

definition path_owner :: "fs_path \<Rightarrow> session_id option" where
  "path_owner p = (case p of FloorPath _ \<Rightarrow> None | MetaPath i \<Rightarrow> Some i | LogPath i \<Rightarrow> Some i | TicketsPath i \<Rightarrow> Some i
    | QuarantinePath i \<Rightarrow> Some i | EnvelopePath i \<Rightarrow> Some i)"

lemma disk_holds_change:
  assumes "disk_holds fe s mem" "fd_faults s' = []" "distinct (fd_dirs s')"
    and dirs: "\<And>j. j \<noteq> i \<Longrightarrow> j \<in> set (fd_dirs s') \<longleftrightarrow> j \<in> set (fd_dirs s)"
    and files: "\<And>p. \<lbrakk>path_owner p \<noteq> Some i; p \<noteq> FloorPath i\<rbrakk> \<Longrightarrow> fd_files s' p = fd_files s p"
    and mem: "\<And>j. j \<noteq> i \<Longrightarrow> mem_rec mem' j = mem_rec mem j \<and> mem_floor mem' j = mem_floor mem j"
    and here: "dir_is fe s' i (mem_rec mem' i)" "floor_holds fe s' i (mem_floor mem' i)"
  shows "disk_holds fe s' mem'"
proof -
  have "dir_is fe s' j x = dir_is fe s j x" if "j \<noteq> i" for j x
    using that files dirs by (cases x) (simp_all add: dir_absent_def dir_holds_def path_owner_def)
  moreover have "floor_holds fe s' j f = floor_holds fe s j f" if "j \<noteq> i" for j f
    using that files by (simp add: floor_holds_def path_owner_def)
  ultimately show ?thesis
    using assms(1-3) mem here unfolding disk_holds_def by metis
qed

lemma disk_holds_put:
  assumes "disk_holds fe s mem" "path_owner p = Some i" "mem_rec mem' = (mem_rec mem)(i \<mapsto> r')" "mem_floor mem' = mem_floor mem"
    and "dir_holds fe (s\<lparr> fd_files := (fd_files s)(p \<mapsto> x) \<rparr>) i r'"
  shows "disk_holds fe (s\<lparr> fd_files := (fd_files s)(p \<mapsto> x) \<rparr>) mem'"
  using assms by (intro disk_holds_change [OF assms(1), where i = i]) (auto simp: disk_holds_def floor_holds_def path_owner_def)

subsection \<open>Simulation\<close>

definition simulates :: "'k fs_env \<Rightarrow> (io_error + unit) \<times> fs_disk \<Rightarrow> (io_error + unit) \<times> memory_store \<Rightarrow> bool" where
  "simulates fe d m \<longleftrightarrow> isl (fst d) = isl (fst m) \<and> disk_holds fe (snd d) (snd m)"

fun acceptable :: "'k fs_env \<Rightarrow> memory_store \<Rightarrow> store_call \<Rightarrow> bool" where
  "acceptable fe mem (SCreate r) = (mem_rec mem (sr_id r) = None \<and> list_all (storable fe (sr_id r)) (sr_log r)
    \<and> log_tail (sr_log r) \<le> sr_head r
    \<and> (case sr_workspace_ticket r of None \<Rightarrow> True | Some w \<Rightarrow> length w \<le> WORKSPACE_TICKET_ENVELOPE_MAX))"
| "acceptable fe mem (SAppend i m) = storable fe i m"
| "acceptable fe mem (SBumpHostEpoch i e) = (mem_rec mem i \<noteq> None)"
| "acceptable fe mem _ = True"

lemma disk_holdsD:
  assumes "disk_holds fe s mem"
  shows "fd_faults s = []" "mem_rec mem i = Some r \<Longrightarrow> dir_holds fe s i r" "mem_rec mem i = None \<Longrightarrow> dir_absent s i"
    "floor_holds fe s i (mem_floor mem i)" "i \<in> set (fd_dirs s) \<longleftrightarrow> mem_rec mem i \<noteq> None"
proof -
  have d: "dir_is fe s i (mem_rec mem i)" using assms by (simp add: disk_holds_def)
  show "fd_faults s = []" "floor_holds fe s i (mem_floor mem i)" using assms by (simp_all add: disk_holds_def)
  show "mem_rec mem i = Some r \<Longrightarrow> dir_holds fe s i r" "mem_rec mem i = None \<Longrightarrow> dir_absent s i"
    using d by simp_all
  show "i \<in> set (fd_dirs s) \<longleftrightarrow> mem_rec mem i \<noteq> None"
    using d by (cases "mem_rec mem i") (auto simp: dir_holds_def dir_absent_def)
qed

lemma mem_update_record_cases:
  assumes "mem_rec mem i = Some r"
  obtains mem' where "mem_update_record i f mem = (Inr (), mem')" "mem_rec mem' = (mem_rec mem)(i \<mapsto> f r)"
    "mem_floor mem' = mem_floor mem"
  using assms mem_update_record_Inr [of i f mem]
  by (auto simp: mem_update_record_def mem_rec_def split: option.splits)

lemma mem_update_record_None: "mem_rec mem i = None \<Longrightarrow> mem_update_record i f mem = (Inl unknown_session, mem)"
  by (simp add: mem_update_record_def mem_rec_def)

lemma sim_member:
  assumes ok: "fs_env_ok fe" and d: "disk_holds fe s mem"
    and f: "\<And>m. f m = m\<lparr> mt_members := g (mt_members m) \<rparr>"
  shows "simulates fe (io_bind (read_meta fe i) (\<lambda>meta. write_meta fe i (f meta)) s)
    (mem_update_record i (\<lambda>r. r\<lparr> sr_members := g (sr_members r) \<rparr>) mem)"
proof (cases "mem_rec mem i")
  case None
  with d show ?thesis
    by (simp add: simulates_def mem_update_record_None read_meta_absent disk_holdsD [OF d])
next
  case (Some r)
  let ?r = "r\<lparr> sr_members := g (sr_members r) \<rparr>"
  have "f ((meta_from_record r)\<lparr> mt_head := h \<rparr>) = (meta_from_record ?r)\<lparr> mt_head := h \<rparr>" for h
    by (simp add: f meta_from_record_def)
  from meta_update_holds [where g = "\<lambda>h. h" and mem = "g (sr_members r)" and e = "sr_host_epoch r",
      OF ok disk_holdsD(1) [OF d] disk_holdsD(2) [OF d Some] this]
  obtain x where x: "io_bind (read_meta fe i) (\<lambda>meta. write_meta fe i (f meta)) s =
      (Inr (), s\<lparr> fd_files := (fd_files s)(MetaPath i \<mapsto> x) \<rparr>)"
      "dir_holds fe (s\<lparr> fd_files := (fd_files s)(MetaPath i \<mapsto> x) \<rparr>) i ?r" by auto
  from Some obtain mem' where m: "mem_update_record i (\<lambda>r. r\<lparr> sr_members := g (sr_members r) \<rparr>) mem = (Inr (), mem')"
      "mem_rec mem' = (mem_rec mem)(i \<mapsto> ?r)" "mem_floor mem' = mem_floor mem"
    by (rule mem_update_record_cases)
  show ?thesis
    using disk_holds_put [OF d _ m(2,3) x(2)] x(1) m(1) by (simp add: simulates_def path_owner_def)
qed

lemma sim_put_tickets:
  assumes ok: "fs_env_ok fe" and d: "disk_holds fe s mem"
  shows "simulates fe (fs_put_tickets fe i ts s) (mem_put_tickets i ts mem)"
proof (cases "mem_rec mem i")
  case None
  with d show ?thesis
    by (simp add: simulates_def mem_put_tickets_def mem_update_record_None fs_put_tickets_def disk_holdsD(5) [OF d])
next
  case (Some r)
  then obtain mem' where m: "mem_put_tickets i ts mem = (Inr (), mem')"
      "mem_rec mem' = (mem_rec mem)(i \<mapsto> r\<lparr> sr_tickets := ts \<rparr>)" "mem_floor mem' = mem_floor mem"
    unfolding mem_put_tickets_def by (rule mem_update_record_cases)
  let ?x = "enc (fe_tickets fe) \<lparr> tf_version = TicketsFile_CURRENT_VERSION, tf_entries = ts \<rparr>"
  have "dir_holds fe (s\<lparr> fd_files := (fd_files s)(TicketsPath i \<mapsto> ?x) \<rparr>) i (r\<lparr> sr_tickets := ts \<rparr>)"
    using disk_holdsD(2) [OF d Some] by (auto simp: dir_holds_def meta_from_record_def)
  from disk_holds_put [OF d _ m(2,3) this] m(1) Some show ?thesis
    by (simp add: simulates_def fs_put_tickets_def write_tickets_def write_json_atomic_def path_owner_def disk_holdsD [OF d])
qed

lemma sim_put_envelope:
  assumes ok: "fs_env_ok fe" and d: "disk_holds fe s mem"
  shows "simulates fe (fs_put_workspace_ticket i w s) (mem_put_workspace_ticket i w mem)"
proof (cases "mem_rec mem i")
  case None
  with d show ?thesis
    by (simp add: simulates_def mem_put_workspace_ticket_def mem_update_record_None fs_put_workspace_ticket_def
        disk_holdsD(5) [OF d])
next
  case (Some r)
  then obtain mem' where m: "mem_update_record i (\<lambda>r. r\<lparr> sr_workspace_ticket := Some w \<rparr>) mem = (Inr (), mem')"
      "mem_rec mem' = (mem_rec mem)(i \<mapsto> r\<lparr> sr_workspace_ticket := Some w \<rparr>)" "mem_floor mem' = mem_floor mem"
    by (rule mem_update_record_cases)
  have "dir_holds fe (s\<lparr> fd_files := (fd_files s)(EnvelopePath i \<mapsto> w) \<rparr>) i (r\<lparr> sr_workspace_ticket := Some w \<rparr>)"
    if "length w \<le> WORKSPACE_TICKET_ENVELOPE_MAX"
    using that disk_holdsD(2) [OF d Some] by (auto simp: dir_holds_def meta_from_record_def)
  from disk_holds_put [OF d _ m(2,3) this] m(1) Some d show ?thesis
    by (auto simp: simulates_def mem_put_workspace_ticket_def fs_put_workspace_ticket_def write_workspace_ticket_def
        path_owner_def disk_holdsD [OF d])
qed

lemma fs_append_calm:
  assumes ok: "fs_env_ok fe" and calm: "fd_faults s = []" and r: "dir_holds fe s i r" and m: "storable fe i m"
  obtains x where "fs_append fe i m s = (Inr (), s\<lparr> fd_files := (fd_files s)
      (LogPath i \<mapsto> frames (fe_message fe) (sr_log r) @ log_frame (fe_message fe) m, MetaPath i \<mapsto> x) \<rparr>)"
    "dir_holds fe (s\<lparr> fd_files := (fd_files s)
      (LogPath i \<mapsto> frames (fe_message fe) (sr_log r) @ log_frame (fe_message fe) m, MetaPath i \<mapsto> x) \<rparr>) i
      (r\<lparr> sr_head := max (sr_head r) (m_seq m), sr_log := sr_log r @ [m] \<rparr>)"
proof -
  let ?s = "s\<lparr> fd_files := (fd_files s)(LogPath i \<mapsto> frames (fe_message fe) (sr_log r) @ log_frame (fe_message fe) m) \<rparr>"
  let ?r = "r\<lparr> sr_head := max (sr_head r) (m_seq m), sr_log := sr_log r @ [m] \<rparr>"
  have a: "append_log fe i m s = (Inr (), ?s)"
    using r m by (intro append_log_calm [OF calm]) (simp_all add: dir_holds_def)
  from ok calm r obtain h where h: "read_meta fe i s = (Inr ((meta_from_record r)\<lparr> mt_head := h \<rparr>), s)"
      "sr_head r = max h (log_tail (sr_log r))" by (rule read_meta_holds)
  then have h': "read_meta fe i ?s = (Inr ((meta_from_record r)\<lparr> mt_head := h \<rparr>), ?s)"
    using ok calm r by (auto simp: dir_holds_def read_meta_def fs_env_ok_def codec_okD)
  let ?x = "enc (fe_meta fe) ((meta_from_record ?r)\<lparr> mt_head := max h (m_seq m) \<rparr>)"
  have "fs_append fe i m s = (Inr (), ?s\<lparr> fd_files := (fd_files ?s)(MetaPath i \<mapsto> ?x) \<rparr>)"
    using a h' calm r by (simp add: fs_append_def write_meta_def write_json_atomic_def dir_holds_def meta_from_record_def)
  moreover have "dir_holds fe (?s\<lparr> fd_files := (fd_files ?s)(MetaPath i \<mapsto> ?x) \<rparr>) i ?r"
    using r m h(2) by (auto simp: dir_holds_def frames_snoc max.assoc max.commute max.left_commute)
  ultimately show thesis by (intro that [of ?x]) simp_all
qed

lemma sim_append:
  assumes ok: "fs_env_ok fe" and d: "disk_holds fe s mem" and m: "storable fe i m"
  shows "simulates fe (fs_append fe i m s) (mem_append i m mem)"
proof (cases "mem_rec mem i")
  case None
  with append_log_absent [of s i fe m] d show ?thesis
    by (auto simp: simulates_def mem_append_def mem_update_record_None fs_append_def disk_holdsD [OF d])
next
  case (Some r)
  from ok disk_holdsD(1) [OF d] disk_holdsD(2) [OF d Some] m obtain x where x:
      "fs_append fe i m s = (Inr (), s\<lparr> fd_files := (fd_files s)
        (LogPath i \<mapsto> frames (fe_message fe) (sr_log r) @ log_frame (fe_message fe) m, MetaPath i \<mapsto> x) \<rparr>)"
      "dir_holds fe (s\<lparr> fd_files := (fd_files s)
        (LogPath i \<mapsto> frames (fe_message fe) (sr_log r) @ log_frame (fe_message fe) m, MetaPath i \<mapsto> x) \<rparr>) i
        (r\<lparr> sr_head := max (sr_head r) (m_seq m), sr_log := sr_log r @ [m] \<rparr>)"
    by (rule fs_append_calm)
  from Some obtain mem' where m: "mem_append i m mem = (Inr (), mem')"
      "mem_rec mem' = (mem_rec mem)(i \<mapsto> r\<lparr> sr_head := max (sr_head r) (m_seq m), sr_log := sr_log r @ [m] \<rparr>)"
      "mem_floor mem' = mem_floor mem"
    unfolding mem_append_def by (rule mem_update_record_cases)
  have "disk_holds fe (s\<lparr> fd_files := (fd_files s)
      (LogPath i \<mapsto> frames (fe_message fe) (sr_log r) @ log_frame (fe_message fe) m, MetaPath i \<mapsto> x) \<rparr>) mem'"
    using d x(2) m(2,3) disk_holdsD(4) [OF d, of i]
    by (intro disk_holds_change [OF d, where i = i]) (auto simp: disk_holds_def floor_holds_def path_owner_def)
  with x(1) m(1) show ?thesis by (simp add: simulates_def)
qed

lemma floor_raised:
  "floor_holds fe s i f \<Longrightarrow> floor_holds fe (if v > f
    then s\<lparr> fd_floor_dir := True, fd_files := (fd_files s)(FloorPath i \<mapsto>
      enc (fe_floor fe) \<lparr> ef_version = EpochFloorFile_CURRENT_VERSION, ef_floor = v \<rparr>) \<rparr> else s) i (max f v)"
  by (auto simp: floor_holds_def max_def)

lemma sim_delete:
  assumes d: "disk_holds fe s mem"
  shows "simulates fe (fs_delete i s) (mem_delete i mem)"
proof (cases "mem_rec mem i")
  case None
  then have "mem_rec (snd (mem_delete i mem)) = mem_rec mem" "mem_floor (snd (mem_delete i mem)) = mem_floor mem"
    by (auto simp: mem_delete_def mem_rec_def fun_eq_iff delete_conv')
  with None d show ?thesis
    by (simp add: simulates_def fs_delete_def remove_dir_all_def disk_holdsD(5) [OF d] mem_delete_def disk_holds_def)
next
  case (Some r)
  let ?s = "s\<lparr> fd_files := (fd_files s)(MetaPath i := None, LogPath i := None, TicketsPath i := None,
      QuarantinePath i := None, EnvelopePath i := None), fd_attachments := (fd_attachments s)(i := None),
      fd_dirs := filter (\<lambda>j. j \<noteq> i) (fd_dirs s) \<rparr>"
  have "fs_delete i s = (Inr (), ?s)"
    using Some by (simp add: fs_delete_def remove_dir_all_def unlink_def unlink_attachments_def disk_holdsD [OF d])
  moreover have "disk_holds fe ?s (snd (mem_delete i mem))"
    using d disk_holdsD(4) [OF d, of i]
    by (intro disk_holds_change [OF d, where i = i])
      (auto simp: mem_delete_def mem_rec_def delete_conv' disk_holds_def floor_holds_def path_owner_def dir_absent_def)
  ultimately show ?thesis by (simp add: simulates_def mem_delete_def)
qed

lemma sim_bump:
  assumes ok: "fs_env_ok fe" and d: "disk_holds fe s mem" and known: "mem_rec mem i \<noteq> None"
  shows "simulates fe (fs_bump_host_epoch fe i e s) (mem_bump_host_epoch i e mem)"
proof -
  from known obtain r where r: "mem_rec mem i = Some r" by auto
  let ?f = "mem_floor mem i" and ?r = "r\<lparr> sr_host_epoch := e \<rparr>"
  let ?s = "if e + 1 > ?f then s\<lparr> fd_floor_dir := True, fd_files := (fd_files s)(FloorPath i \<mapsto>
      enc (fe_floor fe) \<lparr> ef_version = EpochFloorFile_CURRENT_VERSION, ef_floor = e + 1 \<rparr>) \<rparr> else s"
  note calm = disk_holdsD(1) [OF d] and dir = disk_holdsD(2) [OF d r]
  from ok calm dir obtain h where h: "read_meta fe i s = (Inr ((meta_from_record r)\<lparr> mt_head := h \<rparr>), s)"
      "sr_head r = max h (log_tail (sr_log r))" by (rule read_meta_holds)
  let ?x = "enc (fe_meta fe) ((meta_from_record ?r)\<lparr> mt_head := h \<rparr>)"
  have "fs_bump_host_epoch fe i e s = (Inr (), ?s\<lparr> fd_files := (fd_files ?s)(MetaPath i \<mapsto> ?x) \<rparr>)"
    using h(1) raise_floor_calm [OF ok calm disk_holdsD(4) [OF d, of i], of "e + 1"] calm dir
    by (simp add: fs_bump_host_epoch_def write_meta_def write_json_atomic_def dir_holds_def meta_from_record_def)
  moreover
  have fm: "fst (mem_bump_host_epoch i e mem) = Inr ()" by (simp add: mem_bump_host_epoch_def Let_def)
  have mem: "mem_bump_host_epoch i e mem = (Inr (), snd (mem_bump_host_epoch i e mem))"
    by (simp add: prod_eq_iff fm)
  have "disk_holds fe (?s\<lparr> fd_files := (fd_files ?s)(MetaPath i \<mapsto> ?x) \<rparr>) (snd (mem_bump_host_epoch i e mem))"
  proof (rule disk_holds_change [OF d, where i = i], goal_cases)
    case (5 j) show ?case using mem_bump_Inr [OF mem] 5 by simp
  next
    case 6 show ?case using mem_bump_Inr [OF mem] r dir h(2) by (auto simp: dir_holds_def)
  next
    case 7 show ?case using mem_bump_Inr [OF mem] floor_raised [OF disk_holdsD(4) [OF d, of i], of "e + 1"]
      by (simp add: floor_holds_def)
  qed (use d in \<open>auto simp: disk_holds_def path_owner_def\<close>)
  ultimately show ?thesis unfolding simulates_def fm by simp
qed

lemma fs_create_calm:
  assumes ok: "fs_env_ok fe" and calm: "fd_faults s = []" and absent: "dir_absent s (sr_id r)"
    and floor: "floor_holds fe s (sr_id r) f" and log: "list_all (storable fe (sr_id r)) (sr_log r)"
    and env: "\<And>w. sr_workspace_ticket r = Some w \<Longrightarrow> length w \<le> WORKSPACE_TICKET_ENVELOPE_MAX"
  obtains s' where "fs_create fe r s = (Inr (), s')" "fd_faults s' = []" "fd_dirs s' = fd_dirs s @ [sr_id r]"
    "\<And>p. \<lbrakk>path_owner p \<noteq> Some (sr_id r); p \<noteq> FloorPath (sr_id r)\<rbrakk> \<Longrightarrow> fd_files s' p = fd_files s p"
    "log_tail (sr_log r) \<le> sr_head r \<Longrightarrow> dir_holds fe s' (sr_id r) r"
    "floor_holds fe s' (sr_id r) (max f (sr_host_epoch r + 1))"
proof -
  let ?i = "sr_id r" and ?v = "sr_host_epoch r + 1"
  let ?s0 = "s\<lparr> fd_dirs := fd_dirs s @ [?i] \<rparr>"
  let ?s1 = "if ?v > f then ?s0\<lparr> fd_floor_dir := True, fd_files := (fd_files ?s0)(FloorPath ?i \<mapsto>
      enc (fe_floor fe) \<lparr> ef_version = EpochFloorFile_CURRENT_VERSION, ef_floor = ?v \<rparr>) \<rparr> else ?s0"
  define s1 where "s1 = ?s1"
  have fl0: "floor_holds fe ?s0 ?i f" using floor by (simp add: floor_holds_def)
  have ens: "ensure_session_dir ?i s = (Inr (), ?s0)"
    using calm absent by (simp add: ensure_session_dir_def ensure_dir_def dir_absent_def)
  have raise: "read_and_raise_epoch_floor fe ?i ?v ?s0 = (Inr f, s1)"
    unfolding s1_def by (rule raise_floor_calm [OF ok _ fl0]) (simp add: calm)
  have s1: "fd_faults s1 = []" "fd_dirs s1 = fd_dirs s @ [?i]" "\<And>p. p \<noteq> FloorPath ?i \<Longrightarrow> fd_files s1 p = fd_files s p"
      "floor_holds fe s1 ?i (max f ?v)"
    using calm floor_raised [OF fl0, of ?v] by (simp_all add: s1_def)
  have open_: "open_log ?i s1 = (Inr (), s1\<lparr> fd_files := (fd_files s1)(LogPath ?i \<mapsto> []) \<rparr>)"
    using s1 absent by (simp add: open_log_def dir_absent_def)
  let ?F = "(fd_files s1)(LogPath ?i \<mapsto> [], MetaPath ?i \<mapsto> enc (fe_meta fe) (meta_from_record r))"
  let ?F1 = "if sr_tickets r = [] then ?F else ?F(TicketsPath ?i \<mapsto> enc (fe_tickets fe)
      \<lparr> tf_version = TicketsFile_CURRENT_VERSION, tf_entries = sr_tickets r \<rparr>)"
  let ?F2 = "?F1(EnvelopePath ?i := sr_workspace_ticket r)"
  let ?s' = "s1\<lparr> fd_files := ?F2(LogPath ?i \<mapsto> frames (fe_message fe) (sr_log r)) \<rparr>"
  have envelope: "(case sr_workspace_ticket r of None \<Rightarrow> io_return () | Some w \<Rightarrow> write_workspace_ticket ?i w)
      (s1\<lparr> fd_files := ?F1 \<rparr>) = (Inr (), s1\<lparr> fd_files := ?F2 \<rparr>)"
    using s1 env absent by (cases "sr_workspace_ticket r") (auto simp: write_workspace_ticket_def dir_absent_def fun_upd_idem)
  have logs: "append_logs fe ?i (sr_log r) (s1\<lparr> fd_files := ?F2 \<rparr>) = (Inr (), ?s')"
    using append_logs_calm [of "s1\<lparr> fd_files := ?F2 \<rparr>" ?i "[]" fe "sr_log r"] s1 log by simp
  have "fs_create fe r s = (Inr (), ?s')"
    unfolding fs_create_def using ens raise open_ s1 envelope logs
    by (simp add: write_meta_def write_tickets_def write_json_atomic_def split: if_splits)
  moreover have "dir_holds fe ?s' ?i r" if "log_tail (sr_log r) \<le> sr_head r"
    using that log env s1 absent
    by (auto simp: dir_holds_def dir_absent_def meta_from_record_def max_def)
  ultimately show thesis using s1 by (intro that [of ?s']) (auto simp: floor_holds_def path_owner_def)
qed

lemma sim_create:
  assumes ok: "fs_env_ok fe" and d: "disk_holds fe s mem" and acc: "acceptable fe mem (SCreate r)"
  shows "simulates fe (fs_create fe r s) (mem_create r mem)"
proof -
  have fm: "fst (mem_create r mem) = Inr ()" by (simp add: mem_create_def Let_def)
  then have "mem_create r mem = (Inr (), snd (mem_create r mem))" by (simp add: prod_eq_iff)
  note mem = mem_create_Inr [OF this]
  have absent: "mem_rec mem (sr_id r) = None" using acc by simp
  have env: "\<And>w. sr_workspace_ticket r = Some w \<Longrightarrow> length w \<le> WORKSPACE_TICKET_ENVELOPE_MAX" using acc by simp
  from acc obtain s' where s': "fs_create fe r s = (Inr (), s')" "fd_faults s' = []" "fd_dirs s' = fd_dirs s @ [sr_id r]"
      "\<And>p. \<lbrakk>path_owner p \<noteq> Some (sr_id r); p \<noteq> FloorPath (sr_id r)\<rbrakk> \<Longrightarrow> fd_files s' p = fd_files s p"
      "log_tail (sr_log r) \<le> sr_head r \<Longrightarrow> dir_holds fe s' (sr_id r) r"
      "floor_holds fe s' (sr_id r) (max (mem_floor mem (sr_id r)) (sr_host_epoch r + 1))"
    using fs_create_calm [OF ok disk_holdsD(1) [OF d] disk_holdsD(3) [OF d absent] disk_holdsD(4) [OF d] _ env] by auto
  have "sr_id r \<notin> set (fd_dirs s)" using absent by (simp add: disk_holdsD(5) [OF d])
  then have "disk_holds fe s' (snd (mem_create r mem))"
    using d s' mem acc
    by (intro disk_holds_change [OF d, where i = "sr_id r"]) (auto simp: disk_holds_def)
  with s'(1) fm show ?thesis by (simp add: simulates_def)
qed

lemma sim_step:
  assumes "fs_env_ok fe" "disk_holds fe s mem" "acceptable fe mem c"
  shows "simulates fe (store_step (fs_ops fe) c s) (store_step memory_ops c mem)"
proof (cases c)
  case (SAddMember i p)
  with sim_member [OF assms(1,2), where g = "insert (pi_id p)" and i = i] show ?thesis
    by (simp add: fs_ops_def memory_ops_def fs_add_member_def mem_add_member_def)
next
  case (SRemoveMember i q)
  with sim_member [OF assms(1,2), where g = "\<lambda>x. x - {q}" and i = i] show ?thesis
    by (simp add: fs_ops_def memory_ops_def fs_remove_member_def mem_remove_member_def)
next
  case (SBumpHostEpoch i e)
  then show ?thesis
    using sim_bump [OF assms(1,2), of i e] assms(3) by (simp add: fs_ops_def memory_ops_def)
qed (use assms sim_create sim_append sim_put_tickets sim_put_envelope sim_delete in
    \<open>auto simp: fs_ops_def memory_ops_def simp del: acceptable.simps(1)\<close>)

fun store_outcomes :: "'s store_ops \<Rightarrow> store_call list \<Rightarrow> 's \<Rightarrow> bool list \<times> 's" where
  "store_outcomes ops [] s = ([], s)"
| "store_outcomes ops (c # cs) s =
    (let (res, s') = store_step ops c s; (bs, t) = store_outcomes ops cs s' in ((\<not> isl res) # bs, t))"

fun acceptable_run :: "'k fs_env \<Rightarrow> store_call list \<Rightarrow> memory_store \<Rightarrow> bool" where
  "acceptable_run fe [] mem = True"
| "acceptable_run fe (c # cs) mem = (acceptable fe mem c \<and> acceptable_run fe cs (snd (store_step memory_ops c mem)))"

lemma sim_run:
  assumes "fs_env_ok fe" "disk_holds fe s mem" "acceptable_run fe cs mem"
  shows "fst (store_outcomes (fs_ops fe) cs s) = fst (store_outcomes memory_ops cs mem)
    \<and> disk_holds fe (snd (store_outcomes (fs_ops fe) cs s)) (snd (store_outcomes memory_ops cs mem))"
  using assms(2,3)
proof (induction cs arbitrary: s mem)
  case (Cons c cs)
  from sim_step [OF assms(1) Cons.prems(1)] Cons.prems(2)
  have "simulates fe (store_step (fs_ops fe) c s) (store_step memory_ops c mem)" by simp
  with Cons.IH [of "snd (store_step (fs_ops fe) c s)" "snd (store_step memory_ops c mem)"] Cons.prems(2)
  show ?case by (auto simp: simulates_def Let_def split: prod.splits)
qed simp

lemma disk_new: "disk_holds fe fs_new memory_new"
  by (simp add: disk_holds_def fs_new_def memory_new_def mem_rec_def mem_floor_def dir_absent_def floor_holds_def)

lemma load_dirs_holds:
  assumes "fs_env_ok fe" "fd_faults s = []" "\<And>i. i \<in> set is \<Longrightarrow> dir_holds fe s i (f i)"
  shows "load_dirs fe is s = (Inr (map f is), s)"
  using assms(3)
proof (induction "is")
  case (Cons i "is")
  then have "load_one fe i s = (Inr (f i), s)" by (intro load_one_holds [OF assms(1,2)]) simp
  with Cons show ?case by (simp add: assms(2))
qed simp

lemma load_all_holds:
  assumes "fs_env_ok fe" "disk_holds fe s mem"
  shows "fs_load_all fe s = (Inr (map (\<lambda>i. the (mem_rec mem i)) (fd_dirs s)), s)"
proof -
  have "dir_holds fe s i (the (mem_rec mem i))" if "i \<in> set (fd_dirs s)" for i
    using that disk_holdsD(2,5) [OF assms(2)] by auto
  from load_dirs_holds [OF assms(1) disk_holdsD(1) [OF assms(2)] this]
  show ?thesis by (simp add: fs_load_all_def disk_holdsD(1) [OF assms(2)])
qed

end
