(* ===== verification/Fs_Faults.thy ===== *)
theory Fs_Faults
  imports Fs_Refine
begin

text \<open>
  The on-disk store when the medium fails: system calls fail in any pattern, writes stop in the
  middle, the daemon restarts.  What an interrupted append leaves behind is one of the two legal
  records; what a daemon makes of it that goes on without a restart is not.
\<close>

subsection \<open>Triples with a condition for the error case\<close>

definition hoare :: "('s \<Rightarrow> bool) \<Rightarrow> ('s, 'a) store_io \<Rightarrow> ('a \<Rightarrow> 's \<Rightarrow> bool) \<Rightarrow> ('s \<Rightarrow> bool) \<Rightarrow> bool" where
  "hoare P m Q E \<longleftrightarrow> (\<forall>s. P s \<longrightarrow> (case m s of (Inl _, s') \<Rightarrow> E s' | (Inr x, s') \<Rightarrow> Q x s'))"

lemma hoareI: "(\<And>s. P s \<Longrightarrow> case m s of (Inl _, s') \<Rightarrow> E s' | (Inr x, s') \<Rightarrow> Q x s') \<Longrightarrow> hoare P m Q E"
  by (simp add: hoare_def)

lemma hoareD:
  assumes "hoare P m Q E" "P s"
  shows "m s = (Inr x, s') \<Longrightarrow> Q x s'" "m s = (Inl e, s') \<Longrightarrow> E s'"
  using assms unfolding hoare_def by force+

lemma hoare_bind: "\<lbrakk>hoare P m R E; \<And>x. hoare (R x) (f x) Q E\<rbrakk> \<Longrightarrow> hoare P (io_bind m f) Q E"
  unfolding hoare_def io_bind_def by (fastforce split: prod.splits sum.splits)

lemma hoare_then: "\<lbrakk>hoare P m (\<lambda>_. R) E; hoare R n Q E\<rbrakk> \<Longrightarrow> hoare P (io_then m n) Q E"
  unfolding io_then_def by (rule hoare_bind)

lemma hoare_return: "hoare (Q x) (io_return x) Q E"
  by (simp add: hoare_def)

lemma hoare_fail: "hoare E (io_fail e) Q E"
  by (simp add: hoare_def)

lemma hoare_weaken:
  "\<lbrakk>hoare P' m Q' E'; \<And>s. P s \<Longrightarrow> P' s; \<And>x s. Q' x s \<Longrightarrow> Q x s; \<And>s. E' s \<Longrightarrow> E s\<rbrakk> \<Longrightarrow> hoare P m Q E"
  unfolding hoare_def by (fastforce split: prod.splits sum.splits)

subsection \<open>An append under faults\<close>

text \<open>The disk with other files and other faults ahead.\<close>

definition with_files :: "fs_disk \<Rightarrow> (fs_path \<Rightarrow> byte list option) \<Rightarrow> fs_disk \<Rightarrow> bool" where
  "with_files s F t \<longleftrightarrow> t = s\<lparr> fd_files := F, fd_faults := fd_faults t \<rparr>"

lemma with_filesD:
  "with_files s F t \<Longrightarrow> fd_files t = F" "with_files s F t \<Longrightarrow> fd_dirs t = fd_dirs s"
  "with_files s F t \<Longrightarrow> t\<lparr> fd_faults := [] \<rparr> = s\<lparr> fd_files := F, fd_faults := [] \<rparr>"
  unfolding with_files_def by (metis fs_disk.select_convs fs_disk.surjective fs_disk.update_convs)+

lemma with_files_update [intro]:
  "with_files s F t \<Longrightarrow> with_files s F (t\<lparr> fd_faults := fs \<rparr>)"
  "with_files s F t \<Longrightarrow> with_files s F' (t\<lparr> fd_files := F' \<rparr>)"
  by (cases s; cases t; simp add: with_files_def)+

lemma with_files_refl [intro]: "with_files s (fd_files s) (s\<lparr> fd_faults := fs \<rparr>)"
  by (cases s) (simp add: with_files_def)

lemma hoare_sys: "hoare (with_files s F) sys (\<lambda>_. with_files s F) (with_files s F)"
  by (rule hoareI) (auto simp: sys_def split: list.splits option.splits)

lemma hoare_put: "hoare (with_files s F) (put_file p bs) (\<lambda>_. with_files s (F(p \<mapsto> bs))) E"
  by (rule hoareI, frule with_filesD(1)) auto

lemma hoare_append_file:
  assumes "F p = Some old"
  shows "hoare (with_files s F) (append_file p bs) (\<lambda>_. with_files s (F(p \<mapsto> old @ bs)))
    (\<lambda>t. \<exists>k. with_files s (F(p \<mapsto> old @ take k bs)) t)"
  by (rule hoareI, frule with_filesD(1)) (auto simp: append_file_def assms Let_def split: list.splits option.splits)

lemma hoare_write_json:
  assumes "parent_exists p s" "path_owner p \<noteq> None"
  shows "hoare (with_files s F) (write_json_atomic c p x) (\<lambda>_. with_files s (F(p \<mapsto> enc c x)))
    (\<lambda>t. with_files s F t \<or> with_files s (F(p \<mapsto> enc c x)) t)"
proof -
  have h: "hoare (with_files s F) (io_then sys (io_then (put_file p (enc c x)) sys)) (\<lambda>_. with_files s (F(p \<mapsto> enc c x)))
      (\<lambda>t. with_files s F t \<or> with_files s (F(p \<mapsto> enc c x)) t)"
    by (rule hoare_then, rule hoare_weaken [OF hoare_sys], assumption, assumption, simp,
        rule hoare_then [OF hoare_put], rule hoare_weaken [OF hoare_sys]) auto
  have "parent_exists p t" if "with_files s F t" for t
    using assms with_filesD(2) [OF that] by (cases p) (auto simp: path_owner_def)
  then show ?thesis using h
    by (simp add: hoare_def write_json_atomic_def write_bytes_atomic_def)
qed

lemma hoare_append_log:
  assumes "i \<in> set (fd_dirs s)" "F (LogPath i) = Some old" "length (enc (fe_message fe) m) \<le> MAX_FRAME_SIZE"
  shows "hoare (with_files s F) (append_log fe i m)
    (\<lambda>_. with_files s (F(LogPath i \<mapsto> old @ log_frame (fe_message fe) m)))
    (\<lambda>t. \<exists>k. with_files s (F(LogPath i \<mapsto> old @ take k (log_frame (fe_message fe) m))) t)"
proof -
  let ?len = "be_bytes 4 (length (enc (fe_message fe) m))" and ?pl = "enc (fe_message fe) m"
  let ?E = "\<lambda>t. \<exists>k. with_files s (F(LogPath i \<mapsto> old @ take k (log_frame (fe_message fe) m))) t"
  have unwritten: "with_files s F t \<Longrightarrow> ?E t" for t using assms(2) by (intro exI [of _ 0]) (simp add: fun_upd_idem)
  have part1: "with_files s (F(LogPath i \<mapsto> old @ take k ?len)) t \<Longrightarrow> ?E t" for k t
    by (rule exI [of _ "min k 4"]) (auto simp: log_frame_def min_def simp del: be_bytes.simps)
  have part2: "with_files s (F(LogPath i \<mapsto> (old @ ?len) @ take k ?pl)) t \<Longrightarrow> ?E t" for k t
    by (rule exI [of _ "4 + k"]) (simp add: log_frame_def del: be_bytes.simps)
  have opened: "hoare (with_files s F) (open_log i) (\<lambda>_. with_files s F) ?E"
  proof -
    have "hoare (with_files s F) sys (\<lambda>_. with_files s F) ?E"
      by (rule hoare_weaken [OF hoare_sys]) (assumption | erule unwritten)+
    then show ?thesis unfolding open_log_def
    proof (rule hoare_then, intro hoareI)
      fix t assume "with_files s F t"
      with with_filesD(1,2) [OF this] show "case if i \<notin> set (fd_dirs t) then (Inl fs_not_found, t)
          else case fd_files t (LogPath i) of None \<Rightarrow> put_file (LogPath i) [] t | Some _ \<Rightarrow> (Inr (), t) of
          (Inl _, u) \<Rightarrow> ?E u | (Inr _, u) \<Rightarrow> with_files s F u" by (simp add: assms)
    qed
  qed
  have lens: "hoare (with_files s F) (append_file (LogPath i) ?len) (\<lambda>_. with_files s (F(LogPath i \<mapsto> old @ ?len))) ?E"
    by (rule hoare_weaken [OF hoare_append_file [where F = F, OF assms(2)]]) (auto intro: part1 simp del: be_bytes.simps)
  have pls: "hoare (with_files s (F(LogPath i \<mapsto> old @ ?len))) (append_file (LogPath i) ?pl)
      (\<lambda>_. with_files s (F(LogPath i \<mapsto> (old @ ?len) @ ?pl))) ?E"
    by (rule hoare_weaken [OF hoare_append_file [where F = "F(LogPath i \<mapsto> old @ ?len)" and old = "old @ ?len"]])
      (auto intro: part2 simp del: be_bytes.simps append_assoc)
  have syncs: "hoare (with_files s (F(LogPath i \<mapsto> (old @ ?len) @ ?pl))) sys
      (\<lambda>_. with_files s (F(LogPath i \<mapsto> old @ log_frame (fe_message fe) m))) ?E"
    by (rule hoare_weaken [OF hoare_sys], assumption)
      (auto simp: log_frame_def intro!: exI [of _ "length (log_frame (fe_message fe) m)"] simp del: be_bytes.simps)
  show ?thesis
    using hoare_then [OF opened hoare_then [OF lens hoare_then [OF pls syncs]]] assms(3)
    by (simp add: append_log_def Let_def del: be_bytes.simps)
qed

text \<open>The update of the head after the frame.\<close>

definition head_update :: "'k fs_env \<Rightarrow> session_record \<Rightarrow> session_message \<Rightarrow> seq \<Rightarrow> byte list" where
  "head_update fe r m h = enc (fe_meta fe) ((meta_from_record r)\<lparr> mt_head := max h (m_seq m) \<rparr>)"

lemma hoare_read_meta:
  assumes "fs_env_ok fe" "F (MetaPath i) = Some (enc (fe_meta fe) x)"
  shows "hoare (with_files s F) (read_meta fe i) (\<lambda>y t. with_files s F t \<and> y = x) (with_files s F)"
proof -
  have "hoare (with_files s F) (read_file (MetaPath i)) (\<lambda>y t. with_files s F t \<and> y = enc (fe_meta fe) x) (with_files s F)"
    unfolding read_file_def
    by (rule hoare_then [OF hoare_sys], rule hoareI, frule with_filesD(1)) (simp add: assms(2))
  then show ?thesis
    unfolding read_meta_def read_json_def
    by (rule hoare_bind) (use assms(1) in \<open>auto simp: hoare_def fs_env_ok_def codec_okD\<close>)
qed

lemma hoare_append:
  assumes ok: "fs_env_ok fe" and dir: "i \<in> set (fd_dirs s)" "fd_files s (LogPath i) = Some old"
    and meta: "fd_files s (MetaPath i) = Some (enc (fe_meta fe) ((meta_from_record r)\<lparr> mt_head := h \<rparr>))"
    and m: "length (enc (fe_message fe) m) \<le> MAX_FRAME_SIZE"
  defines "F \<equiv> (fd_files s)(LogPath i \<mapsto> old @ log_frame (fe_message fe) m)"
  shows "hoare (with_files s (fd_files s)) (fs_append fe i m)
    (\<lambda>_. with_files s (F(MetaPath i \<mapsto> head_update fe r m h)))
    (\<lambda>t. (\<exists>k. with_files s ((fd_files s)(LogPath i \<mapsto> old @ take k (log_frame (fe_message fe) m))) t)
      \<or> with_files s (F(MetaPath i \<mapsto> head_update fe r m h)) t)" (is "hoare _ _ ?Q ?E")
proof -
  have full: "with_files s F t \<Longrightarrow> ?E t" for t
    unfolding F_def by (intro disjI1 exI [of _ "length (log_frame (fe_message fe) m)"]) simp
  have a: "hoare (with_files s (fd_files s)) (append_log fe i m) (\<lambda>_. with_files s F) ?E"
    unfolding F_def by (rule hoare_weaken [OF hoare_append_log [where F = "fd_files s", OF dir m]]) auto
  have rm: "hoare (with_files s F) (read_meta fe i) (\<lambda>y t. with_files s F t \<and> y = (meta_from_record r)\<lparr> mt_head := h \<rparr>) ?E"
  proof -
    have "F (MetaPath i) = Some (enc (fe_meta fe) ((meta_from_record r)\<lparr> mt_head := h \<rparr>))" using meta by (simp add: F_def)
    from hoare_read_meta [where F = F, OF ok this] show ?thesis by (rule hoare_weaken) (assumption | erule full)+
  qed
  have w: "hoare (with_files s F) (write_meta fe i ((meta_from_record r)\<lparr> mt_head := max h (m_seq m) \<rparr>)) ?Q ?E"
  proof -
    have "parent_exists (MetaPath i) s" "path_owner (MetaPath i) \<noteq> None" using dir by (simp_all add: path_owner_def)
    from hoare_write_json [OF this, of F "fe_meta fe"] show ?thesis
      unfolding write_meta_def head_update_def
      by (rule hoare_weaken) (use full [unfolded head_update_def] in blast)+
  qed
  have "hoare (\<lambda>t. with_files s F t \<and> y = (meta_from_record r)\<lparr> mt_head := h \<rparr>)
      (write_meta fe i (y\<lparr> mt_head := max (mt_head y) (m_seq m) \<rparr>)) ?Q ?E" for y
    using w by (auto simp: hoare_def)
  from hoare_then [OF a hoare_bind [OF rm this]] show ?thesis by (simp add: fs_append_def)
qed

subsection \<open>Restart after an append\<close>

text \<open>A restart drops the faults that were ahead and loads.\<close>

definition restarted :: "fs_disk \<Rightarrow> fs_disk" where
  "restarted s = s\<lparr> fd_faults := [] \<rparr>"

definition appended :: "session_record \<Rightarrow> session_message \<Rightarrow> session_record" where
  "appended r m = r\<lparr> sr_head := max (sr_head r) (m_seq m), sr_log := sr_log r @ [m] \<rparr>"

lemma torn_or_whole:
  assumes ok: "fs_env_ok fe" and dir: "dir_holds fe s i r" and m: "storable fe i m"
  defines "t \<equiv> \<lambda>k. s\<lparr> fd_files := (fd_files s)(LogPath i \<mapsto>
      frames (fe_message fe) (sr_log r) @ take k (log_frame (fe_message fe) m)) \<rparr>"
  shows "k < length (log_frame (fe_message fe) m) \<Longrightarrow> dir_torn fe (t k) i r"
    and "length (log_frame (fe_message fe) m) \<le> k \<Longrightarrow> dir_holds fe (t k) i (appended r m)"
proof goal_cases
  case 1
  then have "read_frames (fe_message fe) (keep_message fe i) (take k (log_frame (fe_message fe) m)) = ([], 0)"
    using m by (intro read_frames_torn) (simp_all add: storable_def)
  with dir show ?case by (auto simp: dir_torn_def t_def repaired_def dir_holds_def)
next
  case 2
  with dir m show ?case
    by (auto simp: t_def dir_holds_def appended_def frames_snoc meta_from_record_def max.assoc)
qed

lemma append_then_restart:
  assumes ok: "fs_env_ok fe" and calm: "fd_faults s = []" and dir: "dir_holds fe s i r" and m: "storable fe i m"
    and run: "fs_append fe i m (s\<lparr> fd_faults := fp \<rparr>) = (res, s')"
  obtains r' F where "r' = r \<or> r' = appended r m" "res = Inr () \<Longrightarrow> r' = appended r m"
    "restarted s' = s\<lparr> fd_files := F \<rparr>" "\<And>p. path_owner p \<noteq> Some i \<Longrightarrow> F p = fd_files s p"
    "dir_torn fe (s\<lparr> fd_files := F \<rparr>) i r'"
proof -
  from dir obtain h where h: "fd_files s (MetaPath i) = Some (enc (fe_meta fe) ((meta_from_record r)\<lparr> mt_head := h \<rparr>))"
      "sr_head r = max h (log_tail (sr_log r))" and d: "i \<in> set (fd_dirs s)"
      "fd_files s (LogPath i) = Some (frames (fe_message fe) (sr_log r))"
    by (auto simp: dir_holds_def)
  let ?fr = "log_frame (fe_message fe) m" and ?fs = "frames (fe_message fe) (sr_log r)"
  let ?F = "\<lambda>k. (fd_files s)(LogPath i \<mapsto> ?fs @ take k ?fr)"
  let ?G = "(fd_files s)(LogPath i \<mapsto> ?fs @ ?fr, MetaPath i \<mapsto> head_update fe r m h)"
  have "length (enc (fe_message fe) m) \<le> MAX_FRAME_SIZE" using m by (simp add: storable_def)
  from hoareD [OF hoare_append [OF ok d h(1) this] with_files_refl] run
  have post: "res = Inr () \<Longrightarrow> with_files s ?G s'" "(\<exists>k. with_files s (?F k) s') \<or> with_files s ?G s'"
    by (cases res; auto)+
  have G: "dir_holds fe (s\<lparr> fd_files := ?G \<rparr>) i (appended r m)"
    using dir m h(2) by (auto simp: dir_holds_def appended_def head_update_def frames_snoc meta_from_record_def
        max.assoc max.commute max.left_commute)
  have re: "restarted s' = s\<lparr> fd_files := X \<rparr>" if "with_files s X s'" for X
    using with_filesD(3) [OF that] calm by (cases s) (simp add: restarted_def)
  show thesis
  proof (cases "with_files s ?G s'")
    case True
    show ?thesis
      by (rule that [OF _ _ re [OF True] _ dir_holds_torn [OF G]]) (auto simp: path_owner_def)
  next
    case False
    with post obtain k where k: "with_files s (?F k) s'" "res \<noteq> Inr ()" by auto
    show ?thesis
    proof (cases "k < length ?fr")
      case True
      show ?thesis
        by (rule that [OF _ _ re [OF k(1)] _ torn_or_whole(1) [OF ok dir m True]]) (use k(2) in \<open>auto simp: path_owner_def\<close>)
    next
      case False
      then have whole: "dir_holds fe (s\<lparr> fd_files := ?F k \<rparr>) i (appended r m)" by (intro torn_or_whole(2) [OF ok dir m]) simp
      show ?thesis
        by (rule that [OF _ _ re [OF k(1)] _ dir_holds_torn [OF whole]]) (use k(2) in \<open>auto simp: path_owner_def\<close>)
    qed
  qed
qed

lemma load_dirs_torn:
  assumes ok: "fs_env_ok fe" and "fd_faults s = []" "dir_torn fe s i (f i)" "\<And>j. \<lbrakk>j \<in> set is; j \<noteq> i\<rbrakk> \<Longrightarrow> dir_holds fe s j (f j)"
  shows "load_dirs fe is s = (Inr (map f is), if i \<in> set is then repaired fe i (f i) s else s)"
  using assms(2-4)
proof (induction "is" arbitrary: s)
  case (Cons j "is")
  show ?case
  proof (cases "j = i")
    case True
    let ?s = "repaired fe i (f i) s"
    have "dir_holds fe ?s i (f i)" using Cons.prems(2) by (simp add: dir_torn_def)
    moreover have "dir_holds fe ?s k (f k)" if "k \<in> set is" "k \<noteq> i" for k
      using Cons.prems(3) [of k] that by (auto simp: dir_holds_def)
    ultimately have "load_dirs fe is ?s = (Inr (map f is), ?s)"
      using Cons.prems(1) by (intro load_dirs_holds [OF ok]) auto
    with load_one_torn [OF ok Cons.prems(1,2)] True Cons.prems(1) show ?thesis by simp
  next
    case False
    have "load_one fe j s = (Inr (f j), s)" using Cons.prems(1,3) False by (intro load_one_holds [OF ok]) auto
    moreover have "load_dirs fe is s = (Inr (map f is), if i \<in> set is then repaired fe i (f i) s else s)"
      using Cons.prems by (intro Cons.IH) auto
    ultimately show ?thesis using Cons.prems(1) False by simp
  qed
qed simp

lemma append_restart_disk:
  assumes ok: "fs_env_ok fe" and d: "disk_holds fe s mem" and m: "storable fe i m" and known: "mem_rec mem i \<noteq> None"
    and run: "fs_append fe i m (s\<lparr> fd_faults := fp \<rparr>) = (res, s')"
  shows "\<exists>mem' rs t. mem' \<in> {mem, snd (mem_append i m mem)} \<and> (res = Inr () \<longrightarrow> mem' = snd (mem_append i m mem))
    \<and> fs_load_all fe (restarted s') = (Inr rs, t) \<and> set rs = {r. \<exists>j. mem_rec mem' j = Some r} \<and> disk_holds fe t mem'"
proof -
  from known obtain r where r: "mem_rec mem i = Some r" by auto
  note calm = disk_holdsD(1) [OF d] and dir = disk_holdsD(2) [OF d r]
  from append_then_restart [OF ok calm dir m run] obtain r' F where r': "r' = r \<or> r' = appended r m"
      "res = Inr () \<Longrightarrow> r' = appended r m" and t: "restarted s' = s\<lparr> fd_files := F \<rparr>"
      "\<And>p. path_owner p \<noteq> Some i \<Longrightarrow> F p = fd_files s p" "dir_torn fe (s\<lparr> fd_files := F \<rparr>) i r'" by metis
  let ?t = "s\<lparr> fd_files := F \<rparr>"
  from r obtain memA where A: "mem_append i m mem = (Inr (), memA)" "mem_rec memA = (mem_rec mem)(i \<mapsto> appended r m)"
      "mem_floor memA = mem_floor mem"
    unfolding mem_append_def appended_def by (rule mem_update_record_cases)
  define mem' where "mem' = (if r' = appended r m then memA else mem)"
  have mem': "mem_rec mem' = (mem_rec mem)(i \<mapsto> r')" "mem_floor mem' = mem_floor mem"
    using A r r'(1) by (auto simp: mem'_def)
  have here: "dir_holds fe (repaired fe i r' ?t) i r'" using t(3) by (simp add: dir_torn_def)
  have disk: "disk_holds fe (repaired fe i r' ?t) mem'"
    using d here mem' disk_holdsD(4) [OF d, of i]
    by (intro disk_holds_change [OF d, where i = i]) (auto simp: disk_holds_def floor_holds_def repaired_def path_owner_def t(2))
  have i: "i \<in> set (fd_dirs s)" and dirs: "set (fd_dirs s) = dom (mem_rec mem')"
    using r mem' disk_holdsD(5) [OF d] by auto
  have "dir_holds fe ?t j (the (mem_rec mem' j))" if "j \<in> set (fd_dirs s)" "j \<noteq> i" for j
  proof -
    from that disk_holdsD(5) [OF d, of j] obtain q where q: "mem_rec mem j = Some q" by auto
    from disk_holdsD(2) [OF d q] q that(2) show ?thesis
      by (simp add: mem' dir_holds_def t(2) path_owner_def)
  qed
  then have "load_dirs fe (fd_dirs s) ?t = (Inr (map (\<lambda>j. the (mem_rec mem' j)) (fd_dirs s)), repaired fe i r' ?t)"
    using load_dirs_torn [OF ok, of ?t i "\<lambda>j. the (mem_rec mem' j)" "fd_dirs s"] calm t(3) i mem' by simp
  then have "fs_load_all fe (restarted s') = (Inr (map (\<lambda>j. the (mem_rec mem' j)) (fd_dirs s)), repaired fe i r' ?t)"
    using calm by (simp add: fs_load_all_def t(1))
  moreover have "set (map (\<lambda>j. the (mem_rec mem' j)) (fd_dirs s)) = {r. \<exists>j. mem_rec mem' j = Some r}"
    using dirs by (force simp: image_iff)
  ultimately show ?thesis
    using disk A(1) r' by (intro exI [of _ mem']) (auto simp: mem'_def)
qed

subsection \<open>Going on after a failed append\<close>

lemma sys_next [simp]:
  "sys (s\<lparr> fd_faults := None # fs \<rparr>) = (Inr (), s\<lparr> fd_faults := fs \<rparr>)"
  "sys (s\<lparr> fd_faults := Some f # fs \<rparr>) = (Inl (fault_error f), s\<lparr> fd_faults := fs \<rparr>)"
  by (simp_all add: sys_def)

lemma append_file_next:
  assumes "fd_files s p = Some old"
  shows "append_file p bs (s\<lparr> fd_faults := None # fs \<rparr>) =
      (Inr (), s\<lparr> fd_files := (fd_files s)(p \<mapsto> old @ bs), fd_faults := fs \<rparr>)"
    and "append_file p bs (s\<lparr> fd_faults := Some f # fs \<rparr>) =
      (Inl (fault_error f), s\<lparr> fd_files := (fd_files s)(p \<mapsto> old @ take (fault_written f) bs), fd_faults := fs \<rparr>)"
  by (simp_all add: append_file_def assms)

lemma no_faults: "fd_faults s = [] \<Longrightarrow> s\<lparr> fd_files := F, fd_faults := [] \<rparr> = s\<lparr> fd_files := F \<rparr>"
  by (cases s) simp

lemma append_meta_fault:
  assumes "fd_faults s = []" "dir_holds fe s i r" "storable fe i m"
  shows "fs_append fe i m (s\<lparr> fd_faults := [None, None, None, None, Some (Fault e n)] \<rparr>) =
    (Inl e, s\<lparr> fd_files := (fd_files s)(LogPath i \<mapsto>
      frames (fe_message fe) (sr_log r) @ take (length (log_frame (fe_message fe) m)) (log_frame (fe_message fe) m)) \<rparr>)"
proof -
  let ?len = "be_bytes 4 (length (enc (fe_message fe) m))" and ?pl = "enc (fe_message fe) m"
  let ?fs = "frames (fe_message fe) (sr_log r)"
  let ?s1 = "s\<lparr> fd_files := (fd_files s)(LogPath i \<mapsto> ?fs @ ?len) \<rparr>"
  have d: "i \<in> set (fd_dirs s)" "fd_files s (LogPath i) = Some ?fs" "length ?pl \<le> MAX_FRAME_SIZE"
    using assms(2,3) by (simp_all add: dir_holds_def storable_def)
  have o: "open_log i (s\<lparr> fd_faults := [None, None, None, None, Some (Fault e n)] \<rparr>) =
      (Inr (), s\<lparr> fd_faults := [None, None, None, Some (Fault e n)] \<rparr>)"
    using d by (simp add: open_log_def)
  have a: "append_file (LogPath i) ?len (s\<lparr> fd_faults := [None, None, None, Some (Fault e n)] \<rparr>) =
      (Inr (), ?s1\<lparr> fd_faults := [None, None, Some (Fault e n)] \<rparr>)"
    by (rule append_file_next(1) [OF d(2)])
  have b: "append_file (LogPath i) ?pl (?s1\<lparr> fd_faults := [None, None, Some (Fault e n)] \<rparr>) =
      (Inr (), ?s1\<lparr> fd_files := (fd_files ?s1)(LogPath i \<mapsto> (?fs @ ?len) @ ?pl), fd_faults := [None, Some (Fault e n)] \<rparr>)"
    by (rule append_file_next(1)) (simp del: be_bytes.simps)
  show ?thesis
    unfolding fs_append_def append_log_def Let_def
    using d(3) o a b no_faults [OF assms(1)]
    by (simp add: read_meta_def read_json_def read_file_def log_frame_def del: be_bytes.simps)
qed

lemma be_bytes_4: "be_bytes 4 v = [of_nat (v div 256 div 256 div 256 mod 256), of_nat (v div 256 div 256 mod 256),
    of_nat (v div 256 mod 256), of_nat (v mod 256)]"
proof -
  have "4 = Suc (Suc (Suc (Suc 0)))" by simp
  then show ?thesis by (simp only: be_bytes.simps append.simps)
qed

lemma append_torn_first_byte:
  assumes "fd_faults s = []" "dir_holds fe s i r" "storable fe i m" "length (enc (fe_message fe) m) < MAX_FRAME_SIZE"
  shows "fs_append fe i m (s\<lparr> fd_faults := [None, Some (Fault e 1)] \<rparr>) =
    (Inl e, s\<lparr> fd_files := (fd_files s)(LogPath i \<mapsto> frames (fe_message fe) (sr_log r) @ [0]) \<rparr>)"
proof -
  let ?len = "be_bytes 4 (length (enc (fe_message fe) m))" and ?fs = "frames (fe_message fe) (sr_log r)"
  have "length (enc (fe_message fe) m) div 256 div 256 div 256 = 0"
    using assms(4) by (simp add: MAX_FRAME_SIZE_def div_mult2_eq [symmetric])
  then have "take 1 ?len = [0]" by (simp only: be_bytes_4) simp
  moreover have d: "i \<in> set (fd_dirs s)" "fd_files s (LogPath i) = Some ?fs"
    using assms(2) by (simp_all add: dir_holds_def)
  moreover have "open_log i (s\<lparr> fd_faults := [None, Some (Fault e 1)] \<rparr>) = (Inr (), s\<lparr> fd_faults := [Some (Fault e 1)] \<rparr>)"
    using d by (simp add: open_log_def)
  ultimately show ?thesis
    unfolding fs_append_def append_log_def Let_def
    using assms(4) append_file_next(2) [OF d(2), of ?len "Fault e 1" "[]"] no_faults [OF assms(1)]
    by (simp del: be_bytes.simps)
qed

lemma read_frames_misaligned:
  assumes "fs_env_ok fe" "dec (fe_message fe) [] = Inl x" "list_all (storable fe i) ms"
    and "3 \<le> length (enc (fe_message fe) m)" "length (enc (fe_message fe) m) < 256"
  shows "fst (read_frames (fe_message fe) (keep_message fe i)
    (frames (fe_message fe) ms @ 0 # log_frame (fe_message fe) m)) = ms"
proof -
  let ?pl = "enc (fe_message fe) m"
  obtain a b c rest where pl: "?pl = a # b # c # rest"
    using assms(4) by (auto simp: Suc_le_length_iff numeral_3_eq_3)
  have "be_bytes 4 (length ?pl) = [0, 0, 0, of_nat (length ?pl)]"
    using assms(5) by (simp only: be_bytes_4) (simp add: div_mult2_eq [symmetric])
  then have frame: "0 # log_frame (fe_message fe) m = [0, 0, 0, 0] @ [] @ (of_nat (length ?pl) # ?pl)"
    by (simp add: log_frame_def)
  have L: "unat (of_nat (length ?pl) :: byte) = length ?pl" using assms(5) by (simp add: unat_of_nat)
  have "MAX_FRAME_SIZE < from_be (take 4 (of_nat (length ?pl) # ?pl))"
  proof -
    have "3 * 2 ^ 24 \<le> from_be [of_nat (length ?pl), a, b, c]"
      using assms(4) L by (simp add: from_be_def)
    then show ?thesis using pl by (simp add: MAX_FRAME_SIZE_def)
  qed
  from read_frames_oversized [OF this] have
    "read_frames (fe_message fe) (keep_message fe i) (0 # log_frame (fe_message fe) m) = ([], 4)"
    unfolding frame using assms(2) by (subst read_frames_step) (simp_all add: from_be_def MAX_FRAME_SIZE_def)
  then show ?thesis
    using read_frames_append [of "fe_message fe" ms "keep_message fe i" "0 # log_frame (fe_message fe) m"] assms(1,3)
    by (simp add: fs_env_ok_def storable_def list_all_iff)
qed

end
