(* ===== verification/Fs_Floors.thy ===== *)
theory Fs_Floors
  imports Fs_Faults
begin

text \<open>
  The epoch floors of the on-disk store, with every system call free to fail: no call lowers a
  floor, and a meta document never holds an epoch that is not below the floor of its session.
\<close>

subsection \<open>Floors and epochs in the files\<close>

type_synonym files = "fs_path \<Rightarrow> byte list option"

definition floor_doc :: "'k fs_env \<Rightarrow> u64 \<Rightarrow> byte list" where
  "floor_doc fe f = enc (fe_floor fe) \<lparr> ef_version = EpochFloorFile_CURRENT_VERSION, ef_floor = f \<rparr>"

definition floor_of :: "'k fs_env \<Rightarrow> files \<Rightarrow> session_id \<Rightarrow> u64" where
  "floor_of fe F i = (case F (FloorPath i) of None \<Rightarrow> 0 | Some bs \<Rightarrow>
    (case dec (fe_floor fe) bs of Inl _ \<Rightarrow> 0 | Inr d \<Rightarrow> ef_floor d))"

definition epoch_below :: "u64 \<Rightarrow> u64 \<Rightarrow> bool" where
  "epoch_below e f \<longleftrightarrow> e = u64_MAX \<or> e < f"

definition floors_hold :: "'k fs_env \<Rightarrow> (session_id \<Rightarrow> u64) \<Rightarrow> files \<Rightarrow> bool" where
  "floors_hold fe low F \<longleftrightarrow> (\<forall>i. low i \<le> floor_of fe F i
    \<and> (\<forall>bs. F (FloorPath i) = Some bs \<longrightarrow> (\<exists>f. bs = floor_doc fe f))
    \<and> (\<forall>bs. F (MetaPath i) = Some bs \<longrightarrow> (\<exists>m. bs = enc (fe_meta fe) m \<and> epoch_below (mt_host_epoch m) (floor_of fe F i))))"

lemma floor_of_doc [simp]: "fs_env_ok fe \<Longrightarrow> F (FloorPath i) = Some (floor_doc fe f) \<Longrightarrow> floor_of fe F i = f"
  by (simp add: floor_of_def floor_doc_def fs_env_ok_def codec_okD)

lemma floor_of_upd: "floor_of fe (F(p := x)) i = (if p = FloorPath i then floor_of fe (\<lambda>_. x) i else floor_of fe F i)"
  by (simp add: floor_of_def)

definition plain_path :: "fs_path \<Rightarrow> bool" where
  "plain_path p \<longleftrightarrow> (\<forall>i. p \<noteq> MetaPath i \<and> p \<noteq> FloorPath i)"

lemma floors_hold_plain: "plain_path p \<Longrightarrow> floors_hold fe low (F(p := x)) = floors_hold fe low F"
  by (auto simp: floors_hold_def plain_path_def floor_of_upd)

lemma floors_hold_no_meta: "floors_hold fe low F \<Longrightarrow> floors_hold fe low (F(MetaPath i := None))"
  by (auto simp: floors_hold_def floor_of_upd)

lemma floors_hold_meta:
  "\<lbrakk>floors_hold fe low F; epoch_below (mt_host_epoch m) (floor_of fe F i)\<rbrakk> \<Longrightarrow> floors_hold fe low (F(MetaPath i \<mapsto> enc (fe_meta fe) m))"
  by (auto simp: floors_hold_def floor_of_upd)

lemma floors_hold_raise:
  assumes "fs_env_ok fe" "floors_hold fe low F" "floor_of fe F i \<le> f"
  shows "floors_hold fe low (F(FloorPath i \<mapsto> floor_doc fe f))"
proof -
  let ?G = "F(FloorPath i \<mapsto> floor_doc fe f)"
  have new: "floor_of fe ?G j = (if j = i then f else floor_of fe F j)" for j
    using assms(1) by (simp add: floor_of_upd)
  have up: "floor_of fe F j \<le> floor_of fe ?G j" for j using assms(3) by (simp add: new)
  have below: "epoch_below e (floor_of fe F j) \<Longrightarrow> epoch_below e (floor_of fe ?G j)" for e j
    using up [of j] by (auto simp: epoch_below_def)
  have F: "low j \<le> floor_of fe F j" "F (FloorPath j) = Some bs \<Longrightarrow> \<exists>f. bs = floor_doc fe f"
    "F (MetaPath j) = Some bs \<Longrightarrow> \<exists>m. bs = enc (fe_meta fe) m \<and> epoch_below (mt_host_epoch m) (floor_of fe F j)" for j bs
    using assms(2) by (auto simp: floors_hold_def)
  show ?thesis unfolding floors_hold_def
  proof (intro allI conjI impI)
    fix j bs
    show "low j \<le> floor_of fe ?G j" using F(1) up by (rule order.trans)
    show "?G (FloorPath j) = Some bs \<Longrightarrow> \<exists>f. bs = floor_doc fe f" using F(2) [of j bs] by (auto split: if_splits)
    show "?G (MetaPath j) = Some bs \<Longrightarrow> \<exists>m. bs = enc (fe_meta fe) m \<and> epoch_below (mt_host_epoch m) (floor_of fe ?G j)"
      using F(3) [of j bs] below by auto
  qed
qed

subsection \<open>Triples over the files\<close>

text \<open>A condition on the files, kept by a call in both outcomes.  A system call may fail, but it does
  not report a file as missing that is there.\<close>

definition honest :: "fs_disk \<Rightarrow> bool" where
  "honest s \<longleftrightarrow> (\<forall>f. Some f \<in> set (fd_faults s) \<longrightarrow> io_error_kind (fault_error f) \<noteq> NotFound)"

definition fits :: "(files \<Rightarrow> bool) \<Rightarrow> fs_disk \<Rightarrow> bool" where
  "fits Q s \<longleftrightarrow> Q (fd_files s) \<and> honest s"

definition keeps_files :: "(files \<Rightarrow> bool) \<Rightarrow> (fs_disk, 'a) store_io \<Rightarrow> bool" where
  "keeps_files Q m \<longleftrightarrow> hoare (fits Q) m (\<lambda>_. fits Q) (fits Q)"

lemma keeps_bind: "\<lbrakk>keeps_files Q m; \<And>x. keeps_files Q (f x)\<rbrakk> \<Longrightarrow> keeps_files Q (io_bind m f)"
  unfolding keeps_files_def by (rule hoare_bind)

lemma keeps_then: "\<lbrakk>keeps_files Q m; keeps_files Q n\<rbrakk> \<Longrightarrow> keeps_files Q (io_then m n)"
  unfolding keeps_files_def by (rule hoare_then)

lemma keeps_return: "keeps_files Q (io_return x)" "keeps_files Q (io_fail e)"
  by (simp_all add: keeps_files_def hoare_def)

lemma fits_updates [simp]:
  "fits Q (s\<lparr> fd_files := F \<rparr>) \<longleftrightarrow> Q F \<and> honest s" "fits Q (s\<lparr> fd_attachments := a \<rparr>) \<longleftrightarrow> fits Q s"
  "fits Q (s\<lparr> fd_dirs := d \<rparr>) \<longleftrightarrow> fits Q s" "fits Q (s\<lparr> fd_floor_dir := b \<rparr>) \<longleftrightarrow> fits Q s"
  by (simp_all add: fits_def honest_def)

lemma fits_tail: "\<lbrakk>fits Q s; fd_faults s = f # fs\<rbrakk> \<Longrightarrow> fits Q (s\<lparr> fd_faults := fs \<rparr>)"
  by (simp add: fits_def honest_def)

lemma keeps_sys: "keeps_files Q sys"
  by (auto simp: keeps_files_def hoare_def sys_def intro: fits_tail split: list.splits option.splits)

lemma keeps_pure: "(\<And>s. fits Q s \<Longrightarrow> fits Q (snd (m s))) \<Longrightarrow> keeps_files Q m"
  unfolding keeps_files_def hoare_def by (metis (mono_tags, lifting) case_prod_beta' old.sum.exhaust sum.case)

lemma keeps_put_file: "(\<And>F. Q F \<Longrightarrow> Q (F(p \<mapsto> bs))) \<Longrightarrow> keeps_files Q (put_file p bs)"
  by (rule keeps_pure) (simp add: fits_def honest_def)

lemma keeps_write:
  assumes "\<And>F. Q F \<Longrightarrow> Q (F(p \<mapsto> bs))"
  shows "keeps_files Q (write_bytes_atomic p bs)"
proof -
  have "keeps_files Q (io_then sys (io_then (put_file p bs) sys))" by (intro keeps_then keeps_put_file keeps_sys assms)
  then show ?thesis by (simp add: keeps_files_def hoare_def write_bytes_atomic_def)
qed

lemma keeps_append:
  assumes "\<And>F b. Q F \<Longrightarrow> Q (F(p \<mapsto> b))"
  shows "keeps_files Q (append_file p bs)"
proof (rule keeps_pure)
  fix s assume "fits Q s"
  then show "fits Q (snd (append_file p bs s))"
    using assms by (auto simp: append_file_def Let_def fits_def honest_def split: list.splits option.splits)
qed

lemma keeps_read: "keeps_files Q (read_file p)"
  unfolding read_file_def by (intro keeps_then keeps_sys keeps_pure) (simp split: option.splits)

lemma keeps_read_json: "keeps_files Q (read_json c p)"
  unfolding read_json_def by (intro keeps_bind keeps_read) (simp add: keeps_return split: sum.splits)

lemma keeps_ensure_dir:
  assumes "\<And>s. fits Q s \<Longrightarrow> fits Q (create s)"
  shows "keeps_files Q (ensure_dir present create)"
proof -
  have "keeps_files Q (io_then sys (io_then (\<lambda>t. (Inr (), create t)) (io_then sys sys)))"
    by (intro keeps_then keeps_sys keeps_pure) (simp add: assms)
  then have "keeps_files Q (\<lambda>s. if present s then (Inr (), s)
      else io_then sys (io_then (\<lambda>t. (Inr (), create t)) (io_then sys sys)) s)"
    by (simp add: keeps_files_def hoare_def)
  then show ?thesis unfolding ensure_dir_def by (intro keeps_then keeps_sys)
qed

lemma keeps_ensure: "keeps_files Q (ensure_session_dir i)" "keeps_files Q ensure_floor_dir"
  by (simp_all add: ensure_session_dir_def ensure_floor_dir_def keeps_ensure_dir)

subsection \<open>Every call keeps the floors\<close>

lemma plain_simps [simp]: "plain_path (LogPath i)" "plain_path (TicketsPath i)" "plain_path (QuarantinePath i)" "plain_path (EnvelopePath i)"
  by (simp_all add: plain_path_def)

lemma keeps_open_log: "keeps_files (floors_hold fe low) (open_log i)"
proof -
  have "keeps_files (floors_hold fe low) (\<lambda>s. if i \<notin> set (fd_dirs s) then (Inl fs_not_found, s)
      else case fd_files s (LogPath i) of None \<Rightarrow> put_file (LogPath i) [] s | Some _ \<Rightarrow> (Inr (), s))"
    by (rule keeps_pure) (simp add: floors_hold_plain fits_def honest_def split: option.splits)
  then show ?thesis unfolding open_log_def by (intro keeps_then keeps_sys)
qed

lemma keeps_append_log: "keeps_files (floors_hold fe low) (append_log fe i m)"
proof -
  have "keeps_files (floors_hold fe low) (append_file (LogPath i) bs)" for bs
    by (rule keeps_append) (simp add: floors_hold_plain)
  then show ?thesis unfolding append_log_def Let_def
    by (simp add: keeps_then keeps_open_log keeps_sys keeps_return del: be_bytes.simps)
qed

lemma keeps_append_logs: "keeps_files (floors_hold fe low) (append_logs fe i ms)"
  by (induction ms) (auto intro: keeps_append_log keeps_then keeps_return simp del: io_simps simp: keeps_return)

lemma keeps_write_plain:
  "keeps_files (floors_hold fe low) (write_tickets fe i ts)" "keeps_files (floors_hold fe low) (write_workspace_ticket i w)"
  by (auto simp: write_tickets_def write_json_atomic_def write_workspace_ticket_def floors_hold_plain keeps_return intro!: keeps_write)

text \<open>Reading the floor gives the floor; raising it leaves it at least there.\<close>

lemma read_floor_value:
  assumes "fs_env_ok fe" "fits (floors_hold fe low) s" "read_epoch_floor fe i s = (Inr f, s')"
  shows "fd_files s' = fd_files s" "floor_of fe (fd_files s) i = f"
proof -
  have doc: "fd_files s (FloorPath i) = Some bs \<Longrightarrow> \<exists>f. bs = floor_doc fe f" for bs
    using assms(2) by (auto simp: fits_def floors_hold_def)
  have step: "\<exists>e. sys s = (Inl e, t) \<and> io_error_kind e \<noteq> NotFound" if "sys s = (Inl e, t)" for e t
    using that assms(2) by (auto simp: sys_def fits_def honest_def split: list.splits option.splits)
  have same: "fd_files t = fd_files s" if "sys s = (x, t)" for x t
    using that by (auto simp: sys_def split: list.splits option.splits)
  obtain x t where x: "sys s = (x, t)" by (cases "sys s")
  show "fd_files s' = fd_files s" "floor_of fe (fd_files s) i = f"
    using assms(3) x same [OF x] step doc assms(1)
    by (cases x; cases "fd_files s (FloorPath i)";
        auto simp: read_epoch_floor_def read_json_def read_file_def floor_of_def floor_doc_def fs_env_ok_def codec_okD
          io_bind_def io_then_def split: if_splits)+
qed

definition raised :: "'k fs_env \<Rightarrow> (session_id \<Rightarrow> u64) \<Rightarrow> session_id \<Rightarrow> u64 \<Rightarrow> files \<Rightarrow> bool" where
  "raised fe low i v F \<longleftrightarrow> floors_hold fe low F \<and> v \<le> floor_of fe F i"

definition at_floor :: "'k fs_env \<Rightarrow> (session_id \<Rightarrow> u64) \<Rightarrow> session_id \<Rightarrow> u64 \<Rightarrow> files \<Rightarrow> bool" where
  "at_floor fe low i f F \<longleftrightarrow> floors_hold fe low F \<and> floor_of fe F i = f"

lemma fits_weaken: "\<lbrakk>fits Q s; \<And>F. Q F \<Longrightarrow> R F\<rbrakk> \<Longrightarrow> fits R s"
  by (simp add: fits_def)

lemma keeps_weaken:
  assumes "keeps_files Q m" "\<And>F. Q F \<Longrightarrow> R F"
  shows "hoare (fits Q) m (\<lambda>_. fits Q) (fits R)"
  using assms(1) unfolding keeps_files_def by (rule hoare_weaken) (auto intro: fits_weaken assms(2))

lemma keepsD: "keeps_files Q m \<Longrightarrow> fits Q s \<Longrightarrow> fits Q (snd (m s))"
  unfolding keeps_files_def hoare_def by (cases "m s"; cases "fst (m s)") force+

lemma keeps_read_floor: "keeps_files Q (read_epoch_floor fe i)"
proof (rule keeps_pure)
  fix s assume "fits Q s"
  then have "fits Q (snd (read_json (fe_floor fe) (FloorPath i) s))" by (rule keepsD [OF keeps_read_json])
  then show "fits Q (snd (read_epoch_floor fe i s))"
    unfolding read_epoch_floor_def by (cases "read_json (fe_floor fe) (FloorPath i) s") (simp split: sum.splits)
qed

lemma hoare_read_floor:
  assumes "fs_env_ok fe"
  shows "hoare (fits (floors_hold fe low)) (read_epoch_floor fe i) (\<lambda>f. fits (at_floor fe low i f)) (fits (floors_hold fe low))"
proof (rule hoareI)
  fix s assume s: "fits (floors_hold fe low) s"
  have k: "fits (floors_hold fe low) (snd (read_epoch_floor fe i s))" by (rule keepsD [OF keeps_read_floor s])
  show "case read_epoch_floor fe i s of (Inl _, t) \<Rightarrow> fits (floors_hold fe low) t | (Inr f, t) \<Rightarrow> fits (at_floor fe low i f) t"
  proof (cases "read_epoch_floor fe i s")
    case (Pair x t)
    show ?thesis
    proof (cases x)
      case (Inr f)
      from read_floor_value [OF assms s Pair [unfolded Inr]] k Pair Inr show ?thesis by (simp add: fits_def at_floor_def)
    qed (use k Pair in simp)
  qed
qed

lemma hoare_write_floor:
  assumes ok: "fs_env_ok fe" and less: "f < v"
  shows "hoare (fits (at_floor fe low i f)) (write_json_atomic (fe_floor fe) (FloorPath i)
      \<lparr> ef_version = EpochFloorFile_CURRENT_VERSION, ef_floor = v \<rparr>) (\<lambda>_. fits (raised fe low i v)) (fits (floors_hold fe low))"
proof -
  have up: "raised fe low i v (F(FloorPath i \<mapsto> floor_doc fe v))" if "at_floor fe low i f F" for F
    using that less floors_hold_raise [OF ok, of low F i v] ok by (simp add: raised_def at_floor_def)
  have s1: "hoare (fits (at_floor fe low i f)) sys (\<lambda>_. fits (at_floor fe low i f)) (fits (floors_hold fe low))"
    by (rule keeps_weaken [OF keeps_sys]) (simp add: at_floor_def)
  have s2: "hoare (fits (at_floor fe low i f)) (put_file (FloorPath i) (floor_doc fe v)) (\<lambda>_. fits (raised fe low i v)) (fits (floors_hold fe low))"
    by (rule hoareI) (simp add: fits_def honest_def up)
  have s3: "hoare (fits (raised fe low i v)) sys (\<lambda>_. fits (raised fe low i v)) (fits (floors_hold fe low))"
    by (rule keeps_weaken [OF keeps_sys]) (simp add: raised_def)
  have weak: "fits (at_floor fe low i f) s \<Longrightarrow> fits (floors_hold fe low) s" for s by (simp add: fits_def at_floor_def)
  from hoare_then [OF s1 hoare_then [OF s2 s3]] show ?thesis
    by (simp add: hoare_def write_json_atomic_def write_bytes_atomic_def floor_doc_def weak)
qed

lemma hoare_raise_floor:
  assumes ok: "fs_env_ok fe"
  shows "hoare (fits (floors_hold fe low)) (read_and_raise_epoch_floor fe i v) (\<lambda>_. fits (raised fe low i v)) (fits (floors_hold fe low))"
  unfolding read_and_raise_epoch_floor_def
proof (rule hoare_bind [OF hoare_read_floor [OF ok]], goal_cases)
  case (1 f)
  show ?case
  proof (cases "v > f")
    case True
    have d: "hoare (fits (at_floor fe low i f)) ensure_floor_dir (\<lambda>_. fits (at_floor fe low i f)) (fits (floors_hold fe low))"
      by (rule keeps_weaken [OF keeps_ensure(2)]) (simp add: at_floor_def)
    have r: "hoare (fits (raised fe low i v)) (io_return f) (\<lambda>_. fits (raised fe low i v)) (fits (floors_hold fe low))"
      by (simp add: hoare_def)
    from hoare_then [OF d hoare_then [OF hoare_write_floor [OF ok True] r]] True show ?thesis by simp
  next
    case False
    then show ?thesis by (auto simp: hoare_def fits_def raised_def at_floor_def not_less)
  qed
qed

lemma raised_eq: "raised fe low i v = floors_hold fe (low(i := max (low i) v))"
  by (auto simp: raised_def floors_hold_def fun_eq_iff)

lemma floors_weaken: "fits (floors_hold fe (low(i := max (low i) v))) s \<Longrightarrow> fits (floors_hold fe low) s"
  using raised_eq [of fe low i v] by (auto simp: fits_def raised_def fun_eq_iff)

text \<open>Meta documents.\<close>

definition meta_fits :: "'k fs_env \<Rightarrow> (session_id \<Rightarrow> u64) \<Rightarrow> session_id \<Rightarrow> meta \<Rightarrow> files \<Rightarrow> bool" where
  "meta_fits fe low i m F \<longleftrightarrow> floors_hold fe low F \<and> epoch_below (mt_host_epoch m) (floor_of fe F i)"

lemma hoare_read_meta_fits:
  assumes ok: "fs_env_ok fe"
  shows "hoare (fits (floors_hold fe low)) (read_meta fe i) (\<lambda>m. fits (meta_fits fe low i m)) (fits (floors_hold fe low))"
proof -
  have f: "hoare (fits (floors_hold fe low)) (read_file (MetaPath i))
      (\<lambda>bs. fits (\<lambda>F. floors_hold fe low F \<and> F (MetaPath i) = Some bs)) (fits (floors_hold fe low))"
    unfolding read_file_def
    by (rule hoare_then [OF keeps_sys [unfolded keeps_files_def]], rule hoareI) (simp add: fits_def split: option.splits)
  show ?thesis unfolding read_meta_def read_json_def
  proof (rule hoare_bind [OF f], rule hoareI)
    fix bs s assume s: "fits (\<lambda>F. floors_hold fe low F \<and> F (MetaPath i) = Some bs) s"
    then obtain m where m: "bs = enc (fe_meta fe) m" "epoch_below (mt_host_epoch m) (floor_of fe (fd_files s) i)"
      unfolding fits_def floors_hold_def by blast
    then have "dec (fe_meta fe) bs = Inr m" using ok by (simp add: fs_env_ok_def codec_okD)
    with s m(2) show "case (case dec (fe_meta fe) bs of Inl _ \<Rightarrow> io_fail (fs_invalid ''json'') | Inr x \<Rightarrow> io_return x) s of
        (Inl _, t) \<Rightarrow> fits (floors_hold fe low) t | (Inr m, t) \<Rightarrow> fits (meta_fits fe low i m) t"
      by (simp add: fits_def meta_fits_def)
  qed
qed

lemma hoare_write_meta:
  "hoare (fits (meta_fits fe low i m)) (write_meta fe i m) (\<lambda>_. fits (floors_hold fe low)) (fits (floors_hold fe low))"
proof -
  have "keeps_files (meta_fits fe low i m) (write_meta fe i m)"
    unfolding write_meta_def write_json_atomic_def
    by (rule keeps_write) (simp add: meta_fits_def floors_hold_meta floor_of_upd)
  then show ?thesis
    unfolding keeps_files_def by (rule hoare_weaken) (auto simp: meta_fits_def fits_def)
qed

lemma keeps_meta_update:
  assumes ok: "fs_env_ok fe" and f: "\<And>m. mt_host_epoch (f m) = mt_host_epoch m"
  shows "keeps_files (floors_hold fe low) (io_bind (read_meta fe i) (\<lambda>m. write_meta fe i (f m)))"
  unfolding keeps_files_def
proof (rule hoare_bind [OF hoare_read_meta_fits [OF ok]])
  fix m
  have "meta_fits fe low i m = meta_fits fe low i (f m)" by (simp add: meta_fits_def fun_eq_iff f)
  then show "hoare (fits (meta_fits fe low i m)) (write_meta fe i (f m)) (\<lambda>_. fits (floors_hold fe low)) (fits (floors_hold fe low))"
    using hoare_write_meta by metis
qed

lemma hoare_raised_meta:
  "mt_host_epoch m = e \<Longrightarrow> hoare (fits (floors_hold fe (low(i := max (low i) (e + 1))))) (write_meta fe i m)
    (\<lambda>_. fits (floors_hold fe (low(i := max (low i) (e + 1))))) (fits (floors_hold fe low))"
proof (rule hoare_weaken [OF hoare_write_meta [of fe "low(i := max (low i) (e + 1))"]], goal_cases)
  case (1 s)
  then have "e + 1 \<le> floor_of fe (fd_files s) i" unfolding fits_def raised_eq [symmetric] by (simp add: raised_def)
  moreover have "e = u64_MAX \<or> e < e + 1" using less_add_1 [of e] by blast
  ultimately have "epoch_below e (floor_of fe (fd_files s) i)" by (auto simp: epoch_below_def)
  with 1 show ?case by (simp add: fits_def meta_fits_def)
qed (auto dest: floors_weaken)

subsection \<open>Runs of calls\<close>

lemma keeps_create:
  assumes ok: "fs_env_ok fe"
  shows "keeps_files (floors_hold fe low) (fs_create fe r)"
proof -
  let ?low = "low(sr_id r := max (low (sr_id r)) (sr_host_epoch r + 1))"
  have rest: "hoare (fits (floors_hold fe ?low)) m (\<lambda>_. fits (floors_hold fe ?low)) (fits (floors_hold fe low))"
    if "keeps_files (floors_hold fe ?low) m" for m :: "(fs_disk, unit) store_io"
    by (rule keeps_weaken [OF that]) (use raised_eq [of fe low] in \<open>auto simp: raised_def fun_eq_iff\<close>)
  have raise: "hoare (fits (floors_hold fe low)) (read_and_raise_epoch_floor fe (sr_id r) (sr_host_epoch r + 1))
      (\<lambda>_. fits (floors_hold fe ?low)) (fits (floors_hold fe low))"
    using hoare_raise_floor [OF ok, of low "sr_id r" "sr_host_epoch r + 1"] unfolding raised_eq .
  have meta: "hoare (fits (floors_hold fe ?low)) (write_meta fe (sr_id r) (meta_from_record r))
      (\<lambda>_. fits (floors_hold fe ?low)) (fits (floors_hold fe low))"
    by (rule hoare_raised_meta) (simp add: meta_from_record_def)
  have tickets: "keeps_files (floors_hold fe ?low)
      (if sr_tickets r = [] then io_return () else write_tickets fe (sr_id r) (sr_tickets r))"
    by (simp add: keeps_return keeps_write_plain)
  have env: "keeps_files (floors_hold fe ?low)
      (case sr_workspace_ticket r of None \<Rightarrow> io_return () | Some w \<Rightarrow> write_workspace_ticket (sr_id r) w)"
    by (simp add: keeps_return keeps_write_plain split: option.splits)
  have final: "hoare (fits (floors_hold fe ?low)) m (\<lambda>_. fits (floors_hold fe low)) (fits (floors_hold fe low))"
    if "keeps_files (floors_hold fe ?low) m" for m :: "(fs_disk, unit) store_io"
    using rest [OF that] by (rule hoare_weaken) (auto dest: floors_weaken)
  show ?thesis unfolding fs_create_def keeps_files_def
    by (rule hoare_then [OF keeps_ensure(1) [unfolded keeps_files_def]], rule hoare_bind [OF raise],
        rule hoare_then [OF rest [OF keeps_open_log]], rule hoare_then [OF rest [OF keeps_sys]],
        rule hoare_then [OF meta], rule hoare_then [OF rest [OF tickets]], rule hoare_then [OF rest [OF env]],
        rule final [OF keeps_append_logs])
qed

lemma keeps_bump:
  assumes ok: "fs_env_ok fe"
  shows "keeps_files (floors_hold fe low) (fs_bump_host_epoch fe i e)"
  unfolding keeps_files_def
proof (rule hoareI)
  fix s assume s: "fits (floors_hold fe low) s"
  let ?low = "low(i := max (low i) (e + 1))"
  have raise: "hoare (fits (floors_hold fe low)) (read_and_raise_epoch_floor fe i (e + 1))
      (\<lambda>_. fits (floors_hold fe ?low)) (fits (floors_hold fe low))"
    using hoare_raise_floor [OF ok, of low i "e + 1"] unfolding raised_eq .
  have "hoare (fits (floors_hold fe ?low)) (write_meta fe i (m\<lparr> mt_host_epoch := e \<rparr>))
      (\<lambda>_. fits (floors_hold fe low)) (fits (floors_hold fe low))" for m
    by (rule hoare_weaken [OF hoare_raised_meta]) (auto dest: floors_weaken)
  from hoare_bind [OF raise this]
  have w: "keeps_files (floors_hold fe low) (io_bind (read_and_raise_epoch_floor fe i (e + 1))
      (\<lambda>_. write_meta fe i (m\<lparr> mt_host_epoch := e \<rparr>)))" for m unfolding keeps_files_def .
  have "fits (floors_hold fe low) (snd (read_meta fe i s))"
    by (rule keepsD [OF _ s]) (simp add: read_meta_def keeps_read_json)
  then have "fits (floors_hold fe low) (snd (fs_bump_host_epoch fe i e s))"
    unfolding fs_bump_host_epoch_def
    by (cases "read_meta fe i s"; cases "fst (read_meta fe i s)") (use keepsD [OF w] in auto)
  then show "case fs_bump_host_epoch fe i e s of (Inl _, t) \<Rightarrow> fits (floors_hold fe low) t
      | (Inr _, t) \<Rightarrow> fits (floors_hold fe low) t"
    by (cases "fs_bump_host_epoch fe i e s") (simp split: sum.splits)
qed

lemma keeps_remove_dir: "keeps_files (floors_hold fe low) (remove_dir_all i)"
proof -
  have u: "keeps_files (floors_hold fe low) (unlink p)" if "plain_path p \<or> p = MetaPath i" for p
    unfolding unlink_def using that
    by (intro keeps_then keeps_sys keeps_pure) (auto simp: fits_def honest_def floors_hold_plain floors_hold_no_meta)
  have a: "keeps_files (floors_hold fe low) (unlink_attachments i)"
    unfolding unlink_attachments_def by (intro keeps_then keeps_sys keeps_pure) simp
  have d: "keeps_files (floors_hold fe low) (\<lambda>t. (Inr (), t\<lparr> fd_dirs := filter (\<lambda>j. j \<noteq> i) (fd_dirs t) \<rparr>))"
    by (rule keeps_pure) simp
  have "keeps_files (floors_hold fe low)
      (io_then (unlink (MetaPath i)) (io_then (unlink (LogPath i)) (io_then (unlink (TicketsPath i))
       (io_then (unlink (QuarantinePath i)) (io_then (unlink (EnvelopePath i)) (io_then (unlink_attachments i)
         (io_then sys (\<lambda>t. (Inr (), t\<lparr> fd_dirs := filter (\<lambda>j. j \<noteq> i) (fd_dirs t) \<rparr>)))))))))"
    by (intro keeps_then u a d keeps_sys) simp_all
  from keepsD [OF this] show ?thesis
    by (intro keeps_pure) (simp add: remove_dir_all_def)
qed

lemma fs_steps:
  "store_step (fs_ops fe) (SCreate r) = fs_create fe r" "store_step (fs_ops fe) (SAppend i m) = fs_append fe i m"
  "store_step (fs_ops fe) (SBumpHostEpoch i e) = fs_bump_host_epoch fe i e"
  "store_step (fs_ops fe) (SPutTickets i ts) = fs_put_tickets fe i ts"
  "store_step (fs_ops fe) (SPutWorkspaceTicket i w) = fs_put_workspace_ticket i w"
  "store_step (fs_ops fe) (SAddMember i p) = fs_add_member fe i p"
  "store_step (fs_ops fe) (SRemoveMember i q) = fs_remove_member fe i q"
  "store_step (fs_ops fe) (SDelete i) = fs_delete i"
  by (simp_all add: fun_eq_iff fs_ops_def)

lemma keeps_step:
  assumes "fs_env_ok fe"
  shows "keeps_files (floors_hold fe low) (store_step (fs_ops fe) c)"
proof (cases c)
  case (SDelete i)
  have "snd (fs_delete i s) = snd (remove_dir_all i s)" for s
    by (simp add: fs_delete_def split: prod.splits sum.splits)
  then show ?thesis
    unfolding SDelete fs_steps using keepsD [OF keeps_remove_dir [of fe low i]] by (intro keeps_pure) simp
next
  case (SPutTickets i ts)
  show ?thesis unfolding SPutTickets fs_steps
    using keepsD [OF keeps_write_plain(1) [of fe low i ts]] by (intro keeps_pure) (simp add: fs_put_tickets_def)
next
  case (SPutWorkspaceTicket i w)
  show ?thesis unfolding SPutWorkspaceTicket fs_steps
    using keepsD [OF keeps_write_plain(2) [of fe low i w]] by (intro keeps_pure) (simp add: fs_put_workspace_ticket_def)
next
  case (SAppend i m)
  show ?thesis unfolding SAppend fs_steps fs_append_def
    by (intro keeps_then keeps_append_log keeps_meta_update [OF assms]) simp
next
  case (SAddMember i p)
  show ?thesis unfolding SAddMember fs_steps fs_add_member_def by (intro keeps_meta_update [OF assms]) simp
next
  case (SRemoveMember i q)
  show ?thesis unfolding SRemoveMember fs_steps fs_remove_member_def by (intro keeps_meta_update [OF assms]) simp
qed (simp_all add: fs_steps keeps_create [OF assms] keeps_bump [OF assms])

lemma keeps_run:
  assumes "fs_env_ok fe" "fits (floors_hold fe low) s"
  shows "fits (floors_hold fe low) (snd (store_outcomes (fs_ops fe) cs s))"
  using assms(2)
proof (induction cs arbitrary: s)
  case (Cons c cs)
  have "fits (floors_hold fe low) (snd (store_step (fs_ops fe) c s))" by (rule keepsD [OF keeps_step [OF assms(1)] Cons.prems])
  from Cons.IH [OF this] show ?case by (simp add: Let_def split_beta)
qed simp

end
