(* ===== verification/Disk_Guarantees.thy ===== *)
theory Disk_Guarantees
  imports Fs_Floors
begin

text \<open>
  What the on-disk store guarantees, and where it does not: it implements the in-memory store, an
  interrupted append is all or nothing at the next start, epoch floors stay above every epoch on
  disk whatever fails; a daemon that goes on after a failed append can store two messages under one
  number or lose the next one.
\<close>

subsection \<open>Sample codecs\<close>

definition sd_nat :: "nat pcodec" where
  "sd_nat = (\<lambda>n. replicate n 1 @ [0], get_count)"

definition sd_peers :: "peer_id set pcodec" where
  "sd_peers = sd_iso (\<lambda>S. sorted_list_of_set (pid_bits ` S)) (\<lambda>xs. PeerId ` set xs) (sd_list (sd_word 32))"

definition sd_meta :: "meta pcodec" where
  "sd_meta = sd_iso
    (\<lambda>m. (mt_version m, pid_bits (mt_host m), mt_members m, seq_get (mt_head m),
      (case mt_kind m of Local \<Rightarrow> 0 | Remote \<Rightarrow> (1 :: byte)), mt_host_epoch m))
    (\<lambda>(v, h, ms, q, k, e). \<lparr> mt_version = v, mt_host = PeerId h, mt_members = ms, mt_head = Seq q,
      mt_kind = (if k = 0 then Local else Remote), mt_host_epoch = e \<rparr>)
    (sd_pair sd_nat (sd_pair (sd_word 32) (sd_pair sd_peers (sd_pair (sd_word 8) (sd_pair (sd_word 1) (sd_word 8))))))"

definition sd_ticket_entry :: "ticket_entry pcodec" where
  "sd_ticket_entry = sd_iso
    (\<lambda>t. (tid_uuid (te_ticket_id t), te_granted_cap t, te_expiry_ms t, te_issued_at_ms t,
      (case te_status t of Active \<Rightarrow> 0 | Revoked \<Rightarrow> (1 :: byte)), map pid_bits (te_used_by t)))
    (\<lambda>(i, c, x, y, s, u). \<lparr> te_ticket_id = TicketId i, te_granted_cap = c, te_expiry_ms = x, te_issued_at_ms = y,
      te_status = (if s = 0 then Active else Revoked), te_used_by = map PeerId u \<rparr>)
    (sd_pair (sd_word 16) (sd_pair sd_cap (sd_pair (sd_word 8) (sd_pair (sd_word 8) (sd_pair (sd_word 1) (sd_list (sd_word 32)))))))"

definition sd_tickets_file :: "tickets_file pcodec" where
  "sd_tickets_file = sd_iso (\<lambda>t. (tf_version t, tf_entries t)) (\<lambda>(v, es). \<lparr> tf_version = v, tf_entries = es \<rparr>)
    (sd_pair sd_nat (sd_list sd_ticket_entry))"

definition sd_epoch_floor_file :: "epoch_floor_file pcodec" where
  "sd_epoch_floor_file = sd_iso (\<lambda>t. (ef_version t, ef_floor t)) (\<lambda>(v, f). \<lparr> ef_version = v, ef_floor = f \<rparr>)
    (sd_pair sd_nat (sd_word 8))"

definition sample_fs :: "peer_id fs_env" where
  "sample_fs = \<lparr> fe_message = to_codec sd_message, fe_meta = to_codec sd_meta, fe_tickets = to_codec sd_tickets_file,
    fe_floor = to_codec sd_epoch_floor_file, fe_ed = open_ed, fe_verify = False, fe_is_utf8 = (\<lambda>_. True) \<rparr>"

lemma sd_nat [sd_intros]: "self_delim sd_nat"
proof -
  have "get_count (replicate n 1 @ 0 # r) = Some (n, r)" for n r by (induction n) simp_all
  then show ?thesis by (simp add: self_delim_def sd_nat_def)
qed

lemma sd_peers [sd_intros]: "self_delim sd_peers"
  unfolding sd_peers_def by (intro sd_iso sd_intros) (simp_all add: image_image)

lemma sample_fs_ok: "fs_env_ok sample_fs"
  unfolding fs_env_ok_def sample_fs_def fs_env.simps sd_meta_def sd_tickets_file_def sd_epoch_floor_file_def sd_ticket_entry_def
  by (intro conjI to_codec_ok sd_iso sd_intros)
    (auto simp: comp_def split: session_kind.splits ticket_status.splits)

lemma sample_fs_storable: "storable sample_fs i sample_message" "length (enc (fe_message sample_fs) sample_message) < 256"
    "3 \<le> length (enc (fe_message sample_fs) sample_message)"
  by (simp_all add: storable_def keep_message_def sample_fs_def to_codec_def sd_message_def sd_iso_def sd_pair_def sd_word_def
      sd_bytes_def sd_string_def sd_peer_info_def sd_kind_def sample_message_def session_message_new_def MAX_FRAME_SIZE_def)

definition sample_calls :: "store_call list" where
  "sample_calls = [SCreate sample_record]"

lemma sample_calls_run:
  "acceptable_run sample_fs sample_calls memory_new"
  "mem_rec (snd (store_outcomes memory_ops sample_calls memory_new)) (SessionId 9) = Some sample_record"
  by (simp_all add: sample_calls_def sample_record_def mem_rec_def memory_new_def mem_defs Let_def Seq_ZERO_def)

lemma run_holds:
  assumes "fs_env_ok fe" "acceptable_run fe cs memory_new"
  shows "disk_holds fe (snd (store_outcomes (fs_ops fe) cs fs_new)) (snd (store_outcomes memory_ops cs memory_new))"
  using sim_run [OF assms(1) disk_new assms(2)] by simp

subsection \<open>Properties\<close>



text \<open>C10: an append is all or nothing across a restart.  Let the system calls of an append on a
  stored session fail in any pattern, a write stopping after any number of bytes: loading the
  disk afterwards gives either exactly the records from before or exactly the records with the
  message appended, the latter if the append returned Ok, and the disk is consistent again.\<close>

theorem append_atomic_across_restart:
  assumes "fs_env_ok fe" "acceptable_run fe cs memory_new" "storable fe i m"
    and "snd (store_outcomes (fs_ops fe) cs fs_new) = s" "snd (store_outcomes memory_ops cs memory_new) = mem"
    and "mem_rec mem i \<noteq> None" "fs_append fe i m (s\<lparr> fd_faults := fp \<rparr>) = (res, s')"
  shows "\<exists>mem' rs t. mem' \<in> {mem, snd (mem_append i m mem)} \<and> (res = Inr () \<longrightarrow> mem' = snd (mem_append i m mem))
    \<and> fs_load_all fe (restarted s') = (Inr rs, t) \<and> set rs = {r. \<exists>j. mem_rec mem' j = Some r} \<and> disk_holds fe t mem'"
  by (rule append_restart_disk [OF assms(1) _ assms(3,6,7)]) (use run_holds [OF assms(1,2)] assms(4,5) in simp)

theorem append_atomic_across_restart_witness:
  "\<exists>res s' mem' rs t. fs_append sample_fs (SessionId 9) sample_message
      ((snd (store_outcomes (fs_ops sample_fs) sample_calls fs_new))\<lparr> fd_faults := [None, None, Some (Fault fs_not_found 40)] \<rparr>) = (res, s')
    \<and> fs_load_all sample_fs (restarted s') = (Inr rs, t) \<and> set rs = {r. \<exists>j. mem_rec mem' j = Some r} \<and> disk_holds sample_fs t mem'"
proof -
  obtain res s' where run: "fs_append sample_fs (SessionId 9) sample_message
      ((snd (store_outcomes (fs_ops sample_fs) sample_calls fs_new))\<lparr> fd_faults := [None, None, Some (Fault fs_not_found 40)] \<rparr>) = (res, s')"
    by (rule prod.exhaust)
  have "mem_rec (snd (store_outcomes memory_ops sample_calls memory_new)) (SessionId 9) \<noteq> None"
    using sample_calls_run(2) by simp
  from append_atomic_across_restart [OF sample_fs_ok sample_calls_run(1) sample_fs_storable(1) refl refl this run] run
  show ?thesis by blast
qed

text \<open>C36: a failed append is not undone.  If the frame is written and the meta document then
  cannot be read, the append reports the error, but the message is in the log; a daemon that goes
  on, and gives the next message the same number since its own head did not move, stores both:
  the session loads with two messages under one number.\<close>

theorem failed_append_then_retry_duplicates_number:
  assumes "fs_env_ok fe" "acceptable_run fe cs memory_new" "storable fe i m" "storable fe i m'" "m_seq m = m_seq m'"
    and "snd (store_outcomes (fs_ops fe) cs fs_new) = s" "mem_rec (snd (store_outcomes memory_ops cs memory_new)) i = Some r"
  shows "\<exists>s1 s2 r'. fs_append fe i m (s\<lparr> fd_faults := [None, None, None, None, Some (Fault e n)] \<rparr>) = (Inl e, s1)
    \<and> fs_append fe i m' s1 = (Inr (), s2) \<and> load_one fe i s2 = (Inr r', s2)
    \<and> sr_log r' = sr_log r @ [m, m'] \<and> \<not> distinct (map m_seq (sr_log r'))"
proof -
  have d: "disk_holds fe s (snd (store_outcomes memory_ops cs memory_new))"
    using run_holds [OF assms(1,2)] assms(6) by simp
  note calm = disk_holdsD(1) [OF d] and dir = disk_holdsD(2) [OF d assms(7)]
  let ?s1 = "s\<lparr> fd_files := (fd_files s)(LogPath i \<mapsto>
      frames (fe_message fe) (sr_log r) @ take (length (log_frame (fe_message fe) m)) (log_frame (fe_message fe) m)) \<rparr>"
  have one: "dir_holds fe ?s1 i (appended r m)" by (rule torn_or_whole(2) [OF assms(1) dir assms(3)]) simp
  have calm1: "fd_faults ?s1 = []" using calm by simp
  from assms(1) calm1 one assms(4) obtain s2 where s2: "fs_append fe i m' ?s1 = (Inr (), s2)" "fd_faults s2 = []"
      "dir_holds fe s2 i (appended (appended r m) m')"
  proof (rule fs_append_calm, goal_cases)
    case (1 x) then show ?case using calm by (intro 1(1) [OF 1(2)]) (simp_all add: appended_def)
  qed
  from load_one_holds [OF assms(1) s2(2,3)] append_meta_fault [OF calm dir assms(3)] s2(1) assms(5) show ?thesis
    by (auto simp: appended_def)
qed

theorem failed_append_then_retry_duplicates_number_witness:
  "\<exists>s1 s2 r'. fs_append sample_fs (SessionId 9) sample_message ((snd (store_outcomes (fs_ops sample_fs) sample_calls fs_new))
        \<lparr> fd_faults := [None, None, None, None, Some (Fault fs_not_found 0)] \<rparr>) = (Inl fs_not_found, s1)
    \<and> fs_append sample_fs (SessionId 9) sample_message s1 = (Inr (), s2)
    \<and> load_one sample_fs (SessionId 9) s2 = (Inr r', s2) \<and> \<not> distinct (map m_seq (sr_log r'))"
  using failed_append_then_retry_duplicates_number [OF sample_fs_ok sample_calls_run(1) sample_fs_storable(1)
      sample_fs_storable(1) refl refl sample_calls_run(2)] by blast

text \<open>A torn write swallows the next message.  If the first write of an append stops after one
  byte, the append reports the error and leaves that byte; the next append returns Ok, yet its
  message is gone at the next start: the reader is one byte out of step, drops an empty frame,
  and cuts the file at a length that is too large.\<close>

theorem append_after_torn_write_is_lost:
  assumes "fs_env_ok fe" "acceptable_run fe cs memory_new" "storable fe i m" "storable fe i m'"
    and "snd (store_outcomes (fs_ops fe) cs fs_new) = s" "mem_rec (snd (store_outcomes memory_ops cs memory_new)) i = Some r"
    and "length (enc (fe_message fe) m) < MAX_FRAME_SIZE"
    and "3 \<le> length (enc (fe_message fe) m')" "length (enc (fe_message fe) m') < 256" "dec (fe_message fe) [] = Inl x"
  shows "\<exists>s1 s2 r'. fs_append fe i m (s\<lparr> fd_faults := [None, Some (Fault e 1)] \<rparr>) = (Inl e, s1)
    \<and> fs_append fe i m' s1 = (Inr (), s2) \<and> fst (load_one fe i s2) = Inr r' \<and> sr_log r' = sr_log r"
proof -
  have d: "disk_holds fe s (snd (store_outcomes memory_ops cs memory_new))"
    using run_holds [OF assms(1,2)] assms(5) by simp
  note calm = disk_holdsD(1) [OF d] and dir = disk_holdsD(2) [OF d assms(6)]
  let ?fs = "frames (fe_message fe) (sr_log r)"
  let ?s1 = "s\<lparr> fd_files := (fd_files s)(LogPath i \<mapsto> ?fs @ [0]) \<rparr>"
  from dir obtain h where h: "fd_files s (MetaPath i) = Some (enc (fe_meta fe) ((meta_from_record r)\<lparr> mt_head := h \<rparr>))"
    and log: "list_all (storable fe i) (sr_log r)" and i: "i \<in> set (fd_dirs s)" by (auto simp: dir_holds_def)
  have "append_log fe i m' ?s1 = (Inr (), ?s1\<lparr> fd_files := (fd_files ?s1)(LogPath i \<mapsto>
      (?fs @ [0]) @ log_frame (fe_message fe) m') \<rparr>)"
    using calm i assms(4) by (intro append_log_calm) simp_all
  then obtain s2 h' where s2: "fs_append fe i m' ?s1 = (Inr (), s2)" "fd_faults s2 = []"
      "fd_files s2 = (fd_files s)(LogPath i \<mapsto> ?fs @ 0 # log_frame (fe_message fe) m',
        MetaPath i \<mapsto> enc (fe_meta fe) ((meta_from_record r)\<lparr> mt_head := h' \<rparr>))"
    using assms(1) calm i h
    by (simp add: fs_append_def read_meta_def write_meta_def write_json_atomic_def fs_env_ok_def codec_okD)
  let ?t = "s2\<lparr> fd_files := (fd_files s2)(LogPath i \<mapsto> take
      (snd (read_frames (fe_message fe) (keep_message fe i) (?fs @ 0 # log_frame (fe_message fe) m')))
      (?fs @ 0 # log_frame (fe_message fe) m')) \<rparr>"
  have "read_log fe i s2 = (Inr (sr_log r), ?t)"
    using read_frames_misaligned [OF assms(1,10) log assms(8,9)] read_log_take [OF s2(2), of i "?fs @ 0 # log_frame (fe_message fe) m'" fe]
    by (simp add: s2(3))
  moreover have "load_tickets fe i ?t = (Inr (sr_tickets r), ?t)"
    using dir by (intro load_tickets_holds [OF assms(1)]) (auto simp: s2(2,3) dir_holds_def)
  ultimately have "load_one fe i s2 = (Inr (r\<lparr> sr_head := max h' (log_tail (sr_log r)), sr_log := sr_log r \<rparr>), ?t)"
    using dir by (intro load_one_docs [OF assms(1) s2(2)]) (simp_all add: s2(2,3) dir_holds_def)
  with append_torn_first_byte [OF calm dir assms(3,7)] s2(1) show ?thesis by auto
qed

theorem append_after_torn_write_is_lost_witness:
  "\<exists>s1 s2 r'. fs_append sample_fs (SessionId 9) sample_message ((snd (store_outcomes (fs_ops sample_fs) sample_calls fs_new))
        \<lparr> fd_faults := [None, Some (Fault fs_not_found 1)] \<rparr>) = (Inl fs_not_found, s1)
    \<and> fs_append sample_fs (SessionId 9) sample_message s1 = (Inr (), s2)
    \<and> fst (load_one sample_fs (SessionId 9) s2) = Inr r' \<and> sr_log r' = []"
proof -
  have "dec (fe_message sample_fs) [] = Inl ''malformed''"
    by (simp add: sample_fs_def to_codec_def sd_message_def sd_iso_def sd_pair_def sd_word_def)
  moreover have "length (enc (fe_message sample_fs) sample_message) < MAX_FRAME_SIZE"
    using sample_fs_storable(2) by (simp add: MAX_FRAME_SIZE_def)
  moreover have "sr_log sample_record = []" by (simp add: sample_record_def)
  ultimately show ?thesis
    using append_after_torn_write_is_lost [OF sample_fs_ok sample_calls_run(1) sample_fs_storable(1) sample_fs_storable(1)
        refl sample_calls_run(2) _ sample_fs_storable(3,2)] by metis
qed

text \<open>C31: the epoch floor on disk is above every epoch that was ever on disk.  Run any store calls on
  an empty disk with any of their system calls failing, restart, run any more calls with other
  failures, deletions and re-creations of the same session included: an epoch that the meta
  document of a session held in between is below the floor read at the end.  Only the last
  representable epoch, where the increment wraps around, is excluded, and a failing system call
  does not report an existing file as missing.\<close>

theorem disk_epoch_floor_above_history:
  assumes "fs_env_ok fe" "honest (fs_new\<lparr> fd_faults := fp1 \<rparr>)" "honest (s1\<lparr> fd_faults := fp2 \<rparr>)"
    and "s1 = snd (store_outcomes (fs_ops fe) cs1 (fs_new\<lparr> fd_faults := fp1 \<rparr>))"
    and "fd_files s1 (MetaPath i) = Some bs" "dec (fe_meta fe) bs = Inr m" "mt_host_epoch m \<noteq> u64_MAX"
    and "s2 = snd (store_outcomes (fs_ops fe) cs2 (s1\<lparr> fd_faults := fp2 \<rparr>))"
  shows "\<exists>f. fst (fs_epoch_floor fe i (restarted s2)) = Inr f \<and> mt_host_epoch m < f"
proof -
  have "fits (floors_hold fe (\<lambda>_. 0)) (fs_new\<lparr> fd_faults := fp1 \<rparr>)"
    using assms(2) by (simp add: fits_def floors_hold_def fs_new_def)
  from keeps_run [OF assms(1) this, of cs1] have s1: "floors_hold fe (\<lambda>_. 0) (fd_files s1)"
    by (simp add: fits_def assms(4))
  let ?low = "(\<lambda>_. 0)(i := floor_of fe (fd_files s1) i)"
  from s1 assms(5) obtain m' where m': "bs = enc (fe_meta fe) m'" "epoch_below (mt_host_epoch m') (floor_of fe (fd_files s1) i)"
    unfolding floors_hold_def by blast
  with assms(1,6,7) have below: "mt_host_epoch m < floor_of fe (fd_files s1) i"
    by (auto simp: fs_env_ok_def codec_okD epoch_below_def)
  have "fits (floors_hold fe ?low) (s1\<lparr> fd_faults := fp2 \<rparr>)"
    using s1 assms(3) by (simp add: fits_def floors_hold_def)
  from keeps_run [OF assms(1) this, of cs2] have s2: "floors_hold fe ?low (fd_files s2)"
    by (simp add: fits_def assms(8))
  then have "floor_of fe (fd_files s1) i \<le> floor_of fe (fd_files s2) i" by (auto simp: floors_hold_def dest: spec [of _ i])
  moreover have "floor_holds fe (restarted s2) i (floor_of fe (fd_files s2) i)"
  proof (cases "fd_files s2 (FloorPath i)")
    case None then show ?thesis by (simp add: floor_holds_def restarted_def floor_of_def)
  next
    case (Some b)
    with s2 obtain f where "b = floor_doc fe f" by (auto simp: floors_hold_def)
    with Some assms(1) show ?thesis by (simp add: floor_holds_def restarted_def floor_doc_def [symmetric])
  qed
  from raise_floor_calm [OF assms(1) _ this, of 0]
  have "fst (fs_epoch_floor fe i (restarted s2)) = Inr (floor_of fe (fd_files s2) i)"
    by (simp add: fs_epoch_floor_def restarted_def)
  ultimately show ?thesis using below by auto
qed

theorem disk_epoch_floor_above_history_witness:
  "\<exists>f. fst (fs_epoch_floor sample_fs (SessionId 9) (restarted (snd (store_outcomes (fs_ops sample_fs) [SDelete (SessionId 9)]
      ((snd (store_outcomes (fs_ops sample_fs) sample_calls fs_new))\<lparr> fd_faults := [None, Some (Fault (IoError OtherIo ''EIO'') 0)] \<rparr>)))))
    = Inr f \<and> 0 < f"
proof -
  let ?s1 = "snd (store_outcomes (fs_ops sample_fs) sample_calls (fs_new\<lparr> fd_faults := [] \<rparr>))"
  have new: "fs_new\<lparr> fd_faults := [] \<rparr> = fs_new" by (simp add: fs_new_def)
  have "dir_holds sample_fs ?s1 (SessionId 9) sample_record"
    unfolding new by (rule disk_holdsD(2) [OF run_holds [OF sample_fs_ok sample_calls_run(1)] sample_calls_run(2)])
  then obtain h where h: "fd_files ?s1 (MetaPath (SessionId 9)) =
      Some (enc (fe_meta sample_fs) ((meta_from_record sample_record)\<lparr> mt_head := h \<rparr>))"
    by (auto simp: dir_holds_def)
  have d: "dec (fe_meta sample_fs) (enc (fe_meta sample_fs) ((meta_from_record sample_record)\<lparr> mt_head := h \<rparr>))
      = Inr ((meta_from_record sample_record)\<lparr> mt_head := h \<rparr>)"
    using sample_fs_ok by (simp add: fs_env_ok_def codec_okD)
  have e: "mt_host_epoch ((meta_from_record sample_record)\<lparr> mt_head := h \<rparr>) = 0"
    by (simp add: meta_from_record_def sample_record_def)
  show ?thesis
    using disk_epoch_floor_above_history [OF sample_fs_ok _ _ refl h d _ refl,
        of "[None, Some (Fault (IoError OtherIo ''EIO'') 0)]" "[SDelete (SessionId 9)]"]
    unfolding new e by (auto simp: honest_def fs_new_def u64_MAX_def)
qed

end
