(* ===== verification/Paths.thy ===== *)
theory Paths
  imports Prelude
begin

text \<open>
  Paths of a workspace: \<open>std::path\<close> on Unix as far as \<open>artel-fs\<close> uses it, and the translation between
  paths and document keys of \<open>artel-fs/src/keys.rs\<close>.  Bytes of a path, of a key and of a string are
  the characters of a \<^typ>\<open>string\<close>.  A \<open>Path\<close> is the list of its components, which is how Rust compares
  and hashes paths.  Unicode normalisation (the crate \<open>unicode-normalization\<close>) is the parameter \<open>nfc\<close>.
\<close>

subsection \<open>Components\<close>

datatype path_component = RootDir | CurDir | ParentDir | Normal string

type_synonym path = "path_component list"

text \<open>\<open>str::split\<close> at a character.\<close>

fun split_on :: "char \<Rightarrow> string \<Rightarrow> string list" where
  "split_on c [] = [[]]"
| "split_on c (x # xs) =
    (if x = c then [] # split_on c xs
     else case split_on c xs of [] \<Rightarrow> [[x]] | s # ss \<Rightarrow> (x # s) # ss)"

text \<open>One segment between separators: empty ones and \<open>.\<close> disappear.\<close>

definition segment_component :: "string \<Rightarrow> path_component list" where
  "segment_component s =
    (if s = [] \<or> s = ''.'' then [] else if s = ''..'' then [ParentDir] else [Normal s])"

text \<open>\<open>Path::components\<close>: a leading \<open>.\<close> of a relative path is kept.\<close>

definition components :: "string \<Rightarrow> path" where
  "components p =
    (let ss = split_on (CHR ''/'') p; body = concat (map segment_component ss)
     in if p \<noteq> [] \<and> hd p = CHR ''/'' then RootDir # body
        else if hd ss = ''.'' then CurDir # body else body)"

text \<open>\<open>Path::strip_prefix\<close> and \<open>Path::join\<close>.\<close>

definition strip_prefix :: "path \<Rightarrow> path \<Rightarrow> path option" where
  "strip_prefix root p = (if prefix root p then Some (drop (length root) p) else None)"

definition join_path :: "path \<Rightarrow> path \<Rightarrow> path" where
  "join_path root p =
    (if p \<noteq> [] \<and> hd p = RootDir then p
     else if root \<noteq> [] \<and> p \<noteq> [] \<and> hd p = CurDir then root @ tl p
     else root @ p)"

text \<open>\<open>[String]::join("/")\<close>.\<close>

fun join_slash :: "string list \<Rightarrow> string" where
  "join_slash [] = []"
| "join_slash [s] = s"
| "join_slash (s # ss) = s @ CHR ''/'' # join_slash ss"

text \<open>\<open>str::from_utf8\<close> and \<open>OsStr::to_str\<close>: well-formed UTF-8, by the table of the Unicode standard.\<close>

definition in_range :: "nat \<Rightarrow> nat \<Rightarrow> char \<Rightarrow> bool" where
  "in_range lo hi c \<longleftrightarrow> lo \<le> of_char c \<and> of_char c \<le> hi"

definition second_ok :: "char \<Rightarrow> char \<Rightarrow> bool" where
  "second_ok a b \<longleftrightarrow>
    (if of_char a = (0xE0::nat) then in_range 0xA0 0xBF b
     else if of_char a = (0xED::nat) then in_range 0x80 0x9F b
     else if of_char a = (0xF0::nat) then in_range 0x90 0xBF b
     else if of_char a = (0xF4::nat) then in_range 0x80 0x8F b
     else in_range 0x80 0xBF b)"

text \<open>The length that the first byte announces, and the length of the sequence at the front, 0 when
  there is none.\<close>

definition utf8_width :: "char \<Rightarrow> nat" where
  "utf8_width a =
    (if in_range 0 0x7F a then 1 else if in_range 0xC2 0xDF a then 2
     else if in_range 0xE0 0xEF a then 3 else if in_range 0xF0 0xF4 a then 4 else 0)"

definition utf8_head :: "string \<Rightarrow> nat" where
  "utf8_head s =
    (let n = utf8_width (hd s) in
     if n \<le> length s \<and> (n < 2 \<or> second_ok (hd s) (s ! 1)) \<and> list_all (\<lambda>i. in_range 0x80 0xBF (s ! i)) [2..<n]
     then n else 0)"

function utf8_ok :: "string \<Rightarrow> bool" where
  "utf8_ok s = (if s = [] then True else if utf8_head s = 0 then False else utf8_ok (drop (utf8_head s) s))"
  by pat_completeness auto
termination
  by (relation "measure length") auto

declare utf8_ok.simps [simp del]

subsection \<open>Keys\<close>

text \<open>The reasons of \<open>WorkspaceError::InvalidPath\<close>.\<close>

datatype key_error =
    NotInsideRoot
  | NonUtf8Component
  | PathTraversal
  | NotRelative
  | MissingKeyPrefix
  | KeyNotUtf8
  | KeyAbsolute
  | KeyTraversal
  | KeyNamesNoPath

definition KEY_PREFIX :: string where
  "KEY_PREFIX = ''path/''"

fun key_parts :: "(string \<Rightarrow> string) \<Rightarrow> path \<Rightarrow> key_error + string list" where
  "key_parts nfc [] = Inr []"
| "key_parts nfc (Normal part # cs) =
    (if utf8_ok part then map_sum id (\<lambda>ps. nfc part # ps) (key_parts nfc cs) else Inl NonUtf8Component)"
| "key_parts nfc (CurDir # cs) = key_parts nfc cs"
| "key_parts nfc (ParentDir # cs) = Inl PathTraversal"
| "key_parts nfc (RootDir # cs) = Inl NotRelative"

definition path_to_key :: "(string \<Rightarrow> string) \<Rightarrow> path \<Rightarrow> path \<Rightarrow> key_error + string" where
  "path_to_key nfc root abs_path =
    (case strip_prefix root abs_path of
       None \<Rightarrow> Inl NotInsideRoot
     | Some rel \<Rightarrow> map_sum id (\<lambda>parts. KEY_PREFIX @ join_slash parts) (key_parts nfc rel))"

definition is_ascii_alphabetic :: "char \<Rightarrow> bool" where
  "is_ascii_alphabetic c \<longleftrightarrow> in_range 65 90 c \<or> in_range 97 122 c"

fun has_windows_drive_prefix :: "string \<Rightarrow> bool" where
  "has_windows_drive_prefix (a # b # s) \<longleftrightarrow> is_ascii_alphabetic a \<and> b = CHR '':''"
| "has_windows_drive_prefix _ \<longleftrightarrow> False"

fun count_normal :: "path \<Rightarrow> key_error + nat" where
  "count_normal [] = Inr 0"
| "count_normal (ParentDir # cs) = Inl KeyTraversal"
| "count_normal (RootDir # cs) = Inl KeyAbsolute"
| "count_normal (Normal _ # cs) = map_sum id Suc (count_normal cs)"
| "count_normal (CurDir # cs) = count_normal cs"

definition key_to_path :: "path \<Rightarrow> string \<Rightarrow> key_error + path" where
  "key_to_path root key =
    (if \<not> prefix KEY_PREFIX key then Inl MissingKeyPrefix
     else let rel = drop (length KEY_PREFIX) key in
       if \<not> utf8_ok rel then Inl KeyNotUtf8
       else if rel \<noteq> [] \<and> (hd rel = CHR ''/'' \<or> hd rel = CHR 0x5C) then Inl KeyAbsolute
       else if has_windows_drive_prefix rel then Inl KeyAbsolute
       else if ''..'' \<in> set (split_on (CHR ''/'') rel) then Inl KeyTraversal
       else case count_normal (components rel) of
           Inl e \<Rightarrow> Inl e
         | Inr n \<Rightarrow> if n = 0 then Inl KeyNamesNoPath else Inr (join_path root (components rel)))"

subsection \<open>Facts about components\<close>

lemma split_on_ne [simp]: "split_on c s \<noteq> []"
  by (induction s) (auto split: list.splits)

lemma split_on_no_sep: "s' \<in> set (split_on c s) \<Longrightarrow> c \<notin> set s'"
  by (induction s arbitrary: s') (auto split: list.splits if_splits)

lemma split_on_single [simp]: "c \<notin> set s \<Longrightarrow> split_on c s = [s]"
  by (induction s) auto

lemma split_on_append: "c \<notin> set s \<Longrightarrow> split_on c (s @ c # t) = s # split_on c t"
  by (induction s) auto

lemma split_join_slash:
  "\<lbrakk>ss \<noteq> []; \<forall>s\<in>set ss. CHR ''/'' \<notin> set s\<rbrakk> \<Longrightarrow> split_on (CHR ''/'') (join_slash ss) = ss"
  by (induction ss rule: join_slash.induct) (auto simp: split_on_append)

definition is_name :: "string \<Rightarrow> bool" where
  "is_name s \<longleftrightarrow> s \<noteq> [] \<and> s \<noteq> ''.'' \<and> s \<noteq> ''..'' \<and> CHR ''/'' \<notin> set s"

lemma segment_name: "is_name s \<Longrightarrow> segment_component s = [Normal s]"
  by (simp add: is_name_def segment_component_def)

lemma hd_join_slash: "\<lbrakk>ss \<noteq> []; hd ss \<noteq> []\<rbrakk> \<Longrightarrow> join_slash ss \<noteq> [] \<and> hd (join_slash ss) = hd (hd ss)"
  by (induction ss rule: join_slash.induct) auto

lemma components_join:
  assumes "ss \<noteq> []" "\<forall>s\<in>set ss. is_name s"
  shows "components (join_slash ss) = map Normal ss"
proof -
  have hd: "is_name (hd ss)" using assms by simp
  then have "hd (hd ss) \<noteq> CHR ''/''" by (cases "hd ss") (auto simp: is_name_def)
  moreover have "concat (map segment_component ss) = map Normal ss"
    using assms(2) by (induction ss) (auto simp: segment_name)
  ultimately show ?thesis
    using split_join_slash [of ss] hd_join_slash [of ss] assms hd by (simp add: components_def Let_def is_name_def)
qed

lemma body_names: "c \<in> set (concat (map segment_component (split_on (CHR ''/'') s))) \<Longrightarrow>
    (c = ParentDir \<and> ''..'' \<in> set (split_on (CHR ''/'') s)) \<or> (\<exists>n. c = Normal n \<and> is_name n)"
  by (auto simp: segment_component_def is_name_def dest: split_on_no_sep split: if_splits)

lemma count_normal_Inr: "\<lbrakk>\<forall>c\<in>set cs. \<exists>n. c = Normal n\<rbrakk> \<Longrightarrow> count_normal cs = Inr (length cs)"
  by (induction cs) auto

lemma key_parts_names: "key_parts nfc (map Normal ns) = (if \<forall>n\<in>set ns. utf8_ok n then Inr (map nfc ns) else Inl NonUtf8Component)"
  by (induction ns) auto

lemma utf8_ok_Nil [simp]: "utf8_ok []"
  by (simp add: utf8_ok.simps)

lemma utf8_ok_ascii [simp]: "of_char a \<le> (127::nat) \<Longrightarrow> utf8_ok (a # s) = utf8_ok s"
  by (subst utf8_ok.simps) (simp add: utf8_head_def utf8_width_def in_range_def)

lemma utf8_head_append:
  assumes "utf8_head s \<noteq> 0"
  shows "utf8_head (s @ t) = utf8_head s \<and> utf8_head s \<le> length s"
proof -
  let ?n = "utf8_width (hd s)"
  have n: "?n \<le> length s" "?n \<noteq> 0" "utf8_head s = ?n" using assms by (auto simp: utf8_head_def Let_def split: if_splits)
  then have "s \<noteq> []" by auto
  moreover have "list_all (\<lambda>i. in_range 0x80 0xBF ((s @ t) ! i)) [2..<?n] = list_all (\<lambda>i. in_range 0x80 0xBF (s ! i)) [2..<?n]"
    using n(1) by (intro list.pred_cong) (auto simp: nth_append)
  moreover have "2 \<le> ?n \<Longrightarrow> (s @ t) ! 1 = s ! 1" using n(1) by (simp add: nth_append)
  ultimately show ?thesis using n by (cases "2 \<le> ?n") (auto simp: utf8_head_def Let_def split: if_splits)
qed

lemma utf8_ok_append: "\<lbrakk>utf8_ok s; utf8_ok t\<rbrakk> \<Longrightarrow> utf8_ok (s @ t)"
proof (induction s rule: utf8_ok.induct)
  case (1 s)
  show ?case
  proof (cases "s = []")
    case False
    then have h: "utf8_head s \<noteq> 0" "utf8_ok (drop (utf8_head s) s)"
      using 1(2) by (simp_all add: utf8_ok.simps [of s] split: if_splits)
    with 1 False utf8_head_append [OF h(1), of t] show ?thesis by (simp add: utf8_ok.simps [of "s @ t"])
  qed (use 1 in simp)
qed

lemma utf8_ok_join: "\<forall>s\<in>set ss. utf8_ok s \<Longrightarrow> utf8_ok (join_slash ss)"
  by (induction ss rule: join_slash.induct) (auto simp: utf8_ok_append)

lemma drive_join: "ss \<noteq> [] \<Longrightarrow> hd ss \<noteq> [] \<Longrightarrow> has_windows_drive_prefix (join_slash ss) = has_windows_drive_prefix (hd ss)"
proof (induction ss rule: join_slash.induct)
  case (3 s t ts)
  then obtain a s' where "s = a # s'" by (cases s) auto
  then show ?case by (cases s') auto
qed auto

lemma names_list:
  "\<forall>c\<in>set cs. \<exists>n. c = Normal n \<and> is_name n \<Longrightarrow> \<exists>ns. cs = map Normal ns \<and> (\<forall>n\<in>set ns. is_name n)"
proof (induction cs)
  case (Cons c cs)
  then obtain n ns where "c = Normal n" "is_name n" "cs = map Normal ns" "\<forall>n\<in>set ns. is_name n" by auto
  then show ?case by (intro exI [of _ "n # ns"]) simp
qed simp

lemma components_key:
  assumes "''..'' \<notin> set (split_on (CHR ''/'') rel)" "rel = [] \<or> hd rel \<noteq> CHR ''/''"
  obtains ns where "components rel = map Normal ns \<or> components rel = CurDir # map Normal ns" "\<forall>n\<in>set ns. is_name n"
proof -
  let ?body = "concat (map segment_component (split_on (CHR ''/'') rel))"
  have "\<forall>c\<in>set ?body. \<exists>n. c = Normal n \<and> is_name n" using body_names assms(1) by blast
  from names_list [OF this] obtain ns where "?body = map Normal ns" "\<forall>n\<in>set ns. is_name n" by blast
  then show thesis using that [of ns] assms(2) by (auto simp: components_def Let_def)
qed

subsection \<open>Keys and paths\<close>

lemma key_below_root:
  assumes "key_to_path root key = Inr p" "root \<noteq> []"
  shows "\<exists>ns. ns \<noteq> [] \<and> (\<forall>n\<in>set ns. is_name n) \<and> p = root @ map Normal ns"
proof -
  let ?rel = "drop (length KEY_PREFIX) key"
  have k: "''..'' \<notin> set (split_on (CHR ''/'') ?rel)" "?rel = [] \<or> hd ?rel \<noteq> CHR ''/''"
      and n: "\<exists>n. count_normal (components ?rel) = Inr n \<and> n \<noteq> 0 \<and> p = join_path root (components ?rel)"
    using assms(1) by (auto simp: key_to_path_def Let_def split: if_splits sum.splits)
  obtain ns where ns: "components ?rel = map Normal ns \<or> components ?rel = CurDir # map Normal ns" "\<forall>n\<in>set ns. is_name n"
    by (rule components_key [OF k])
  have "count_normal (map Normal ns) = Inr (length ns)" by (simp add: count_normal_Inr)
  with n ns(1) have "ns \<noteq> []" by auto
  moreover have "p = root @ map Normal ns"
    using n ns(1) \<open>ns \<noteq> []\<close> assms(2) by (cases ns) (auto simp: join_path_def)
  ultimately show ?thesis using ns(2) by blast
qed

lemma key_round_trip:
  assumes "root \<noteq> []" "ns \<noteq> []" "\<forall>n\<in>set ns. is_name n \<and> utf8_ok n \<and> nfc n = n"
  shows "path_to_key nfc root (root @ map Normal ns) = Inr (KEY_PREFIX @ join_slash ns)
    \<and> key_to_path root (KEY_PREFIX @ join_slash ns) =
      (if hd (hd ns) = CHR 0x5C \<or> has_windows_drive_prefix (hd ns) then Inl KeyAbsolute else Inr (root @ map Normal ns))"
proof -
  have hd: "is_name (hd ns)" using assms(2,3) by simp
  then have ne: "hd ns \<noteq> []" "hd (hd ns) \<noteq> CHR ''/''" by (cases "hd ns"; auto simp: is_name_def)+
  note j = hd_join_slash [OF assms(2) ne(1)]
  have "map nfc ns = ns" using assms(3) by (simp add: map_idI)
  moreover have "split_on (CHR ''/'') (join_slash ns) = ns"
    by (rule split_join_slash) (use assms(2,3) in \<open>auto simp: is_name_def\<close>)
  moreover have "''..'' \<notin> set ns" using assms(3) by (auto simp: is_name_def)
  moreover have "utf8_ok (join_slash ns)" using assms(3) by (simp add: utf8_ok_join)
  moreover have "components (join_slash ns) = map Normal ns" by (rule components_join) (use assms in auto)
  ultimately show ?thesis
    using assms ne j drive_join [OF assms(2) ne(1)]
    by (cases ns) (auto simp: path_to_key_def strip_prefix_def key_parts_names key_to_path_def Let_def count_normal_Inr join_path_def)
qed

subsection \<open>Properties\<close>

text \<open>A key never leaves the workspace.  Whatever bytes a peer publishes as a document key, if they
  translate to a path at all, the path is the root followed by at least one ordinary name: no parent
  directory, no absolute path, and never the root itself.\<close>

theorem key_stays_below_root:
  assumes "key_to_path root key = Inr p" "root \<noteq> []"
  shows "\<exists>ns. ns \<noteq> [] \<and> (\<forall>n\<in>set ns. is_name n) \<and> p = root @ map Normal ns"
  using assms by (rule key_below_root)

text \<open>C37: paths and keys correspond.  A path below the root whose names are UTF-8 and normalised gets
  the key with its names in order, and the key translates back to the path, except when the first name
  starts with a backslash or looks like a drive letter: such a file is published, and every peer
  refuses its key as absolute.\<close>

theorem path_key_round_trip:
  assumes "root \<noteq> []" "ns \<noteq> []" "\<forall>n\<in>set ns. is_name n \<and> utf8_ok n \<and> nfc n = n"
  shows "path_to_key nfc root (root @ map Normal ns) = Inr (KEY_PREFIX @ join_slash ns)
    \<and> key_to_path root (KEY_PREFIX @ join_slash ns) =
      (if hd (hd ns) = CHR 0x5C \<or> has_windows_drive_prefix (hd ns) then Inl KeyAbsolute else Inr (root @ map Normal ns))"
  using assms by (rule key_round_trip)

definition sample_root :: path where
  "sample_root = [RootDir, Normal ''work'']"

theorem key_stays_below_root_witness:
  "\<exists>ns. ns \<noteq> [] \<and> (\<forall>n\<in>set ns. is_name n)
    \<and> [RootDir, Normal ''work'', Normal ''a'', Normal ''b''] = sample_root @ map Normal ns"
  by (rule key_stays_below_root [of _ "''path/a/./b''"])
    (simp_all add: sample_root_def key_to_path_def KEY_PREFIX_def Let_def components_def segment_component_def join_path_def)

theorem path_key_round_trip_witness:
  "path_to_key (\<lambda>s. s) sample_root (sample_root @ [Normal ''a:b'', Normal ''c'']) = Inr ''path/a:b/c''
    \<and> key_to_path sample_root ''path/a:b/c'' = Inl KeyAbsolute"
  using path_key_round_trip [of sample_root "[''a:b'', ''c'']" "\<lambda>s. s"]
  by (simp add: sample_root_def is_name_def KEY_PREFIX_def is_ascii_alphabetic_def in_range_def)

end
