(* ===== verification/Rules.thy ===== *)
theory Rules
  imports Paths
begin

text \<open>
  Which paths of a workspace sync: the read/write rules of \<open>artel-fs/src/rules.rs\<close> and the filter of
  \<open>artel-fs/src/filter.rs\<close>.  The crate \<open>globset\<close> is the record \<open>globs\<close> of its functions; what the code
  relies on is \<open>globs_ok\<close>.  What the file system answers to a filter is the record \<open>fs_view\<close>.
\<close>

subsection \<open>Rules\<close>

datatype mode = MReadWrite | MReadOnly

record path_rule =
  pr_glob :: string
  pr_mode :: mode

record path_rules =
  prs_default :: mode
  prs_rules :: "path_rule list"

datatype path_rules_error =
    EmptyGlob
  | AbsoluteGlob string
  | ParentTraversalGlob string
  | InvalidGlob (ig_glob: string) (ig_reason: string)

record ('g, 's) globs =
  gl_new :: "string \<Rightarrow> string + 'g"
  gl_is_match :: "'g \<Rightarrow> string \<Rightarrow> bool"
  gl_build :: "'g list \<Rightarrow> string + 's"
  gl_matches :: "'s \<Rightarrow> string \<Rightarrow> nat list"
  gl_set_is_match :: "'s \<Rightarrow> string \<Rightarrow> bool"

text \<open>A built set reports the numbers of the globs that match, in ascending order.\<close>

definition globs_ok :: "('g, 's) globs \<Rightarrow> bool" where
  "globs_ok gl \<longleftrightarrow> (\<forall>gs s hay. gl_build gl gs = Inr s \<longrightarrow>
    gl_matches gl s hay = filter (\<lambda>i. gl_is_match gl (gs ! i) hay) [0..<length gs]
    \<and> gl_set_is_match gl s hay = (gl_matches gl s hay \<noteq> []))"

definition rules_read_write :: path_rules where
  "rules_read_write = \<lparr> prs_default = MReadWrite, prs_rules = [] \<rparr>"

definition rules_read_only :: path_rules where
  "rules_read_only = \<lparr> prs_default = MReadOnly, prs_rules = [] \<rparr>"

fun match_parts :: "(string \<Rightarrow> string) \<Rightarrow> path \<Rightarrow> string list option" where
  "match_parts nfc [] = Some []"
| "match_parts nfc (Normal part # cs) =
    (if utf8_ok part then map_option (\<lambda>ps. nfc part # ps) (match_parts nfc cs) else None)"
| "match_parts nfc (CurDir # cs) = match_parts nfc cs"
| "match_parts nfc (ParentDir # cs) = None"
| "match_parts nfc (RootDir # cs) = None"

definition path_to_match_string :: "(string \<Rightarrow> string) \<Rightarrow> path \<Rightarrow> string option" where
  "path_to_match_string nfc rel = map_option join_slash (match_parts nfc rel)"

definition glob_matches_one :: "('g, 's) globs \<Rightarrow> (string \<Rightarrow> string) \<Rightarrow> string \<Rightarrow> string \<Rightarrow> bool" where
  "glob_matches_one gl nfc glob hay = (case gl_new gl (nfc glob) of Inl _ \<Rightarrow> False | Inr g \<Rightarrow> gl_is_match gl g hay)"

text \<open>The slow path: every glob is parsed on every call.\<close>

definition mode_for :: "('g, 's) globs \<Rightarrow> (string \<Rightarrow> string) \<Rightarrow> path_rules \<Rightarrow> path \<Rightarrow> mode" where
  "mode_for gl nfc rs rel =
    (case path_to_match_string nfc rel of
       None \<Rightarrow> prs_default rs
     | Some hay \<Rightarrow>
         (case find (\<lambda>r. glob_matches_one gl nfc (pr_glob r) hay) (prs_rules rs) of
            Some r \<Rightarrow> pr_mode r
          | None \<Rightarrow> prs_default rs))"

definition validate_glob :: "('g, 's) globs \<Rightarrow> (string \<Rightarrow> string) \<Rightarrow> string \<Rightarrow> path_rules_error + unit" where
  "validate_glob gl nfc g =
    (if g = [] then Inl EmptyGlob
     else if hd g = CHR ''/'' \<or> hd g = CHR 0x5C then Inl (AbsoluteGlob g)
     else if ''..'' \<in> set (split_on (CHR ''/'') g) then Inl (ParentTraversalGlob g)
     else case gl_new gl (nfc g) of Inl e \<Rightarrow> Inl (InvalidGlob g e) | Inr _ \<Rightarrow> Inr ())"

fun validate_all :: "('g, 's) globs \<Rightarrow> (string \<Rightarrow> string) \<Rightarrow> path_rule list \<Rightarrow> path_rules_error + unit" where
  "validate_all gl nfc [] = Inr ()"
| "validate_all gl nfc (r # rs) =
    (case validate_glob gl nfc (pr_glob r) of Inl e \<Rightarrow> Inl e | Inr _ \<Rightarrow> validate_all gl nfc rs)"

definition validate :: "('g, 's) globs \<Rightarrow> (string \<Rightarrow> string) \<Rightarrow> path_rules \<Rightarrow> path_rules_error + unit" where
  "validate gl nfc rs = validate_all gl nfc (prs_rules rs)"

text \<open>The loop of \<open>compile\<close> over the globs, shared by the rules and the exclude list.\<close>

fun compile_globs :: "('g, 's) globs \<Rightarrow> (string \<Rightarrow> string) \<Rightarrow> string list \<Rightarrow> path_rules_error + 'g list" where
  "compile_globs gl nfc [] = Inr []"
| "compile_globs gl nfc (g # gs) =
    (case validate_glob gl nfc g of
       Inl e \<Rightarrow> Inl e
     | Inr _ \<Rightarrow>
         (case gl_new gl (nfc g) of
            Inl e \<Rightarrow> Inl (InvalidGlob g e)
          | Inr x \<Rightarrow> map_sum id (\<lambda>xs. x # xs) (compile_globs gl nfc gs)))"

record 's compiled_path_rules =
  cpr_default :: mode
  cpr_set :: 's
  cpr_modes :: "mode list"

definition compile_rules ::
  "('g, 's) globs \<Rightarrow> (string \<Rightarrow> string) \<Rightarrow> path_rules \<Rightarrow> path_rules_error + 's compiled_path_rules" where
  "compile_rules gl nfc rs =
    (case compile_globs gl nfc (map pr_glob (prs_rules rs)) of
       Inl e \<Rightarrow> Inl e
     | Inr gs \<Rightarrow>
         (case gl_build gl gs of
            Inl e \<Rightarrow> Inl (InvalidGlob [] e)
          | Inr s \<Rightarrow> Inr \<lparr> cpr_default = prs_default rs, cpr_set = s, cpr_modes = map pr_mode (prs_rules rs) \<rparr>))"

text \<open>The fast path: one call of the set, then the lowest number.\<close>

definition compiled_mode_for :: "('g, 's) globs \<Rightarrow> (string \<Rightarrow> string) \<Rightarrow> 's compiled_path_rules \<Rightarrow> path \<Rightarrow> mode" where
  "compiled_mode_for gl nfc c rel =
    (case path_to_match_string nfc rel of
       None \<Rightarrow> cpr_default c
     | Some hay \<Rightarrow> (case gl_matches gl (cpr_set c) hay of [] \<Rightarrow> cpr_default c | i # _ \<Rightarrow> cpr_modes c ! i))"

subsection \<open>The filter\<close>

datatype 's exclude_rules = Dotfiles | Globs 's

definition compile_exclude ::
  "('g, 's) globs \<Rightarrow> (string \<Rightarrow> string) \<Rightarrow> string list option \<Rightarrow> path_rules_error + 's exclude_rules" where
  "compile_exclude gl nfc exclude =
    (case exclude of
       None \<Rightarrow> Inr Dotfiles
     | Some gs \<Rightarrow>
         (case compile_globs gl nfc gs of
            Inl e \<Rightarrow> Inl e
          | Inr xs \<Rightarrow> (case gl_build gl xs of Inl e \<Rightarrow> Inl (InvalidGlob [] e) | Inr s \<Rightarrow> Inr (Globs s))))"

fun hidden :: "path_component \<Rightarrow> bool" where
  "hidden (Normal part) \<longleftrightarrow> part \<noteq> [] \<and> hd part = CHR ''.''"
| "hidden _ \<longleftrightarrow> False"

fun exclude_matches :: "('g, 's) globs \<Rightarrow> (string \<Rightarrow> string) \<Rightarrow> 's exclude_rules \<Rightarrow> path \<Rightarrow> bool" where
  "exclude_matches gl nfc Dotfiles rel = list_ex hidden rel"
| "exclude_matches gl nfc (Globs s) rel =
    (case path_to_match_string nfc rel of None \<Rightarrow> False | Some hay \<Rightarrow> gl_set_is_match gl s hay)"

datatype skip_reason = Hardcoded | Excluded | Symlink | TooLarge u64

datatype filter_decision = Include | Skip skip_reason

record 's workspace_filter =
  wf_root :: path
  wf_exclude :: "'s exclude_rules"
  wf_max_file_size :: "u64 option"

text \<open>What the file system answers: is a path a symbolic link (not following it), and whether it is a
  regular file and how long (following links).\<close>

record fs_view =
  fv_symlink :: "path \<Rightarrow> bool"
  fv_metadata :: "path \<Rightarrow> (bool \<times> u64) option"

definition hardcoded_name :: "string \<Rightarrow> bool" where
  "hardcoded_name s \<longleftrightarrow> s \<in> {''.git'', ''target'', ''node_modules'', ''.DS_Store'', ''.artel-fs''}
    \<or> suffix ''.swp'' s \<or> suffix ''.tmp'' s"

text \<open>\<open>Component::as_os_str\<close>; a name that is not UTF-8 is passed over.\<close>

fun component_str :: "path_component \<Rightarrow> string" where
  "component_str RootDir = ''/''"
| "component_str CurDir = ''.''"
| "component_str ParentDir = ''..''"
| "component_str (Normal s) = s"

definition is_hardcoded_skip :: "path \<Rightarrow> bool" where
  "is_hardcoded_skip rel = list_ex (\<lambda>c. utf8_ok (component_str c) \<and> hardcoded_name (component_str c)) rel"

fun symlink_walk :: "fs_view \<Rightarrow> path \<Rightarrow> path \<Rightarrow> bool" where
  "symlink_walk fv current [] = False"
| "symlink_walk fv current (Normal part # cs) =
    (if fv_symlink fv (current @ [Normal part]) then True else symlink_walk fv (current @ [Normal part]) cs)"
| "symlink_walk fv current (_ # cs) = symlink_walk fv current cs"

definition has_symlink_in_path :: "fs_view \<Rightarrow> 's workspace_filter \<Rightarrow> path \<Rightarrow> bool" where
  "has_symlink_in_path fv flt rel = symlink_walk fv (wf_root flt) rel"

definition strip_or_self :: "path \<Rightarrow> path \<Rightarrow> path" where
  "strip_or_self root p = (case strip_prefix root p of None \<Rightarrow> p | Some rel \<Rightarrow> rel)"

definition check :: "('g, 's) globs \<Rightarrow> (string \<Rightarrow> string) \<Rightarrow> fs_view \<Rightarrow> 's workspace_filter \<Rightarrow> path \<Rightarrow> filter_decision" where
  "check gl nfc fv flt abs_path =
    (let rel = strip_or_self (wf_root flt) abs_path in
     if is_hardcoded_skip rel then Skip Hardcoded
     else if has_symlink_in_path fv flt rel then Skip Symlink
     else if exclude_matches gl nfc (wf_exclude flt) rel then Skip Excluded
     else case wf_max_file_size flt of
         None \<Rightarrow> Include
       | Some cap \<Rightarrow>
           (case fv_metadata fv abs_path of
              Some (True, len) \<Rightarrow> if len > cap then Skip (TooLarge len) else Include
            | _ \<Rightarrow> Include))"

subsection \<open>The two ways to find a mode agree\<close>

lemma compile_globs_Inr:
  "compile_globs gl nfc gs = Inr xs \<Longrightarrow> length xs = length gs \<and> (\<forall>i<length gs. gl_new gl (nfc (gs ! i)) = Inr (xs ! i))"
proof (induction gs arbitrary: xs)
  case (Cons g gs)
  then obtain x ys where "gl_new gl (nfc g) = Inr x" "compile_globs gl nfc gs = Inr ys" "xs = x # ys"
    by (cases "validate_glob gl nfc g"; cases "gl_new gl (nfc g)"; cases "compile_globs gl nfc gs") simp_all
  with Cons.IH [of ys] show ?case by (auto simp: nth_Cons split: nat.splits)
qed simp

lemma find_first_index:
  "find P xs = (case filter (\<lambda>i. P (xs ! i)) [0..<length xs] of [] \<Rightarrow> None | i # _ \<Rightarrow> Some (xs ! i))"
proof (induction xs)
  case (Cons x xs)
  have "filter (\<lambda>i. P ((x # xs) ! i)) [0..<length (x # xs)] =
      (if P x then [0] else []) @ map Suc (filter (\<lambda>i. P (xs ! i)) [0..<length xs])"
    by (simp add: upt_conv_Cons filter_map comp_def del: upt_Suc flip: map_Suc_upt)
  then show ?case using Cons by (simp split: list.splits)
qed simp

lemma compiled_mode_agrees:
  assumes "globs_ok gl" "compile_rules gl nfc rs = Inr c"
  shows "compiled_mode_for gl nfc c rel = mode_for gl nfc rs rel"
proof (cases "path_to_match_string nfc rel")
  case None
  then show ?thesis using assms(2) by (auto simp: compiled_mode_for_def mode_for_def compile_rules_def split: sum.splits)
next
  case (Some hay)
  let ?rs = "prs_rules rs"
  obtain gs where gs: "compile_globs gl nfc (map pr_glob ?rs) = Inr gs" "gl_build gl gs = Inr (cpr_set c)"
      "cpr_modes c = map pr_mode ?rs" "cpr_default c = prs_default rs"
    using assms(2) by (auto simp: compile_rules_def split: sum.splits)
  note len = compile_globs_Inr [OF gs(1)]
  have "filter (\<lambda>i. gl_is_match gl (gs ! i) hay) [0..<length gs] =
      filter (\<lambda>i. glob_matches_one gl nfc (pr_glob (?rs ! i)) hay) [0..<length ?rs]"
    using len by (intro filter_cong) (auto simp: glob_matches_one_def)
  moreover have "gl_matches gl (cpr_set c) hay = filter (\<lambda>i. gl_is_match gl (gs ! i) hay) [0..<length gs]"
    using assms(1) gs(2) by (simp add: globs_ok_def)
  ultimately have m: "gl_matches gl (cpr_set c) hay = filter (\<lambda>i. glob_matches_one gl nfc (pr_glob (?rs ! i)) hay) [0..<length ?rs]"
    by simp
  show ?thesis
  proof (cases "gl_matches gl (cpr_set c) hay")
    case Nil
    then show ?thesis using Some gs(4) m find_first_index [of "\<lambda>r. glob_matches_one gl nfc (pr_glob r) hay" ?rs]
      by (simp add: compiled_mode_for_def mode_for_def)
  next
    case (Cons i js)
    then have "i \<in> set (gl_matches gl (cpr_set c) hay)" by simp
    then have "i < length ?rs" unfolding m by simp
    with Cons show ?thesis using Some gs(3) m find_first_index [of "\<lambda>r. glob_matches_one gl nfc (pr_glob r) hay" ?rs]
      by (simp add: compiled_mode_for_def mode_for_def)
  qed
qed

lemma match_parts_key_parts: "match_parts nfc rel = (case key_parts nfc rel of Inl _ \<Rightarrow> None | Inr ps \<Rightarrow> Some ps)"
proof (induction nfc rel rule: match_parts.induct)
  case (2 nfc part cs)
  then show ?case by (cases "key_parts nfc cs") simp_all
qed simp_all

subsection \<open>Properties\<close>

text \<open>The compiled rules are the rules.  Whenever a rule set compiles, the one-call lookup of the
  compiled set gives every path the mode that trying the rules in order gives it, so the first match
  wins and paths that escape the workspace fall through to the default; and what the globs are matched
  against is exactly what the path is published under.\<close>

theorem compiled_rules_first_match:
  assumes "globs_ok gl" "compile_rules gl nfc rs = Inr c"
  shows "compiled_mode_for gl nfc c rel = mode_for gl nfc rs rel
    \<and> (path_to_key nfc root (root @ rel) = Inr key \<longleftrightarrow>
        (\<exists>hay. path_to_match_string nfc rel = Some hay \<and> key = KEY_PREFIX @ hay))"
  by (auto simp: compiled_mode_agrees [OF assms] path_to_match_string_def path_to_key_def strip_prefix_def match_parts_key_parts
      split: sum.splits)

text \<open>A sample glob library: a pattern matches the text equal to it, and \<open>*\<close> matches everything.\<close>

definition sample_globs :: "(string, string list) globs" where
  "sample_globs = \<lparr> gl_new = (\<lambda>g. if g = ''['' then Inl ''unclosed'' else Inr g), gl_is_match = (\<lambda>g hay. g = hay \<or> g = ''*''),
    gl_build = Inr, gl_matches = (\<lambda>gs hay. filter (\<lambda>i. gs ! i = hay \<or> gs ! i = ''*'') [0..<length gs]),
    gl_set_is_match = (\<lambda>gs hay. filter (\<lambda>i. gs ! i = hay \<or> gs ! i = ''*'') [0..<length gs] \<noteq> []) \<rparr>"

lemma sample_globs_ok: "globs_ok sample_globs"
  by (simp add: globs_ok_def sample_globs_def)

theorem compiled_rules_first_match_witness:
  "\<exists>c. compile_rules sample_globs (\<lambda>s. s) \<lparr> prs_default = MReadWrite, prs_rules = [\<lparr> pr_glob = ''a'', pr_mode = MReadWrite \<rparr>,
      \<lparr> pr_glob = ''*'', pr_mode = MReadOnly \<rparr>] \<rparr> = Inr c
    \<and> compiled_mode_for sample_globs (\<lambda>s. s) c [Normal ''a''] = MReadWrite
    \<and> compiled_mode_for sample_globs (\<lambda>s. s) c [Normal ''b''] = MReadOnly"
proof -
  let ?rs = "\<lparr> prs_default = MReadWrite, prs_rules = [\<lparr> pr_glob = ''a'', pr_mode = MReadWrite \<rparr>,
      \<lparr> pr_glob = ''*'', pr_mode = MReadOnly \<rparr>] \<rparr>"
  obtain c where c: "compile_rules sample_globs (\<lambda>s. s) ?rs = Inr c"
    by (simp add: compile_rules_def validate_glob_def sample_globs_def)
  have "mode_for sample_globs (\<lambda>s. s) ?rs [Normal ''a''] = MReadWrite" "mode_for sample_globs (\<lambda>s. s) ?rs [Normal ''b''] = MReadOnly"
    by (simp_all add: mode_for_def path_to_match_string_def glob_matches_one_def sample_globs_def)
  with c compiled_rules_first_match [OF sample_globs_ok c, of "[Normal ''a'']"] compiled_rules_first_match [OF sample_globs_ok c, of "[Normal ''b'']"]
  show ?thesis by auto
qed

end
