(* ===== verification/Echo_Guard.thy ===== *)
theory Echo_Guard
  imports Paths "HOL-Library.AList"
begin

text \<open>
  The echo guard of \<open>artel-fs/src/echo_guard.rs\<close>, which the applier and the watcher of a workspace share:
  writes of peers that are landing, the content hash last published or applied per path, and the paths
  that peers deleted.  The hash is blake3, a parameter; here it is a type variable.
\<close>

record 'h echo_guard =
  eg_pending :: "path set"
  eg_last_published :: "(path \<times> 'h) list"
  eg_peer_deleted :: "path set"

datatype remote_delete_mark = Fresh | Duplicate

definition echo_guard_new :: "'h echo_guard" where
  "echo_guard_new = \<lparr> eg_pending = {}, eg_last_published = [], eg_peer_deleted = {} \<rparr>"

definition mark_remote_write :: "path \<Rightarrow> 'h \<Rightarrow> 'h echo_guard \<Rightarrow> 'h echo_guard" where
  "mark_remote_write p h g = g\<lparr> eg_pending := insert p (eg_pending g), eg_peer_deleted := eg_peer_deleted g - {p},
    eg_last_published := AList.update p h (eg_last_published g) \<rparr>"

definition unmark_remote_write :: "path \<Rightarrow> 'h echo_guard \<Rightarrow> 'h echo_guard" where
  "unmark_remote_write p g = g\<lparr> eg_pending := eg_pending g - {p}, eg_last_published := AList.delete p (eg_last_published g) \<rparr>"

definition mark_remote_delete :: "path \<Rightarrow> 'h echo_guard \<Rightarrow> remote_delete_mark \<times> 'h echo_guard" where
  "mark_remote_delete p g =
    (if p \<in> eg_peer_deleted g then Duplicate else Fresh,
     g\<lparr> eg_last_published := AList.delete p (eg_last_published g), eg_peer_deleted := insert p (eg_peer_deleted g) \<rparr>)"

definition should_skip_removal :: "path \<Rightarrow> 'h echo_guard \<Rightarrow> bool" where
  "should_skip_removal p g \<longleftrightarrow> p \<in> eg_peer_deleted g"

text \<open>The timer that \<open>release_after\<close> starts fires.\<close>

definition release :: "path \<Rightarrow> 'h echo_guard \<Rightarrow> 'h echo_guard" where
  "release p g = g\<lparr> eg_pending := eg_pending g - {p} \<rparr>"

definition should_skip_local :: "path \<Rightarrow> 'h \<Rightarrow> 'h echo_guard \<Rightarrow> bool" where
  "should_skip_local p h g \<longleftrightarrow> p \<in> eg_pending g \<or> map_of (eg_last_published g) p = Some h"

definition record_local_publish :: "path \<Rightarrow> 'h \<Rightarrow> 'h echo_guard \<Rightarrow> 'h echo_guard" where
  "record_local_publish p h g = g\<lparr> eg_peer_deleted := eg_peer_deleted g - {p},
    eg_last_published := AList.update p h (eg_last_published g) \<rparr>"

definition forget_path :: "path \<Rightarrow> 'h echo_guard \<Rightarrow> 'h echo_guard" where
  "forget_path p g = g\<lparr> eg_last_published := AList.delete p (eg_last_published g) \<rparr>"

definition forget_all_published :: "'h echo_guard \<Rightarrow> 'h echo_guard" where
  "forget_all_published g = g\<lparr> eg_last_published := [] \<rparr>"

lemmas guard_defs = mark_remote_write_def unmark_remote_write_def mark_remote_delete_def should_skip_removal_def release_def
  should_skip_local_def record_local_publish_def forget_path_def forget_all_published_def

subsection \<open>What the guard remembers of a path\<close>

definition guards_content :: "path \<Rightarrow> 'h \<Rightarrow> 'h echo_guard \<Rightarrow> bool" where
  "guards_content p h g \<longleftrightarrow> map_of (eg_last_published g) p = Some h"

definition guards_absence :: "path \<Rightarrow> 'h echo_guard \<Rightarrow> bool" where
  "guards_absence p g \<longleftrightarrow> p \<in> eg_peer_deleted g"

lemma guards_skip:
  "guards_content p h g \<Longrightarrow> should_skip_local p h g" "guards_absence p g \<Longrightarrow> should_skip_removal p g"
  by (simp_all add: guards_content_def guards_absence_def guard_defs)

lemma guards_content_intro [simp]:
  "guards_content p h (mark_remote_write p h g)" "guards_content p h (record_local_publish p h g)"
  by (simp_all add: guards_content_def guard_defs update_conv')

lemma guards_absence_intro [simp]: "guards_absence p (snd (mark_remote_delete p g))"
  by (simp add: guards_absence_def guard_defs)

lemma guards_content_keep:
  assumes "guards_content p h g"
  shows "guards_content p h (release q g)" "q \<noteq> p \<Longrightarrow> guards_content p h (mark_remote_write q k g)"
    "q \<noteq> p \<Longrightarrow> guards_content p h (unmark_remote_write q g)" "q \<noteq> p \<Longrightarrow> guards_content p h (snd (mark_remote_delete q g))"
    "q \<noteq> p \<Longrightarrow> guards_content p h (record_local_publish q k g)" "q \<noteq> p \<Longrightarrow> guards_content p h (forget_path q g)"
  using assms by (simp_all add: guards_content_def guard_defs update_conv' delete_conv')

lemma guards_absence_keep:
  assumes "guards_absence p g"
  shows "guards_absence p (release q g)" "q \<noteq> p \<Longrightarrow> guards_absence p (mark_remote_write q k g)"
    "guards_absence p (unmark_remote_write q g)" "guards_absence p (snd (mark_remote_delete q g))"
    "q \<noteq> p \<Longrightarrow> guards_absence p (record_local_publish q k g)" "guards_absence p (forget_path q g)"
  using assms by (simp_all add: guards_absence_def guard_defs)

end
