(* ===== verification/Transfers.thy ===== *)
theory Transfers
  imports Paths Message "HOL-Library.AList"
begin

text \<open>
  The events a workspace surfaces, \<open>WorkspaceEvent\<close> of \<open>artel-fs/src/workspace.rs\<close>, and the tracking of
  downloads of \<open>artel-fs/src/progress.rs\<close>: which paths wait for which blob, and the throttled progress
  events of the task that observes one.  A stream of observations is a list of byte counts with the
  time and whether the blob is complete; times are milliseconds.
\<close>

subsection \<open>Events\<close>

datatype direction = Incoming | Outgoing

datatype workspace_event =
    PeerWrote path
  | PeerDeleted path
  | SkippedTooLarge path u64
  | SkippedReadOnly path direction
  | SkippedExcluded path direction
  | Transferring (tr_path: path) (tr_received: u64) (tr_total: u64)
  | Demoted
  | PeerRevoked peer_id
  | RevokedPeerBlocked peer_id direction
  | EvError string

subsection \<open>The throttle\<close>

record progress_throttle =
  pt_total :: u64
  pt_last :: "(u64 \<times> nat) option"

definition MIN_DELTA_PERCENT :: u64 where
  "MIN_DELTA_PERCENT = 1"

definition MIN_INTERVAL :: nat where
  "MIN_INTERVAL = 500"

definition MAX_CONCURRENT_TRACKERS :: nat where
  "MAX_CONCURRENT_TRACKERS = 256"

definition throttle_new :: "u64 \<Rightarrow> progress_throttle" where
  "throttle_new len = \<lparr> pt_total = len, pt_last = None \<rparr>"

definition should_emit :: "u64 \<Rightarrow> nat \<Rightarrow> progress_throttle \<Rightarrow> bool \<times> progress_throttle" where
  "should_emit received now t =
    (case pt_last t of
       None \<Rightarrow> (True, t\<lparr> pt_last := Some (received, now) \<rparr>)
     | Some (last_received, last_at) \<Rightarrow>
         if received = last_received then (False, t)
         else let step = max (pt_total t div 100 * MIN_DELTA_PERCENT) 1 in
           if saturating_sub received last_received \<ge> step \<or> now - last_at \<ge> MIN_INTERVAL
           then (True, t\<lparr> pt_last := Some (received, now) \<rparr>) else (False, t))"

subsection \<open>The registry of trackers\<close>

text \<open>The paths that wait for a blob, each with the length its entry declares, and the highest byte
  count observed so far.\<close>

record tracker =
  tk_paths :: "(path \<times> u64) list"
  tk_latest :: u64

type_synonym 'h trackers = "('h \<times> tracker) list"

definition tracker_drop :: "path \<Rightarrow> tracker \<Rightarrow> tracker" where
  "tracker_drop p t = t\<lparr> tk_paths := AList.delete p (tk_paths t) \<rparr>"

definition supersede :: "path \<Rightarrow> 'h option \<Rightarrow> 'h trackers \<Rightarrow> 'h trackers" where
  "supersede p keep ts =
    concat (map (\<lambda>(h, t).
      if Some h = keep then [(h, t)]
      else let t' = tracker_drop p t in if tk_paths t' = [] then [] else [(h, t')]) ts)"

definition track :: "'h \<Rightarrow> u64 \<Rightarrow> path \<Rightarrow> 'h trackers \<Rightarrow> workspace_event list \<times> 'h trackers" where
  "track h len p ts0 =
    (let ts = supersede p (Some h) ts0 in
     case map_of ts h of
       Some t \<Rightarrow>
         (if map_of (tk_paths t) p = None then [Transferring p (min (tk_latest t) len) len] else [],
          AList.update h (t\<lparr> tk_paths := AList.update p len (tk_paths t) \<rparr>) ts)
     | None \<Rightarrow>
         if length ts \<ge> MAX_CONCURRENT_TRACKERS then ([], ts)
         else ([], (h, \<lparr> tk_paths = [(p, len)], tk_latest = 0 \<rparr>) # ts))"

definition tracked_paths :: "'h \<Rightarrow> 'h trackers \<Rightarrow> path list" where
  "tracked_paths h ts = (case map_of ts h of None \<Rightarrow> [] | Some t \<Rightarrow> map fst (tk_paths t))"

definition finish :: "'h \<Rightarrow> 'h trackers \<Rightarrow> 'h trackers" where
  "finish h ts = AList.delete h ts"

subsection \<open>The task that observes a blob\<close>

definition observe_step :: "u64 \<Rightarrow> nat \<Rightarrow> tracker \<times> progress_throttle \<Rightarrow> workspace_event list \<times> tracker \<times> progress_throttle" where
  "observe_step raw now s =
    (let (t, th) = s; received = max (tk_latest t) raw; t' = t\<lparr> tk_latest := received \<rparr>; (go, th') = should_emit received now th
     in (if go then map (\<lambda>(p, len). Transferring p (min received len) len) (tk_paths t') else [], t', th'))"

fun track_task :: "(u64 \<times> nat \<times> bool) list \<Rightarrow> tracker \<times> progress_throttle \<Rightarrow> workspace_event list \<times> tracker \<times> progress_throttle" where
  "track_task [] s = ([], s)"
| "track_task ((raw, now, complete) # obs) s =
    (let (evs, s') = observe_step raw now s in
     if complete then (evs, s')
     else let (evs', s'') = track_task obs s' in (evs @ evs', s''))"

subsection \<open>Every path waits for one blob\<close>

definition tk_keys :: "tracker \<Rightarrow> path set" where
  "tk_keys t = fst ` set (tk_paths t)"

lemma tk_keys_simps [simp]:
  "tk_keys (t\<lparr> tk_latest := x \<rparr>) = tk_keys t" "tk_keys (t\<lparr> tk_paths := AList.update p len (tk_paths t) \<rparr>) = insert p (tk_keys t)"
  "tk_keys \<lparr> tk_paths = [(p, len)], tk_latest = x \<rparr> = {p}"
  by (simp_all add: tk_keys_def dom_update)

definition waits :: "'h trackers \<Rightarrow> path \<Rightarrow> 'h \<Rightarrow> bool" where
  "waits ts p h \<longleftrightarrow> (\<exists>t. (h, t) \<in> set ts \<and> p \<in> tk_keys t)"

definition trackers_ok :: "'h trackers \<Rightarrow> bool" where
  "trackers_ok ts \<longleftrightarrow> distinct (map fst ts) \<and> length ts \<le> MAX_CONCURRENT_TRACKERS
    \<and> (\<forall>h t. (h, t) \<in> set ts \<longrightarrow> tk_paths t \<noteq> [] \<and> distinct (map fst (tk_paths t)))
    \<and> (\<forall>p h k. waits ts p h \<and> waits ts p k \<longrightarrow> h = k)"

lemma supersede_Cons:
  "supersede p keep ((h, t) # ts) =
    (if Some h = keep then [(h, t)] else if tk_paths (tracker_drop p t) = [] then [] else [(h, tracker_drop p t)])
    @ supersede p keep ts"
  by (simp add: supersede_def Let_def)

lemma supersede_mem:
  "(h, t) \<in> set (supersede p keep ts) \<longleftrightarrow>
    (\<exists>t0. (h, t0) \<in> set ts \<and> (if Some h = keep then t = t0 else t = tracker_drop p t0 \<and> tk_paths t \<noteq> []))"
proof (induction ts)
  case (Cons x ts)
  then show ?case by (cases x) (auto simp: supersede_Cons)
qed (simp add: supersede_def)

lemma supersede_keys:
  "fst ` set (supersede p keep ts) \<subseteq> fst ` set ts" "length (supersede p keep ts) \<le> length ts"
  "distinct (map fst ts) \<Longrightarrow> distinct (map fst (supersede p keep ts))"
proof -
  show sub: "fst ` set (supersede p keep ts) \<subseteq> fst ` set ts" for ts by (force simp: supersede_mem)
  show "length (supersede p keep ts) \<le> length ts"
  proof (induction ts)
    case (Cons x ts)
    then show ?case by (cases x) (simp add: supersede_Cons)
  qed (simp add: supersede_def)
  show "distinct (map fst ts) \<Longrightarrow> distinct (map fst (supersede p keep ts))"
  proof (induction ts)
    case (Cons x ts)
    then show ?case using sub [of ts] by (cases x) (auto simp: supersede_Cons)
  qed (simp add: supersede_def)
qed

lemma tracker_drop_keys: "tk_keys (tracker_drop p t) = tk_keys t - {p}"
proof -
  have "set (map fst (AList.delete p (tk_paths t))) = set (map fst (tk_paths t)) - {p}" unfolding delete_keys by simp
  then show ?thesis by (simp add: tracker_drop_def tk_keys_def)
qed

lemma waits_supersede: "waits (supersede p keep ts) q h \<longleftrightarrow> waits ts q h \<and> (q = p \<longrightarrow> Some h = keep)"
proof (cases "Some h = keep")
  case True
  then show ?thesis by (simp add: waits_def supersede_mem)
next
  case False
  have "waits (supersede p keep ts) q h \<longleftrightarrow>
      (\<exists>t. (h, t) \<in> set ts \<and> tk_paths (tracker_drop p t) \<noteq> [] \<and> q \<in> tk_keys (tracker_drop p t))"
    using False by (auto simp: waits_def supersede_mem)
  also have "\<dots> \<longleftrightarrow> (\<exists>t. (h, t) \<in> set ts \<and> q \<in> tk_keys t - {p})"
    unfolding tracker_drop_keys [symmetric] by (auto simp: tk_keys_def)
  finally show ?thesis using False by (auto simp: waits_def)
qed

lemma supersede_ok:
  assumes "trackers_ok ts"
  shows "trackers_ok (supersede p keep ts)"
proof -
  have "tk_paths t \<noteq> [] \<and> distinct (map fst (tk_paths t))" if "(h, t) \<in> set (supersede p keep ts)" for h t
    using that assms by (auto simp: supersede_mem trackers_ok_def tracker_drop_def distinct_delete split: if_splits)
  then show ?thesis using assms supersede_keys [where p = p and keep = keep and ts = ts]
    by (auto simp: trackers_ok_def waits_supersede)
qed

lemma finish_ok:
  assumes "trackers_ok ts"
  shows "trackers_ok (finish h ts)"
proof -
  have sub: "set (finish h ts) \<subseteq> set ts" by (induction ts) (auto simp: finish_def)
  then have w: "waits (finish h ts) p k \<Longrightarrow> waits ts p k" for p k by (auto simp: waits_def)
  show ?thesis unfolding trackers_ok_def
  proof (intro conjI allI impI)
    show "distinct (map fst (finish h ts))" using assms by (simp add: trackers_ok_def finish_def distinct_delete)
    show "length (finish h ts) \<le> MAX_CONCURRENT_TRACKERS"
      using length_delete_le [of h ts] assms by (simp add: trackers_ok_def finish_def)
    fix k t assume "(k, t) \<in> set (finish h ts)"
    then have "(k, t) \<in> set ts" using sub by blast
    then show "tk_paths t \<noteq> []" "distinct (map fst (tk_paths t))" using assms by (simp_all add: trackers_ok_def)
  next
    fix p k l assume "waits (finish h ts) p k \<and> waits (finish h ts) p l"
    then show "k = l" using w assms unfolding trackers_ok_def by blast
  qed
qed

lemma trackers_okI:
  assumes "distinct (map fst ts)" "length ts \<le> MAX_CONCURRENT_TRACKERS"
    and "\<And>h t. (h, t) \<in> set ts \<Longrightarrow> tk_paths t \<noteq> [] \<and> distinct (map fst (tk_paths t))"
    and "\<And>p h k. \<lbrakk>waits ts p h; waits ts p k\<rbrakk> \<Longrightarrow> h = k"
  shows "trackers_ok ts"
  using assms unfolding trackers_ok_def by blast

lemma trackers_okD:
  assumes "trackers_ok ts"
  shows "distinct (map fst ts)" "length ts \<le> MAX_CONCURRENT_TRACKERS"
    "(h, t) \<in> set ts \<Longrightarrow> tk_paths t \<noteq> [] \<and> distinct (map fst (tk_paths t))"
    "waits ts p h \<Longrightarrow> waits ts p k \<Longrightarrow> h = k"
  using assms unfolding trackers_ok_def by blast+

lemma new_tracker_ok:
  fixes len
  assumes "trackers_ok s" "map_of s h = None" "length s < MAX_CONCURRENT_TRACKERS" "\<And>k. waits s p k \<Longrightarrow> k = h"
  defines "n \<equiv> (h, \<lparr> tk_paths = [(p, len)], tk_latest = 0 \<rparr>) # s"
  shows "trackers_ok n" "waits n q k \<longleftrightarrow> (q = p \<and> k = h) \<or> waits s q k"
proof -
  show w: "waits n q k \<longleftrightarrow> (q = p \<and> k = h) \<or> waits s q k" for q k by (auto simp: waits_def n_def)
  have "h \<notin> fst ` set s" using assms(2) by (simp add: map_of_eq_None_iff)
  then show "trackers_ok n"
    by (intro trackers_okI) (use trackers_okD [OF assms(1)] assms(3,4) w in \<open>auto simp: n_def\<close>)
qed

lemma joined_tracker_ok:
  fixes len
  assumes "trackers_ok s" "map_of s h = Some t" "\<And>k. waits s p k \<Longrightarrow> k = h"
  defines "n \<equiv> AList.update h (t\<lparr> tk_paths := AList.update p len (tk_paths t) \<rparr>) s"
  shows "trackers_ok n" "waits n q k \<longleftrightarrow> (q = p \<and> k = h) \<or> waits s q k"
proof -
  let ?t = "t\<lparr> tk_paths := AList.update p len (tk_paths t) \<rparr>"
  have in_s: "(h, t) \<in> set s" by (rule map_of_SomeD [OF assms(2)])
  then have "h \<in> set (map fst s)" by (force simp: in_set_conv_decomp)
  then have keys: "map fst n = map fst s" by (simp add: update_keys n_def)
  have dist: "distinct (map fst s)" "distinct (map fst n)" using trackers_okD(1) [OF assms(1)] keys by simp_all
  have mem: "(k, u) \<in> set n \<longleftrightarrow> (if k = h then u = ?t else (k, u) \<in> set s)" for k u
    unfolding map_of_eq_Some_iff [OF dist(2), symmetric] map_of_eq_Some_iff [OF dist(1), symmetric]
    by (auto simp: n_def update_conv')
  have tk: "tk_keys ?t = insert p (tk_keys t)" by simp
  have only: "(h, u) \<in> set s \<Longrightarrow> u = t" for u using assms(2) by (simp flip: map_of_eq_Some_iff [OF dist(1)])
  show w: "waits n q k \<longleftrightarrow> (q = p \<and> k = h) \<or> waits s q k" for q k
  proof (cases "k = h")
    case True
    have "waits n q h \<longleftrightarrow> q \<in> tk_keys ?t" by (simp add: waits_def mem)
    moreover have "waits s q h \<longleftrightarrow> q \<in> tk_keys t"
    proof
      assume "waits s q h"
      then obtain u where "(h, u) \<in> set s" "q \<in> tk_keys u" unfolding waits_def by blast
      with only [OF this(1)] show "q \<in> tk_keys t" by simp
    next
      assume "q \<in> tk_keys t"
      with in_s show "waits s q h" unfolding waits_def by (intro exI conjI)
    qed
    ultimately show ?thesis unfolding True tk by blast
  next
    case False
    then show ?thesis by (simp add: waits_def mem)
  qed
  show "trackers_ok n"
  proof (rule trackers_okI)
    show "length n \<le> MAX_CONCURRENT_TRACKERS"
      using arg_cong [OF keys, of length] trackers_okD(2) [OF assms(1)] by simp
    fix k u assume "(k, u) \<in> set n"
    then show "tk_paths u \<noteq> [] \<and> distinct (map fst (tk_paths u))"
      using trackers_okD(3) [OF assms(1)] in_s unfolding mem by (auto simp: distinct_update split: if_splits)
  next
    fix q k l assume "waits n q k" "waits n q l"
    then show "k = l" using trackers_okD(4) [OF assms(1)] assms(3) unfolding w by blast
  qed (rule dist(2))
qed

lemma track_ok:
  assumes "trackers_ok ts"
  shows "trackers_ok (snd (track h len p ts)) \<and> (\<forall>k. waits (snd (track h len p ts)) p k \<longrightarrow> k = h)"
proof -
  let ?s = "supersede p (Some h) ts"
  have ok: "trackers_ok ?s" by (rule supersede_ok [OF assms])
  have only: "waits ?s p k \<Longrightarrow> k = h" for k by (simp add: waits_supersede)
  show ?thesis
  proof (cases "map_of ?s h")
    case None
    show ?thesis
    proof (cases "MAX_CONCURRENT_TRACKERS \<le> length ?s")
      case False
      then show ?thesis using None new_tracker_ok [OF ok None _ only] by (simp add: track_def Let_def only)
    qed (use None ok only in \<open>simp add: track_def Let_def\<close>)
  next
    case (Some t)
    then show ?thesis using joined_tracker_ok [OF ok Some only] only by (simp add: track_def Let_def)
  qed
qed

subsection \<open>Runs of the registry and of the tasks\<close>

datatype 'h tracker_op =
    OpSupersede path "'h option"
  | OpTrack 'h u64 path
  | OpFinish 'h
  | OpObserve 'h u64

definition set_latest :: "'h \<Rightarrow> u64 \<Rightarrow> 'h trackers \<Rightarrow> 'h trackers" where
  "set_latest h raw ts = map (\<lambda>(k, t). (k, if k = h then t\<lparr> tk_latest := max (tk_latest t) raw \<rparr> else t)) ts"

fun tracker_step :: "'h tracker_op \<Rightarrow> 'h trackers \<Rightarrow> 'h trackers" where
  "tracker_step (OpSupersede p keep) ts = supersede p keep ts"
| "tracker_step (OpTrack h len p) ts = snd (track h len p ts)"
| "tracker_step (OpFinish h) ts = finish h ts"
| "tracker_step (OpObserve h raw) ts = set_latest h raw ts"

lemma set_latest_mem:
  "(k, t) \<in> set (set_latest h raw ts) \<longleftrightarrow>
    (\<exists>t0. (k, t0) \<in> set ts \<and> t = (if k = h then t0\<lparr> tk_latest := max (tk_latest t0) raw \<rparr> else t0))"
proof (induction ts)
  case (Cons x ts)
  have "set_latest h raw (x # ts) = (fst x, if fst x = h then (snd x)\<lparr> tk_latest := max (tk_latest (snd x)) raw \<rparr> else snd x)
      # set_latest h raw ts" by (simp add: set_latest_def split_beta)
  with Cons show ?case by (cases x) (simp, blast)
qed (simp add: set_latest_def)

lemma set_latest_waits: "waits (set_latest h raw ts) p k = waits ts p k"
proof -
  let ?f = "\<lambda>t. if k = h then t\<lparr> tk_latest := max (tk_latest t) raw \<rparr> else t"
  have "waits (set_latest h raw ts) p k \<longleftrightarrow> (\<exists>t0. (k, t0) \<in> set ts \<and> p \<in> tk_keys (?f t0))"
    unfolding waits_def set_latest_mem by blast
  moreover have "tk_keys (?f t) = tk_keys t" for t by simp
  ultimately show ?thesis by (simp only: waits_def [of ts])
qed

lemma set_latest_ok:
  assumes "trackers_ok ts"
  shows "trackers_ok (set_latest h raw ts)"
proof (rule trackers_okI)
  have "map fst (set_latest h raw ts) = map fst ts" by (simp add: set_latest_def comp_def split_beta)
  then show "distinct (map fst (set_latest h raw ts))" using trackers_okD(1) [OF assms] by simp
  show "length (set_latest h raw ts) \<le> MAX_CONCURRENT_TRACKERS" using trackers_okD(2) [OF assms] by (simp add: set_latest_def)
  fix k t assume "(k, t) \<in> set (set_latest h raw ts)"
  then obtain t0 where "(k, t0) \<in> set ts" "tk_paths t = tk_paths t0" unfolding set_latest_mem by (auto split: if_splits)
  with trackers_okD(3) [OF assms this(1)] show "tk_paths t \<noteq> [] \<and> distinct (map fst (tk_paths t))" by simp
next
  fix p k l assume "waits (set_latest h raw ts) p k" "waits (set_latest h raw ts) p l"
  then show "k = l" using trackers_okD(4) [OF assms] unfolding set_latest_waits by blast
qed

lemma tracker_step_ok: "trackers_ok ts \<Longrightarrow> trackers_ok (tracker_step op ts)"
  by (cases op) (simp_all add: supersede_ok track_ok finish_ok set_latest_ok)

lemma tracker_run_ok: "trackers_ok (fold tracker_step ops [])"
proof -
  have run: "trackers_ok ts \<Longrightarrow> trackers_ok (fold tracker_step ops ts)" for ts :: "'a trackers"
    by (induction ops arbitrary: ts) (simp_all add: tracker_step_ok)
  have "trackers_ok ([] :: 'a trackers)" by (simp add: trackers_ok_def waits_def)
  then show ?thesis by (rule run)
qed

subsection \<open>Properties\<close>

text \<open>The registry of downloads.  After any sequence of tracking, superseding, observing and
  finishing, there are at most 256 trackers, none without a path, and every path waits for at most one
  blob; once a path is superseded, no tracker holds it any more, so no progress event for it can follow
  its terminal event; and a path that starts to wait for a blob waits for no other.\<close>

theorem trackers_one_blob_per_path:
  defines "reg \<equiv> \<lambda>ops. fold tracker_step ops []"
  shows "length (reg ops) \<le> MAX_CONCURRENT_TRACKERS \<and> (\<forall>h t. (h, t) \<in> set (reg ops) \<longrightarrow> tk_paths t \<noteq> [])
    \<and> (waits (reg ops) p h \<longrightarrow> waits (reg ops) p k \<longrightarrow> h = k)
    \<and> \<not> waits (reg (ops @ [OpSupersede p None])) p h
    \<and> (waits (reg (ops @ [OpTrack h len p])) p k \<longrightarrow> k = h)"
proof -
  have ok: "trackers_ok (reg ops)" unfolding reg_def by (rule tracker_run_ok)
  then have "waits (reg ops) p h \<longrightarrow> waits (reg ops) p k \<longrightarrow> h = k" using trackers_okD(4) [OF ok, of p h k] by simp
  moreover have "\<forall>h t. (h, t) \<in> set (reg ops) \<longrightarrow> tk_paths t \<noteq> []" using trackers_okD(3) [OF ok] by blast
  moreover have "waits (reg (ops @ [OpTrack h len p])) p k \<longrightarrow> k = h" using track_ok [OF ok] by (simp add: reg_def)
  moreover have "\<not> waits (reg (ops @ [OpSupersede p None])) p h" by (simp add: reg_def waits_supersede)
  ultimately show ?thesis using trackers_okD(2) [OF ok] by blast
qed

theorem trackers_one_blob_per_path_witness:
  "waits (fold tracker_step [OpTrack (1::nat) 10 [Normal ''a''], OpTrack 2 20 [Normal ''a'']] []) [Normal ''a''] 2
    \<and> \<not> waits (fold tracker_step [OpTrack (1::nat) 10 [Normal ''a''], OpTrack 2 20 [Normal ''a'']] []) [Normal ''a''] 1"
proof -
  let ?ops = "[OpTrack (1::nat) 10 [Normal ''a''], OpTrack 2 20 [Normal ''a'']]"
  have "waits (fold tracker_step ?ops []) [Normal ''a''] 2"
    by (simp add: track_def supersede_def tracker_drop_def Let_def waits_def tk_keys_def MAX_CONCURRENT_TRACKERS_def)
  with trackers_one_blob_per_path [of ?ops "[Normal ''a'']" 2 1] show ?thesis by auto
qed

end
