(* ===== verification/Workspace_Files.thy ===== *)
theory Workspace_Files
  imports Rules Echo_Guard Transfers
begin

text \<open>
  The two directions of a workspace: local changes into the document (\<open>artel-fs/src/watcher.rs\<close>, the scan
  and \<open>publish_file_streaming\<close> of \<open>workspace.rs\<close>) and document entries onto the disk (\<open>applier.rs\<close>,
  \<open>apply_entry_streaming\<close>, \<open>bulk_export\<close> and \<open>reconcile_doc_against_disk\<close> of \<open>workspace.rs\<close>).  The disk is
  explicit.  The document, the blob store, blake3 and \<open>walkdir\<close> are third-party: what they answer is in
  the record \<open>ws_env\<close>, and what the code writes into the document is the trace \<open>ws_writes\<close>.
\<close>

subsection \<open>State\<close>

text \<open>A symbolic link carries its own length and what it leads to.\<close>

datatype link_target = LFile string | LDir u64 | LBroken

datatype node_kind = KFile string | KDir u64 | KLink u64 link_target

record node =
  nd_dev :: u64
  nd_ino :: u64
  nd_mtime :: int
  nd_kind :: node_kind

type_synonym disk = "path \<Rightarrow> node option"

datatype 'h doc_write = DocSet string 'h | DocDel string

record 'h ws_state =
  ws_disk :: disk
  ws_guard :: "'h echo_guard"
  ws_trackers :: "'h trackers"
  ws_releases :: "path list"
  ws_write_halted :: bool
  ws_writes :: "'h doc_write list"
  ws_events :: "workspace_event list"

record ('g, 's) ws_config =
  wc_globs :: "('g, 's) globs"
  wc_nfc :: "string \<Rightarrow> string"
  wc_filter :: "'s workspace_filter"
  wc_rules :: "'s compiled_path_rules"

datatype 'h import_item = ISize u64 | IBlobs | IError string | IDone 'h

record 'h doc_entry =
  de_key :: string
  de_hash :: 'h
  de_len :: u64

text \<open>What the surroundings answer: blake3; file reads and stats that fail for another reason than a
  missing file; the progress items of an import; the outcome of a deletion in the document; the entries
  \<open>walkdir\<close> yields below a directory, each with whether it is a regular file; status and bytes of a blob; exports and renames that fail; the identity of a
  new file or directory; and what other processes do to the disk between the two looks at a path.\<close>

record 'h ws_env =
  we_hash :: "string \<Rightarrow> 'h"
  we_unreadable :: "path \<Rightarrow> bool"
  we_stat :: "path \<Rightarrow> string option"
  we_import_start :: "path \<Rightarrow> string option"
  we_import :: "path \<Rightarrow> 'h import_item list"
  we_del :: "string \<Rightarrow> string option"
  we_walk :: "path \<Rightarrow> (path \<times> bool) list"
  we_status :: "'h \<Rightarrow> string + bool"
  we_blob :: "'h \<Rightarrow> string"
  we_export :: "path \<Rightarrow> string option"
  we_rename :: "path \<Rightarrow> string option"
  we_ident :: "path \<Rightarrow> u64 \<times> u64 \<times> int"
  we_dir_len :: u64
  we_race :: "path \<Rightarrow> disk \<Rightarrow> disk"

text \<open>\<open>emit_event\<close> never blocks and drops the event when the receiver lags; \<open>ws_events\<close> lists the events
  handed to it.  The text of an error event is the fixed part of its message or the error it quotes.\<close>

definition emit_event :: "workspace_event \<Rightarrow> 'h ws_state \<Rightarrow> 'h ws_state" where
  "emit_event ev st = st\<lparr> ws_events := ws_events st @ [ev] \<rparr>"

abbreviation wc_root :: "('g, 's) ws_config \<Rightarrow> path" where
  "wc_root cfg \<equiv> wf_root (wc_filter cfg)"

abbreviation wc_cap :: "('g, 's) ws_config \<Rightarrow> u64 option" where
  "wc_cap cfg \<equiv> wf_max_file_size (wc_filter cfg)"

subsection \<open>The disk\<close>

definition file_len :: "string \<Rightarrow> u64" where
  "file_len c = of_nat (length c)"

fun node_len :: "node_kind \<Rightarrow> u64" where
  "node_len (KFile c) = file_len c"
| "node_len (KDir n) = n"
| "node_len (KLink n _) = n"

text \<open>\<open>metadata\<close> follows links: whether it is a regular file, whether it is a directory, and the length.\<close>

fun kind_stat :: "node_kind \<Rightarrow> (bool \<times> bool \<times> u64) option" where
  "kind_stat (KFile c) = Some (True, False, file_len c)"
| "kind_stat (KDir n) = Some (False, True, n)"
| "kind_stat (KLink _ (LFile c)) = Some (True, False, file_len c)"
| "kind_stat (KLink _ (LDir n)) = Some (False, True, n)"
| "kind_stat (KLink _ LBroken) = None"

definition metadata :: "'h ws_env \<Rightarrow> disk \<Rightarrow> path \<Rightarrow> (bool \<times> bool \<times> u64) option" where
  "metadata en d p = (if we_stat en p \<noteq> None then None else Option.bind (d p) (kind_stat \<circ> nd_kind))"

definition is_symlink :: "disk \<Rightarrow> path \<Rightarrow> bool" where
  "is_symlink d p \<longleftrightarrow> (case d p of None \<Rightarrow> False | Some n \<Rightarrow> (case nd_kind n of KLink _ _ \<Rightarrow> True | _ \<Rightarrow> False))"

definition view_of :: "'h ws_env \<Rightarrow> disk \<Rightarrow> fs_view" where
  "view_of en d = \<lparr> fv_symlink = is_symlink d, fv_metadata = (\<lambda>p. map_option (\<lambda>(file, _, n). (file, n)) (metadata en d p)) \<rparr>"

definition is_dir :: "disk \<Rightarrow> path \<Rightarrow> bool" where
  "is_dir d p \<longleftrightarrow> (case d p of None \<Rightarrow> False | Some n \<Rightarrow> (case nd_kind n of KDir _ \<Rightarrow> True | _ \<Rightarrow> False))"

definition remove_file :: "path \<Rightarrow> disk \<Rightarrow> disk" where
  "remove_file p d = (if is_dir d p then d else d(p := None))"

definition check_path :: "('g, 's) ws_config \<Rightarrow> 'h ws_env \<Rightarrow> disk \<Rightarrow> path \<Rightarrow> filter_decision" where
  "check_path cfg en d p = check (wc_globs cfg) (wc_nfc cfg) (view_of en d) (wc_filter cfg) p"

definition path_mode :: "('g, 's) ws_config \<Rightarrow> path \<Rightarrow> mode" where
  "path_mode cfg p = compiled_mode_for (wc_globs cfg) (wc_nfc cfg) (wc_rules cfg) (strip_or_self (wc_root cfg) p)"

subsection \<open>Publishing a file\<close>

datatype 'h publish_outcome = Published 'h | SkippedEmpty | NotFound | PubTooLarge u64

fun drive_import :: "u64 option \<Rightarrow> 'h import_item list \<Rightarrow> string + 'h publish_outcome" where
  "drive_import cap [] = Inl ''progress stream ended without outcome''"
| "drive_import cap (ISize n # is) =
    (case cap of Some c \<Rightarrow> if n > c then Inr (PubTooLarge n) else drive_import cap is | None \<Rightarrow> drive_import cap is)"
| "drive_import cap (IBlobs # is) = drive_import cap is"
| "drive_import cap (IError e # is) = Inl e"
| "drive_import cap (IDone h # is) = Inr (Published h)"

definition publish_file_streaming ::
  "'h ws_env \<Rightarrow> string \<Rightarrow> path \<Rightarrow> u64 option \<Rightarrow> 'h ws_state \<Rightarrow> (string + 'h publish_outcome) \<times> 'h ws_state" where
  "publish_file_streaming en key p cap st =
    (case we_stat en p of
       Some e \<Rightarrow> (Inl e, st)
     | None \<Rightarrow>
         (case metadata en (ws_disk st) p of
            None \<Rightarrow> (Inr NotFound, st)
          | Some (_, _, n) \<Rightarrow>
              if n = 0 then (Inr SkippedEmpty, st)
              else (case we_import_start en p of
                  Some e \<Rightarrow> (Inl e, st)
                | None \<Rightarrow>
                    (case drive_import cap (we_import en p) of
                       Inr (Published h) \<Rightarrow> (Inr (Published h), st\<lparr> ws_writes := ws_writes st @ [DocSet key h] \<rparr>)
                     | r \<Rightarrow> (r, st)))))"

subsection \<open>The watcher\<close>

definition path_to_key_or_emit :: "('g, 's) ws_config \<Rightarrow> path \<Rightarrow> 'h ws_state \<Rightarrow> string option \<times> 'h ws_state" where
  "path_to_key_or_emit cfg p st =
    (case path_to_key (wc_nfc cfg) (wc_root cfg) p of
       Inr k \<Rightarrow> (Some k, st)
     | Inl _ \<Rightarrow> (None, emit_event (EvError ''path_to_key'') st))"

definition on_removed :: "('g, 's) ws_config \<Rightarrow> 'h ws_env \<Rightarrow> path \<Rightarrow> 'h ws_state \<Rightarrow> 'h ws_state" where
  "on_removed cfg en p st0 =
    (if should_skip_removal p (ws_guard st0) then st0
     else let st = st0\<lparr> ws_guard := forget_path p (ws_guard st0) \<rparr> in
       if ws_write_halted st then st
       else case check_path cfg en (ws_disk st) p of
           Skip Excluded \<Rightarrow> emit_event (SkippedExcluded p Outgoing) st
         | Skip _ \<Rightarrow> st
         | Include \<Rightarrow>
             if path_mode cfg p = MReadOnly then emit_event (SkippedReadOnly p Outgoing) st
             else case path_to_key_or_emit cfg p st of
                 (None, st) \<Rightarrow> st
               | (Some key, st) \<Rightarrow>
                   (case we_del en key of
                      None \<Rightarrow> st\<lparr> ws_writes := ws_writes st @ [DocDel key] \<rparr>
                    | Some e \<Rightarrow> emit_event (EvError e) st))"

text \<open>\<open>hash_file\<close>: the hash, a missing file, or another failure.\<close>

datatype 'h hash_result = Hashed 'h | HashNotFound | HashFailed

definition hash_file :: "'h ws_env \<Rightarrow> disk \<Rightarrow> path \<Rightarrow> 'h hash_result" where
  "hash_file en d p =
    (if we_unreadable en p then HashFailed
     else case d p of
         None \<Rightarrow> HashNotFound
       | Some n \<Rightarrow> (case nd_kind n of KFile c \<Rightarrow> Hashed (we_hash en c) | KDir _ \<Rightarrow> HashFailed
           | KLink _ (LFile c) \<Rightarrow> Hashed (we_hash en c) | KLink _ (LDir _) \<Rightarrow> HashFailed | KLink _ LBroken \<Rightarrow> HashNotFound))"

definition publish_changed :: "('g, 's) ws_config \<Rightarrow> 'h ws_env \<Rightarrow> path \<Rightarrow> 'h ws_state \<Rightarrow> 'h ws_state" where
  "publish_changed cfg en p st0 =
    (case path_to_key_or_emit cfg p st0 of
       (None, st) \<Rightarrow> st
     | (Some key, st) \<Rightarrow>
         (case publish_file_streaming en key p (wc_cap cfg) st of
            (Inr (Published h), st) \<Rightarrow> st\<lparr> ws_guard := record_local_publish p h (ws_guard st) \<rparr>
          | (Inr SkippedEmpty, st) \<Rightarrow> st
          | (Inr NotFound, st) \<Rightarrow> on_removed cfg en p st
          | (Inr (PubTooLarge n), st) \<Rightarrow> emit_event (SkippedTooLarge p n) st
          | (Inl e, st) \<Rightarrow> emit_event (EvError e) st))"

text \<open>\<open>on_modified\<close> after the filter and the directory test.\<close>

definition on_modified_file :: "('g, 's) ws_config \<Rightarrow> 'h ws_env \<Rightarrow> path \<Rightarrow> 'h ws_state \<Rightarrow> 'h ws_state" where
  "on_modified_file cfg en p st =
    (if path_mode cfg p = MReadOnly then emit_event (SkippedReadOnly p Outgoing) st
     else case hash_file en (ws_disk st) p of
         HashNotFound \<Rightarrow> on_removed cfg en p st
       | HashFailed \<Rightarrow> st
       | Hashed h \<Rightarrow> if should_skip_local p h (ws_guard st) then st else publish_changed cfg en p st)"

definition walk_files :: "'h ws_env \<Rightarrow> path \<Rightarrow> path list" where
  "walk_files en dir = map fst (filter snd (we_walk en dir))"

text \<open>\<open>on_modified\<close> and \<open>rescan_dir\<close> call each other; here the caller passes itself.\<close>

definition rescan_dir :: "(path \<Rightarrow> 'h ws_state \<Rightarrow> 'h ws_state) \<Rightarrow> 'h ws_env \<Rightarrow> path \<Rightarrow> 'h ws_state \<Rightarrow> 'h ws_state" where
  "rescan_dir modified en dir st = fold modified (walk_files en dir) st"

text \<open>A walked entry re-enters the directory branch only if it became a directory in between; the first
  argument bounds how often.\<close>

fun on_modified :: "nat \<Rightarrow> ('g, 's) ws_config \<Rightarrow> 'h ws_env \<Rightarrow> path \<Rightarrow> 'h ws_state \<Rightarrow> 'h ws_state" where
  "on_modified 0 cfg en p st = st"
| "on_modified (Suc n) cfg en p st =
    (if ws_write_halted st then st
     else case check_path cfg en (ws_disk st) p of
         Skip (TooLarge k) \<Rightarrow> emit_event (SkippedTooLarge p k) st
       | Skip Excluded \<Rightarrow> emit_event (SkippedExcluded p Outgoing) st
       | Skip _ \<Rightarrow> st
       | Include \<Rightarrow>
           if (case metadata en (ws_disk st) p of Some (_, dir, _) \<Rightarrow> dir | None \<Rightarrow> False)
           then rescan_dir (on_modified n cfg en) en p st
           else on_modified_file cfg en p st)"

subsection \<open>Applying an entry\<close>

datatype apply_outcome = Applied | NotReady

fun dec_digits :: "nat \<Rightarrow> string" where
  "dec_digits n = (if n < 10 then [char_of (48 + n)] else dec_digits (n div 10) @ [char_of (48 + n mod 10)])"

declare dec_digits.simps [simp del]

definition apply_temp_name :: "nat \<Rightarrow> nat \<Rightarrow> string \<Rightarrow> string" where
  "apply_temp_name pid seq name = ''.artel-fs-tmp-'' @ dec_digits pid @ ''-'' @ dec_digits seq @ ''-'' @ name @ ''.tmp''"

definition apply_temp_path :: "nat \<Rightarrow> nat \<Rightarrow> path \<Rightarrow> path option" where
  "apply_temp_path pid seq p =
    (case rev p of Normal name # ps \<Rightarrow> Some (rev ps @ [Normal (apply_temp_name pid seq name)]) | _ \<Rightarrow> None)"

definition parent :: "path \<Rightarrow> path option" where
  "parent p = (if p = [] \<or> p = [RootDir] then None else Some (butlast p))"

text \<open>\<open>create_dir_all\<close>; when an ancestor is not a directory it fails, which the caller ignores.\<close>

definition create_dir_all :: "'h ws_env \<Rightarrow> path \<Rightarrow> disk \<Rightarrow> disk" where
  "create_dir_all en p d =
    (let qs = filter (\<lambda>q. q \<noteq> []) (prefixes p) in
     if list_ex (\<lambda>q. d q \<noteq> None \<and> \<not> is_dir d q) qs then d
     else (\<lambda>q. if d q = None \<and> q \<in> set qs
       then (case we_ident en q of (dev, ino, mtime) \<Rightarrow>
         Some \<lparr> nd_dev = dev, nd_ino = ino, nd_mtime = mtime, nd_kind = KDir (we_dir_len en) \<rparr>)
       else d q))"

definition new_file :: "u64 \<times> u64 \<times> int \<Rightarrow> string \<Rightarrow> node" where
  "new_file i c = (case i of (dev, ino, mtime) \<Rightarrow> \<lparr> nd_dev = dev, nd_ino = ino, nd_mtime = mtime, nd_kind = KFile c \<rparr>)"

definition rename_error :: "'h ws_env \<Rightarrow> disk \<Rightarrow> path \<Rightarrow> string option" where
  "rename_error en d p = (if is_dir d p then Some ''Is a directory'' else we_rename en p)"

text \<open>The temporary file is written and renamed; its name never shows in the result.\<close>

definition apply_entry_streaming ::
  "'h ws_env \<Rightarrow> 'h doc_entry \<Rightarrow> path \<Rightarrow> 'h ws_state \<Rightarrow> (string + apply_outcome) \<times> 'h ws_state" where
  "apply_entry_streaming en e p st =
    (case we_status en (de_hash e) of
       Inl x \<Rightarrow> (Inl x, st)
     | Inr False \<Rightarrow> (Inr NotReady, st)
     | Inr True \<Rightarrow>
         let st1 = (case parent p of None \<Rightarrow> st | Some q \<Rightarrow> st\<lparr> ws_disk := create_dir_all en q (ws_disk st) \<rparr>) in
         if apply_temp_path 0 0 p = None then (Inl ''apply: no file name'', st1)
         else case we_export en p of
             Some x \<Rightarrow> (Inl x, st1)
           | None \<Rightarrow>
               let st2 = st1\<lparr> ws_guard := mark_remote_write p (de_hash e) (ws_guard st1) \<rparr> in
               (case rename_error en (ws_disk st2) p of
                  Some x \<Rightarrow> (Inl x, st2\<lparr> ws_guard := unmark_remote_write p (ws_guard st2) \<rparr>)
                | None \<Rightarrow> (Inr Applied, st2\<lparr> ws_disk := (ws_disk st2)(p \<mapsto> new_file (we_ident en p) (we_blob en (de_hash e))) \<rparr>)))"

definition fingerprint :: "disk \<Rightarrow> path \<Rightarrow> (u64 \<times> u64 \<times> int \<times> u64) option" where
  "fingerprint d p = map_option (\<lambda>n. (nd_dev n, nd_ino n, nd_mtime n, node_len (nd_kind n))) (d p)"

definition remove_if_unraced :: "path \<Rightarrow> (u64 \<times> u64 \<times> int \<times> u64) option \<Rightarrow> disk \<Rightarrow> bool \<times> disk" where
  "remove_if_unraced p before d = (if fingerprint d p \<noteq> before then (False, d) else (True, remove_file p d))"

definition apply_tombstone :: "'h ws_env \<Rightarrow> path \<Rightarrow> 'h ws_state \<Rightarrow> 'h ws_state" where
  "apply_tombstone en p st =
    (case mark_remote_delete p (ws_guard st) of
       (Duplicate, g) \<Rightarrow> st\<lparr> ws_guard := g \<rparr>
     | (Fresh, g) \<Rightarrow>
         let before = fingerprint (ws_disk st) p;
             (gone, d) = remove_if_unraced p before (we_race en p (ws_disk st));
             st1 = st\<lparr> ws_guard := g, ws_disk := d \<rparr>
         in if gone then emit_event (PeerDeleted p) st1 else st1)"

definition supersede_path :: "path \<Rightarrow> 'h option \<Rightarrow> 'h ws_state \<Rightarrow> 'h ws_state" where
  "supersede_path p keep st = st\<lparr> ws_trackers := supersede p keep (ws_trackers st) \<rparr>"

text \<open>The result says whether the entry is left waiting for its blob.\<close>

definition handle_entry :: "('g, 's) ws_config \<Rightarrow> 'h ws_env \<Rightarrow> 'h doc_entry \<Rightarrow> 'h ws_state \<Rightarrow> bool \<times> 'h ws_state" where
  "handle_entry cfg en e st =
    (case key_to_path (wc_root cfg) (de_key e) of
       Inl _ \<Rightarrow> (False, emit_event (EvError ''invalid key'') st)
     | Inr p \<Rightarrow>
         (case check_path cfg en (ws_disk st) p of
            Skip (TooLarge k) \<Rightarrow> (False, emit_event (SkippedTooLarge p k) (supersede_path p None st))
          | Skip Excluded \<Rightarrow> (False, emit_event (SkippedExcluded p Incoming) (supersede_path p None st))
          | Skip _ \<Rightarrow> (False, supersede_path p None st)
          | Include \<Rightarrow>
              if (case wc_cap cfg of None \<Rightarrow> False | Some cap \<Rightarrow> de_len e > cap)
              then (False, emit_event (SkippedTooLarge p (de_len e)) (supersede_path p None st))
              else if path_mode cfg p = MReadOnly
              then (False, emit_event (SkippedReadOnly p Incoming) (supersede_path p None st))
              else if de_len e = 0 then (False, apply_tombstone en p (supersede_path p None st))
              else (case apply_entry_streaming en e p st of
                  (Inr Applied, st) \<Rightarrow>
                    (let st1 = supersede_path p (Some (de_hash e)) st
                     in (False, emit_event (PeerWrote p) (st1\<lparr> ws_trackers := finish (de_hash e) (ws_trackers st1),
                       ws_releases := ws_releases st1 @ [p] \<rparr>)))
                | (Inr NotReady, st) \<Rightarrow>
                    (let (evs, ts) = track (de_hash e) (de_len e) p (ws_trackers st)
                     in (True, st\<lparr> ws_trackers := ts, ws_events := ws_events st @ evs \<rparr>))
                | (Inl x, st) \<Rightarrow> (False, emit_event (EvError x) (supersede_path p None st)))))"

text \<open>The timer of \<open>release_after\<close> fires.\<close>

definition fire_release :: "path \<Rightarrow> 'h ws_state \<Rightarrow> 'h ws_state" where
  "fire_release p st =
    (if p \<in> set (ws_releases st) then st\<lparr> ws_releases := remove1 p (ws_releases st), ws_guard := release p (ws_guard st) \<rparr> else st)"

text \<open>An answer of \<open>get_many\<close>: an error, or a stream in which single items may be errors.\<close>

type_synonym 'h doc_stream = "string + (string + 'h doc_entry) list"

definition stream_entries :: "(string + 'h doc_entry) list \<Rightarrow> 'h doc_entry list" where
  "stream_entries rs = concat (map (\<lambda>r. case r of Inl _ \<Rightarrow> [] | Inr e \<Rightarrow> [e]) rs)"

definition disk_matches :: "disk \<Rightarrow> path \<Rightarrow> 'h doc_entry \<Rightarrow> bool" where
  "disk_matches d p e =
    (if de_len e = 0 then d p = None
     else case d p of None \<Rightarrow> False | Some n \<Rightarrow> (case nd_kind n of KFile c \<Rightarrow> file_len c = de_len e | _ \<Rightarrow> False))"

definition catch_up_entry :: "('g, 's) ws_config \<Rightarrow> 'h ws_env \<Rightarrow> 'h doc_entry \<Rightarrow> 'h ws_state \<Rightarrow> 'h ws_state" where
  "catch_up_entry cfg en e st =
    (case key_to_path (wc_root cfg) (de_key e) of
       Inl _ \<Rightarrow> st
     | Inr p \<Rightarrow> if disk_matches (ws_disk st) p e then st else snd (handle_entry cfg en e st))"

definition catch_up :: "('g, 's) ws_config \<Rightarrow> 'h ws_env \<Rightarrow> 'h doc_stream \<Rightarrow> 'h ws_state \<Rightarrow> 'h ws_state" where
  "catch_up cfg en latest st =
    (case latest of
       Inl _ \<Rightarrow> emit_event (EvError ''catch-up get_many failed'') st
     | Inr rs \<Rightarrow> fold (catch_up_entry cfg en) (stream_entries rs) st)"

text \<open>\<open>still_pending\<close> accumulates over the entries with the hash.\<close>

definition retry_entry ::
  "('g, 's) ws_config \<Rightarrow> 'h ws_env \<Rightarrow> 'h \<Rightarrow> 'h doc_entry \<Rightarrow> bool \<times> 'h ws_state \<Rightarrow> bool \<times> 'h ws_state" where
  "retry_entry cfg en h e s =
    (if de_hash e \<noteq> h then s
     else case s of (pending, st) \<Rightarrow> (case handle_entry cfg en e st of (waiting, st') \<Rightarrow> (pending \<or> waiting, st')))"

definition retry_path ::
  "('g, 's) ws_config \<Rightarrow> 'h ws_env \<Rightarrow> (string \<Rightarrow> string + 'h doc_entry option) \<Rightarrow> 'h \<Rightarrow> path \<Rightarrow> bool \<times> 'h ws_state \<Rightarrow> bool \<times> 'h ws_state" where
  "retry_path cfg en get_one h p s =
    (case path_to_key (wc_nfc cfg) (wc_root cfg) p of
       Inl _ \<Rightarrow> s
     | Inr key \<Rightarrow>
         (case get_one key of
            Inl _ \<Rightarrow> (fst s, emit_event (EvError ''get_one failed'') (snd s))
          | Inr None \<Rightarrow> s
          | Inr (Some e) \<Rightarrow> retry_entry cfg en h e s))"

definition handle_content_ready ::
  "('g, 's) ws_config \<Rightarrow> 'h ws_env \<Rightarrow> 'h doc_stream \<Rightarrow> (string \<Rightarrow> string + 'h doc_entry option) \<Rightarrow> 'h \<Rightarrow> 'h ws_state \<Rightarrow> 'h ws_state" where
  "handle_content_ready cfg en all get_one h st =
    (let settle = (\<lambda>(pending, st'). if pending then st' else st'\<lparr> ws_trackers := finish h (ws_trackers st') \<rparr>);
         tracked = tracked_paths h (ws_trackers st)
     in if tracked = []
        then (case all of
            Inl _ \<Rightarrow> emit_event (EvError ''get_many failed'') st
          | Inr rs \<Rightarrow> settle (fold (retry_entry cfg en h) (stream_entries rs) (False, st)))
        else settle (fold (retry_path cfg en get_one h) tracked (False, st)))"

subsection \<open>Starting up\<close>

definition scan_file :: "('g, 's) ws_config \<Rightarrow> 'h ws_env \<Rightarrow> path \<Rightarrow> 'h ws_state \<Rightarrow> 'h ws_state" where
  "scan_file cfg en p st =
    (case check_path cfg en (ws_disk st) p of
       Skip (TooLarge k) \<Rightarrow> emit_event (SkippedTooLarge p k) st
     | Skip Excluded \<Rightarrow> emit_event (SkippedExcluded p Outgoing) st
     | Skip _ \<Rightarrow> st
     | Include \<Rightarrow>
         if path_mode cfg p = MReadOnly then emit_event (SkippedReadOnly p Outgoing) st
         else case path_to_key (wc_nfc cfg) (wc_root cfg) p of
             Inl _ \<Rightarrow> emit_event (EvError ''scan key'') st
           | Inr key \<Rightarrow>
               (case publish_file_streaming en key p (wc_cap cfg) st of
                  (Inr (Published h), st) \<Rightarrow> st\<lparr> ws_guard := record_local_publish p h (ws_guard st) \<rparr>
                | (Inr (PubTooLarge n), st) \<Rightarrow> emit_event (SkippedTooLarge p n) st
                | (Inr _, st) \<Rightarrow> st
                | (Inl e, st) \<Rightarrow> emit_event (EvError e) st))"

definition scan_and_publish_existing :: "('g, 's) ws_config \<Rightarrow> 'h ws_env \<Rightarrow> 'h ws_state \<Rightarrow> 'h ws_state" where
  "scan_and_publish_existing cfg en st = fold (scan_file cfg en) (walk_files en (wc_root cfg)) st"

definition export_entry :: "('g, 's) ws_config \<Rightarrow> 'h ws_env \<Rightarrow> 'h doc_entry \<Rightarrow> 'h ws_state \<Rightarrow> 'h ws_state" where
  "export_entry cfg en e st =
    (case key_to_path (wc_root cfg) (de_key e) of
       Inl _ \<Rightarrow> emit_event (EvError ''invalid key'') st
     | Inr p \<Rightarrow>
         (case check_path cfg en (ws_disk st) p of
            Skip (TooLarge k) \<Rightarrow> emit_event (SkippedTooLarge p k) st
          | Skip Excluded \<Rightarrow> emit_event (SkippedExcluded p Incoming) st
          | Skip _ \<Rightarrow> st
          | Include \<Rightarrow>
              if (case wc_cap cfg of None \<Rightarrow> False | Some cap \<Rightarrow> de_len e > cap) then emit_event (SkippedTooLarge p (de_len e)) st
              else if path_mode cfg p = MReadOnly then emit_event (SkippedReadOnly p Incoming) st
              else if de_len e = 0
              then emit_event (PeerDeleted p) (st\<lparr> ws_guard := snd (mark_remote_delete p (ws_guard st)),
                ws_disk := remove_file p (ws_disk st) \<rparr>)
              else (case apply_entry_streaming en e p st of
                  (Inr Applied, st) \<Rightarrow> emit_event (PeerWrote p) (st\<lparr> ws_releases := ws_releases st @ [p] \<rparr>)
                | (Inr NotReady, st) \<Rightarrow> st
                | (Inl x, st) \<Rightarrow> emit_event (EvError x) st)))"

definition bulk_export :: "('g, 's) ws_config \<Rightarrow> 'h ws_env \<Rightarrow> 'h doc_stream \<Rightarrow> 'h ws_state \<Rightarrow> string + 'h ws_state" where
  "bulk_export cfg en latest st =
    (case latest of Inl x \<Rightarrow> Inl x | Inr rs \<Rightarrow> Inr (fold (export_entry cfg en) (stream_entries rs) st))"

definition reconcile_entry :: "('g, 's) ws_config \<Rightarrow> 'h ws_env \<Rightarrow> 'h doc_entry \<Rightarrow> 'h ws_state \<Rightarrow> 'h ws_state" where
  "reconcile_entry cfg en e st =
    (if de_len e = 0 then st
     else case key_to_path (wc_root cfg) (de_key e) of
         Inl _ \<Rightarrow> emit_event (EvError ''reconcile invalid key'') st
       | Inr p \<Rightarrow>
           if check_path cfg en (ws_disk st) p \<noteq> Include then st
           else if metadata en (ws_disk st) p \<noteq> None then st
           else case we_del en (de_key e) of
               None \<Rightarrow> st\<lparr> ws_writes := ws_writes st @ [DocDel (de_key e)] \<rparr>
             | Some x \<Rightarrow> emit_event (EvError x) st)"

definition reconcile_doc_against_disk ::
  "('g, 's) ws_config \<Rightarrow> 'h ws_env \<Rightarrow> 'h doc_stream \<Rightarrow> 'h ws_state \<Rightarrow> string + 'h ws_state" where
  "reconcile_doc_against_disk cfg en latest st =
    (case latest of Inl x \<Rightarrow> Inl x | Inr rs \<Rightarrow> Inr (fold (reconcile_entry cfg en) (stream_entries rs) st))"

end
