(* ===== verification/Workspace_Guarantees.thy ===== *)
theory Workspace_Guarantees
  imports Workspace_Files
begin

text \<open>
  What the two directions of a workspace guarantee: where an entry of a peer may touch the disk, that
  what a peer changed is not published back, that a local edit reaches the disk of a peer, when a
  tombstone spares a file, and which entries a returning host deletes from the document.
\<close>

subsection \<open>Entries that pass every gate\<close>

definition accepts :: "('g, 's) ws_config \<Rightarrow> 'h ws_env \<Rightarrow> disk \<Rightarrow> 'h doc_entry \<Rightarrow> path \<Rightarrow> bool" where
  "accepts cfg en d e p \<longleftrightarrow> key_to_path (wc_root cfg) (de_key e) = Inr p \<and> check_path cfg en d p = Include
    \<and> (case wc_cap cfg of None \<Rightarrow> True | Some cap \<Rightarrow> de_len e \<le> cap) \<and> path_mode cfg p = MReadWrite"

text \<open>What an entry may do to the disk: change its own path and create missing directories above it.\<close>

definition confined :: "path \<Rightarrow> disk \<Rightarrow> disk \<Rightarrow> bool" where
  "confined p d d' \<longleftrightarrow> (\<forall>q. d' q = d q \<or> q = p \<or> (strict_prefix q p \<and> d q = None \<and> is_dir d' q))"

lemma confinedI [intro]: "(\<And>q. d' q = d q \<or> q = p \<or> (strict_prefix q p \<and> d q = None \<and> is_dir d' q)) \<Longrightarrow> confined p d d'"
  by (simp add: confined_def)

lemma confined_refl [simp]: "confined p d d"
  by (simp add: confined_def)

lemma confined_remove [simp]: "confined p d (remove_file p d)"
  by (simp add: confined_def remove_file_def)

lemma confined_upd: "confined p d d' \<Longrightarrow> confined p d (d'(p := x))"
  by (auto simp: confined_def is_dir_def)

lemma strict_prefix_butlast: "prefix q (butlast p) \<Longrightarrow> p \<noteq> [] \<Longrightarrow> strict_prefix q p"
  by (cases p rule: rev_cases) (auto simp: strict_prefix_def dest: prefix_length_le)

lemma create_dir_all_own [simp]:
  assumes "parent p = Some q"
  shows "create_dir_all en q d p = d p"
proof -
  have "strict_prefix q p" using assms by (auto simp: parent_def split: if_splits intro: strict_prefix_butlast)
  then have "\<not> prefix p q" by auto
  then show ?thesis by (simp add: create_dir_all_def Let_def)
qed

lemma confined_mkdir: "parent p = Some q \<Longrightarrow> confined p d (create_dir_all en q d)"
  by (rule confinedI) (auto simp: create_dir_all_def parent_def Let_def is_dir_def split: if_splits prod.splits intro: strict_prefix_butlast)

subsection \<open>Handling an entry\<close>

lemma emit_event_simps [simp]:
  "ws_disk (emit_event ev st) = ws_disk st" "ws_guard (emit_event ev st) = ws_guard st" "ws_writes (emit_event ev st) = ws_writes st"
  "ws_trackers (emit_event ev st) = ws_trackers st" "ws_releases (emit_event ev st) = ws_releases st"
  "ws_events (emit_event ev st) = ws_events st @ [ev]" "ws_write_halted (emit_event ev st) = ws_write_halted st"
  by (simp_all add: emit_event_def)

lemma supersede_path_simps [simp]:
  "ws_disk (supersede_path p k st) = ws_disk st" "ws_guard (supersede_path p k st) = ws_guard st"
  "ws_writes (supersede_path p k st) = ws_writes st" "ws_events (supersede_path p k st) = ws_events st"
  by (simp_all add: supersede_path_def)

lemma not_read_write [simp]: "m \<noteq> MReadWrite \<longleftrightarrow> m = MReadOnly"
  by (cases m) simp_all

lemma handle_entry_refused:
  assumes "\<nexists>p. accepts cfg en (ws_disk st) e p"
  shows "ws_disk (snd (handle_entry cfg en e st)) = ws_disk st" "ws_guard (snd (handle_entry cfg en e st)) = ws_guard st"
    "ws_writes (snd (handle_entry cfg en e st)) = ws_writes st" "\<not> fst (handle_entry cfg en e st)"
  using assms
  by (auto simp: handle_entry_def accepts_def not_le split: sum.splits filter_decision.splits skip_reason.splits option.splits mode.splits
      if_splits)

lemma handle_entry_accepted:
  assumes "accepts cfg en (ws_disk st) e p"
  shows "handle_entry cfg en e st =
    (if de_len e = 0 then (False, apply_tombstone en p (supersede_path p None st))
     else case apply_entry_streaming en e p st of
         (Inr Applied, st) \<Rightarrow>
           (let st1 = supersede_path p (Some (de_hash e)) st
            in (False, emit_event (PeerWrote p) (st1\<lparr> ws_trackers := finish (de_hash e) (ws_trackers st1),
              ws_releases := ws_releases st1 @ [p] \<rparr>)))
       | (Inr NotReady, st) \<Rightarrow>
           (let (evs, ts) = track (de_hash e) (de_len e) p (ws_trackers st)
            in (True, st\<lparr> ws_trackers := ts, ws_events := ws_events st @ evs \<rparr>))
       | (Inl x, st) \<Rightarrow> (False, emit_event (EvError x) (supersede_path p None st)))"
proof -
  have "\<not> (case wc_cap cfg of None \<Rightarrow> False | Some cap \<Rightarrow> de_len e > cap)"
    using assms by (auto simp: accepts_def split: option.splits)
  then show ?thesis using assms by (simp add: handle_entry_def accepts_def)
qed

text \<open>Streaming an entry onto the disk, by outcome.\<close>

lemma apply_streaming_effect:
  assumes "apply_entry_streaming en e p st = (r, st')"
  shows "confined p (ws_disk st) (ws_disk st')" "ws_writes st' = ws_writes st"
    "r = Inr Applied \<Longrightarrow> ws_disk st' p = Some (new_file (we_ident en p) (we_blob en (de_hash e)))
      \<and> ws_guard st' = mark_remote_write p (de_hash e) (ws_guard st)"
    "r \<noteq> Inr Applied \<Longrightarrow> ws_disk st' p = ws_disk st p"
proof -
  have mk: "confined p d (case parent p of None \<Rightarrow> d | Some q \<Rightarrow> create_dir_all en q d)" for d
    using confined_mkdir by (auto split: option.splits)
  show "confined p (ws_disk st) (ws_disk st')" "ws_writes st' = ws_writes st"
    "r = Inr Applied \<Longrightarrow> ws_disk st' p = Some (new_file (we_ident en p) (we_blob en (de_hash e)))
      \<and> ws_guard st' = mark_remote_write p (de_hash e) (ws_guard st)"
    "r \<noteq> Inr Applied \<Longrightarrow> ws_disk st' p = ws_disk st p"
    using assms mk [of "ws_disk st"]
    by (auto simp: apply_entry_streaming_def Let_def confined_upd split: sum.splits bool.splits option.splits if_splits)
qed

lemma tombstone_effect:
  "ws_writes (apply_tombstone en p st) = ws_writes st"
  "(\<And>d. we_race en p d = d) \<Longrightarrow> confined p (ws_disk st) (ws_disk (apply_tombstone en p st))"
  "ws_disk (apply_tombstone en p st) = ws_disk st
    \<or> ws_disk (apply_tombstone en p st) = we_race en p (ws_disk st)
    \<or> ws_disk (apply_tombstone en p st) = remove_file p (we_race en p (ws_disk st))"
  "ws_guard (apply_tombstone en p st) = snd (mark_remote_delete p (ws_guard st))"
  by (auto simp: apply_tombstone_def remove_if_unraced_def mark_remote_delete_def Let_def split: prod.splits)

lemma accepted_effect:
  assumes "accepts cfg en (ws_disk st) e p" "handle_entry cfg en e st = (w, st')"
  shows "ws_writes st' = ws_writes st" "(\<And>d. we_race en p d = d) \<Longrightarrow> confined p (ws_disk st) (ws_disk st')"
proof -
  obtain r s where r: "apply_entry_streaming en e p st = (r, s)" by force
  note eff = apply_streaming_effect [OF r] tombstone_effect [of en p "supersede_path p None st"]
  show "ws_writes st' = ws_writes st" "(\<And>d. we_race en p d = d) \<Longrightarrow> confined p (ws_disk st) (ws_disk st')"
    using eff assms(2) unfolding handle_entry_accepted [OF assms(1)] r
    by (auto simp: Let_def split: if_splits sum.splits apply_outcome.splits prod.splits)
qed

lemma check_Include:
  assumes "check_path cfg en d (wc_root cfg @ rel) = Include"
  shows "\<not> is_hardcoded_skip rel" "\<not> symlink_walk (view_of en d) (wc_root cfg) rel"
  using assms
  by (auto simp: check_path_def check_def strip_or_self_def strip_prefix_def has_symlink_in_path_def Let_def split: if_splits)

lemma accepts_below_root:
  assumes "accepts cfg en d e p" "wc_root cfg \<noteq> []"
  obtains ns where "p = wc_root cfg @ map Normal ns" "ns \<noteq> []" "\<forall>n\<in>set ns. is_name n" "\<not> is_hardcoded_skip (map Normal ns)"
    "\<not> symlink_walk (view_of en d) (wc_root cfg) (map Normal ns)"
proof -
  obtain ns where ns: "p = wc_root cfg @ map Normal ns" "ns \<noteq> []" "\<forall>n\<in>set ns. is_name n"
    using key_below_root [of "wc_root cfg" "de_key e" p] assms by (auto simp: accepts_def)
  with assms(1) show thesis using that [of ns] check_Include [of cfg en d "map Normal ns"] by (simp add: accepts_def)
qed

text \<open>C12: an entry of a peer never touches the disk outside the workspace.  Whatever key, hash and length a
  peer publishes, handling the entry writes nothing into the document, and when the disk changes at all,
  the change is at one path below the root, whose names are neither reserved nor led through a symbolic
  link, that the filter includes, the rules allow writing and whose declared length is within the cap;
  above it only missing directories are created.\<close>

theorem entry_stays_confined:
  assumes "wc_root cfg \<noteq> []" "\<forall>p d. we_race en p d = d" "handle_entry cfg en e st = (w, st')"
  shows "ws_writes st' = ws_writes st \<and> (ws_disk st' = ws_disk st
    \<or> (\<exists>p ns. p = wc_root cfg @ map Normal ns \<and> ns \<noteq> [] \<and> (\<forall>n\<in>set ns. is_name n) \<and> \<not> is_hardcoded_skip (map Normal ns)
      \<and> \<not> symlink_walk (view_of en (ws_disk st)) (wc_root cfg) (map Normal ns)
      \<and> accepts cfg en (ws_disk st) e p \<and> confined p (ws_disk st) (ws_disk st')))"
proof (cases "\<exists>p. accepts cfg en (ws_disk st) e p")
  case True
  then obtain p where p: "accepts cfg en (ws_disk st) e p" by blast
  obtain ns where "p = wc_root cfg @ map Normal ns" "ns \<noteq> []" "\<forall>n\<in>set ns. is_name n" "\<not> is_hardcoded_skip (map Normal ns)"
      "\<not> symlink_walk (view_of en (ws_disk st)) (wc_root cfg) (map Normal ns)"
    by (rule accepts_below_root [OF p assms(1)])
  with p accepted_effect [OF p assms(3)] assms(2) show ?thesis by blast
next
  case False
  from handle_entry_refused [OF False] show ?thesis using assms(3) by simp
qed

subsection \<open>Echoes\<close>

text \<open>A path whose state the guard remembers: the file with the remembered hash, or no file where a peer
  deleted it.\<close>

definition settled :: "(string \<Rightarrow> 'h) \<Rightarrow> path \<Rightarrow> 'h ws_state \<Rightarrow> bool" where
  "settled H p st \<longleftrightarrow>
    (\<exists>n c. ws_disk st p = Some n \<and> nd_kind n = KFile c \<and> guards_content p (H c) (ws_guard st))
    \<or> (ws_disk st p = None \<and> guards_absence p (ws_guard st))"

lemma settled_keep:
  assumes "settled H p st" "ws_disk st' p = ws_disk st p"
    "\<And>h. guards_content p h (ws_guard st) \<Longrightarrow> guards_content p h (ws_guard st')"
    "guards_absence p (ws_guard st) \<Longrightarrow> guards_absence p (ws_guard st')"
  shows "settled H p st'"
  using assms by (auto simp: settled_def)

lemma on_removed_disk [simp]: "ws_disk (on_removed cfg en q st) = ws_disk st"
  by (auto simp: on_removed_def path_to_key_or_emit_def Let_def
      split: filter_decision.splits skip_reason.splits sum.splits option.splits)

lemma on_removed_guard: "ws_guard (on_removed cfg en q st) = ws_guard st \<or> ws_guard (on_removed cfg en q st) = forget_path q (ws_guard st)"
  by (auto simp: on_removed_def path_to_key_or_emit_def Let_def
      split: filter_decision.splits skip_reason.splits sum.splits option.splits)

lemma on_removed_settled:
  assumes "settled H p st" "q \<noteq> p \<or> ws_disk st p = None"
  shows "settled H p (on_removed cfg en q st)" "q = p \<Longrightarrow> on_removed cfg en q st = st"
proof -
  show eq: "on_removed cfg en q st = st" if "q = p"
    using assms that by (simp add: settled_def on_removed_def guards_skip)
  show "settled H p (on_removed cfg en q st)"
  proof (cases "q = p")
    case False
    with on_removed_guard [of cfg en q st] show ?thesis
      by (intro settled_keep [OF assms(1)]) (auto intro: guards_content_keep guards_absence_keep)
  qed (use assms eq in simp)
qed

lemma publish_streaming_same [simp]:
  "ws_disk (snd (publish_file_streaming en k q cap st)) = ws_disk st"
  "ws_guard (snd (publish_file_streaming en k q cap st)) = ws_guard st"
  by (auto simp: publish_file_streaming_def split: option.splits sum.splits publish_outcome.splits)

lemma publish_changed_settled:
  assumes "settled H p st" "q \<noteq> p"
  shows "settled H p (publish_changed cfg en q st)" "ws_disk (publish_changed cfg en q st) = ws_disk st"
proof -
  have key: "ws_disk (snd (path_to_key_or_emit cfg q st)) = ws_disk st" "ws_guard (snd (path_to_key_or_emit cfg q st)) = ws_guard st"
    by (auto simp: path_to_key_or_emit_def split: sum.splits)
  obtain k s where ks: "path_to_key_or_emit cfg q st = (k, s)" by force
  obtain r t where rt: "publish_file_streaming en (the k) q (wc_cap cfg) s = (r, t)" by force
  have same: "ws_disk s = ws_disk st" "ws_guard s = ws_guard st" "ws_disk t = ws_disk s" "ws_guard t = ws_guard s"
    using key ks publish_streaming_same [of en "the k" q "wc_cap cfg" s] rt by simp_all
  have st: "settled H p s" "settled H p t" by (rule settled_keep [OF assms(1)]; simp add: same)+
  have rec: "settled H p (t\<lparr> ws_guard := record_local_publish q h (ws_guard t) \<rparr>)" for h
    by (rule settled_keep [OF st(2)]) (use assms(2) in \<open>auto intro: guards_content_keep guards_absence_keep\<close>)
  have emit: "settled H p (emit_event ev t)" for ev by (rule settled_keep [OF st(2)]) simp_all
  note rem = on_removed_settled(1) [OF st(2), of q cfg en]
  show "settled H p (publish_changed cfg en q st)" "ws_disk (publish_changed cfg en q st) = ws_disk st"
    unfolding publish_changed_def ks
    using st rec emit rem assms(2) rt same by (auto split: option.splits sum.splits publish_outcome.splits)
qed

text \<open>A change event at the settled path itself changes nothing but the events.\<close>

lemma settled_hash: "settled H p st \<Longrightarrow> we_hash en = H \<Longrightarrow>
    (case hash_file en (ws_disk st) p of
       Hashed h \<Rightarrow> should_skip_local p h (ws_guard st)
     | HashNotFound \<Rightarrow> ws_disk st p = None
     | HashFailed \<Rightarrow> True)"
  by (auto simp: settled_def hash_file_def guards_skip)

lemma on_modified_file_settled:
  assumes "settled H p st" "we_hash en = H"
  shows "settled H p (on_modified_file cfg en q st)" "ws_disk (on_modified_file cfg en q st) = ws_disk st"
    "ws_writes (on_modified_file cfg en p st) = ws_writes st"
proof -
  have emit: "settled H p (emit_event ev st)" for ev by (rule settled_keep [OF assms(1)]) simp_all
  have own: "on_modified_file cfg en p st = st \<or> on_modified_file cfg en p st = emit_event (SkippedReadOnly p Outgoing) st"
    using settled_hash [OF assms] on_removed_settled(2) [OF assms(1), of p cfg en]
    by (auto simp: on_modified_file_def split: hash_result.splits)
  then show "ws_writes (on_modified_file cfg en p st) = ws_writes st" by auto
  show "settled H p (on_modified_file cfg en q st)" "ws_disk (on_modified_file cfg en q st) = ws_disk st"
  proof (atomize (full), cases "q = p")
    case True
    then show "settled H p (on_modified_file cfg en q st) \<and> ws_disk (on_modified_file cfg en q st) = ws_disk st"
      using own emit assms(1) by auto
  next
    case False
    then show "settled H p (on_modified_file cfg en q st) \<and> ws_disk (on_modified_file cfg en q st) = ws_disk st"
      using emit assms(1) on_removed_settled(1) [OF assms(1), of q cfg en] publish_changed_settled [OF assms(1) False, of cfg en]
      by (auto simp: on_modified_file_def split: hash_result.splits)
  qed
qed

lemma fold_settled:
  assumes "\<And>q st. settled H p st \<Longrightarrow> settled H p (f q st) \<and> ws_disk (f q st) = ws_disk st"
  shows "settled H p st \<Longrightarrow> settled H p (fold f qs st) \<and> ws_disk (fold f qs st) = ws_disk st"
  by (induction qs arbitrary: st) (simp_all add: assms)

lemma on_modified_settled:
  assumes "we_hash en = H"
  shows "settled H p st \<Longrightarrow> settled H p (on_modified n cfg en q st) \<and> ws_disk (on_modified n cfg en q st) = ws_disk st"
proof (induction n arbitrary: q st)
  case (Suc n)
  have emit: "settled H p (emit_event ev st)" for ev by (rule settled_keep [OF Suc.prems]) simp_all
  note walk = fold_settled [where f = "on_modified n cfg en" and qs = "walk_files en q", OF Suc.IH Suc.prems]
  note one = on_modified_file_settled(1,2) [OF Suc.prems assms, of cfg q]
  show ?case
    using emit Suc.prems walk one by (auto simp: rescan_dir_def split: filter_decision.splits skip_reason.splits)
qed simp

lemma on_modified_quiet:
  assumes "we_hash en = H" "settled H p st"
  shows "ws_writes (on_modified n cfg en p st) = ws_writes st"
proof (cases n)
  case (Suc m)
  have "\<not> (case metadata en (ws_disk st) p of Some (_, dir, _) \<Rightarrow> dir | None \<Rightarrow> False)"
    using assms(2) by (auto simp: settled_def metadata_def)
  then show ?thesis
    using Suc on_modified_file_settled(3) [OF assms(2,1), of cfg] by (auto split: filter_decision.splits skip_reason.splits)
qed simp

lemma apply_streaming_guard:
  "ws_guard (snd (apply_entry_streaming en e q st)) \<in> {ws_guard st, mark_remote_write q (de_hash e) (ws_guard st),
    unmark_remote_write q (mark_remote_write q (de_hash e) (ws_guard st))}"
  by (auto simp: apply_entry_streaming_def Let_def split: sum.splits bool.splits option.splits)

lemma apply_streaming_settled:
  assumes "settled H p st" "\<not> prefix p q"
  shows "settled H p (snd (apply_entry_streaming en e q st))"
proof (rule settled_keep [OF assms(1)])
  have ne: "q \<noteq> p" using assms(2) by auto
  obtain r s where r: "apply_entry_streaming en e q st = (r, s)" by force
  show "ws_disk (snd (apply_entry_streaming en e q st)) p = ws_disk st p"
    using apply_streaming_effect(1) [OF r] ne assms(2) r by (auto simp: confined_def strict_prefix_def)
  show "guards_content p h (ws_guard (snd (apply_entry_streaming en e q st)))" if "guards_content p h (ws_guard st)" for h
    using apply_streaming_guard [of en e q st] guards_content_keep(2,3) that ne by (metis empty_iff insert_iff)
  show "guards_absence p (ws_guard (snd (apply_entry_streaming en e q st)))" if "guards_absence p (ws_guard st)"
    using apply_streaming_guard [of en e q st] guards_absence_keep(2,3) that ne by (metis empty_iff insert_iff)
qed

lemma tombstone_settled:
  assumes "settled H p st" "q \<noteq> p" "we_race en q (ws_disk st) p = ws_disk st p"
  shows "settled H p (apply_tombstone en q st)"
  by (rule settled_keep [OF assms(1)])
    (use assms tombstone_effect(3,4) [of en q st] in \<open>auto simp: remove_file_def intro: guards_content_keep guards_absence_keep\<close>)

lemma handle_entry_settled:
  assumes "settled H p st" "\<And>q. key_to_path (wc_root cfg) (de_key e) = Inr q \<Longrightarrow> \<not> prefix p q" "\<And>q d. we_race en q d p = d p"
  shows "settled H p (snd (handle_entry cfg en e st))"
proof (cases "\<exists>q. accepts cfg en (ws_disk st) e q")
  case True
  then obtain q where q: "accepts cfg en (ws_disk st) e q" by blast
  then have np: "\<not> prefix p q" using assms(2) by (simp add: accepts_def)
  then have ne: "q \<noteq> p" by auto
  have sup: "settled H p (supersede_path q k s)" if "settled H p s" for k s by (rule settled_keep [OF that]) simp_all
  obtain r s where r: "apply_entry_streaming en e q st = (r, s)" by force
  have s: "settled H p s" using apply_streaming_settled [OF assms(1) np, of en e] r by simp
  have same: "settled H p s'" if "ws_disk s' = ws_disk s" "ws_guard s' = ws_guard s" for s' by (rule settled_keep [OF s]) (simp_all add: that)
  have t: "settled H p (apply_tombstone en q (supersede_path q None st))"
    by (rule tombstone_settled [OF sup [OF assms(1)] ne]) (simp add: assms(3))
  show ?thesis unfolding handle_entry_accepted [OF q] r
    using t same by (auto simp: Let_def split: sum.splits apply_outcome.splits prod.splits)
next
  case False
  show ?thesis by (rule settled_keep [OF assms(1)]) (simp_all add: handle_entry_refused [OF False])
qed

text \<open>Everything that can happen while the path itself is left alone: file-system events for any path, a
  removal event for the path only while it is absent, entries of peers that are not at or below the path,
  timers, changes of the disk elsewhere and of the write permission.\<close>

inductive ws_step :: "('g, 's) ws_config \<Rightarrow> (string \<Rightarrow> 'h) \<Rightarrow> path \<Rightarrow> 'h ws_state \<Rightarrow> 'h ws_state \<Rightarrow> bool" for cfg H p where
  modified: "we_hash en = H \<Longrightarrow> ws_step cfg H p st (on_modified n cfg en q st)"
| removed: "q \<noteq> p \<or> ws_disk st p = None \<Longrightarrow> ws_step cfg H p st (on_removed cfg en q st)"
| applied: "(\<And>q. key_to_path (wc_root cfg) (de_key e) = Inr q \<Longrightarrow> \<not> prefix p q) \<Longrightarrow> (\<And>q d. we_race en q d p = d p) \<Longrightarrow>
    ws_step cfg H p st (snd (handle_entry cfg en e st))"
| released: "ws_step cfg H p st (fire_release q st)"
| changed: "d p = ws_disk st p \<Longrightarrow> ws_step cfg H p st (st\<lparr> ws_disk := d \<rparr>)"
| halted: "ws_step cfg H p st (st\<lparr> ws_write_halted := b \<rparr>)"

lemma ws_step_settled:
  assumes "ws_step cfg H p st st'" "settled H p st"
  shows "settled H p st'"
  using assms
proof (cases rule: ws_step.cases)
  case (released q)
  then show ?thesis
    by (auto simp: fire_release_def intro!: settled_keep [OF assms(2)] guards_content_keep guards_absence_keep)
qed (use assms(2) in \<open>auto simp: on_modified_settled on_removed_settled handle_entry_settled intro: settled_keep\<close>)

lemma ws_steps_settled: "(ws_step cfg H p)\<^sup>*\<^sup>* st st' \<Longrightarrow> settled H p st \<Longrightarrow> settled H p st'"
  by (induction rule: rtranclp_induct) (auto dest: ws_step_settled)

lemma applied_settled:
  assumes "handle_entry cfg en e st = (w, st1)" "\<forall>h. we_hash en (we_blob en h) = h"
    "ws_events st1 = ws_events st @ [PeerWrote p] \<or> (ws_events st1 = ws_events st @ [PeerDeleted p] \<and> ws_disk st1 p = None)"
  shows "settled (we_hash en) p st1"
proof (cases "\<exists>q. accepts cfg en (ws_disk st) e q")
  case True
  then obtain q where q: "accepts cfg en (ws_disk st) e q" by blast
  obtain r s where r: "apply_entry_streaming en e q st = (r, s)" by force
  note h = assms(1) [unfolded handle_entry_accepted [OF q] r]
  have evs: "ws_events s = ws_events st"
    using r by (auto simp: apply_entry_streaming_def Let_def split: sum.splits bool.splits option.splits if_splits)
  have wr: "ws_events st1 = ws_events st @ [PeerWrote p] \<Longrightarrow> de_len e \<noteq> 0 \<and> r = Inr Applied \<and> q = p"
    using h evs
    by (auto simp: Let_def apply_tombstone_def track_def remove_if_unraced_def
        split: if_splits sum.splits apply_outcome.splits prod.splits option.splits remote_delete_mark.splits)
  have del: "ws_events st1 = ws_events st @ [PeerDeleted p] \<Longrightarrow> de_len e = 0 \<and> q = p"
    using h evs
    by (auto simp: Let_def apply_tombstone_def track_def remove_if_unraced_def
        split: if_splits sum.splits apply_outcome.splits prod.splits option.splits remote_delete_mark.splits)
  from assms(3) show ?thesis
  proof
    assume "ws_events st1 = ws_events st @ [PeerWrote p]"
    note w = wr [OF this]
    from w h apply_streaming_effect(3) [OF r] assms(2) show ?thesis
      by (auto simp: Let_def settled_def new_file_def split: prod.splits)
  next
    assume d: "ws_events st1 = ws_events st @ [PeerDeleted p] \<and> ws_disk st1 p = None"
    with del h tombstone_effect(4) [of en p "supersede_path p None st"] show ?thesis by (auto simp: settled_def)
  qed
next
  case False
  then have "PeerWrote p \<notin> set (drop (length (ws_events st)) (ws_events st1)) \<and> PeerDeleted p \<notin> set (drop (length (ws_events st)) (ws_events st1))"
    using assms(1)
    by (auto simp: handle_entry_def accepts_def not_le split: sum.splits filter_decision.splits skip_reason.splits option.splits if_splits)
  then show ?thesis using assms(3) by auto
qed


subsection \<open>From one workspace to another\<close>

lemma on_modified_publishes:
  assumes "\<not> ws_write_halted st" "check_path cfg en (ws_disk st) p = Include" "path_mode cfg p = MReadWrite"
    "ws_disk st p = Some f" "nd_kind f = KFile c" "file_len c \<noteq> 0" "\<not> we_unreadable en p" "we_stat en p = None"
    "\<not> should_skip_local p (we_hash en c) (ws_guard st)" "path_to_key (wc_nfc cfg) (wc_root cfg) p = Inr key"
    "we_import_start en p = None" "drive_import (wc_cap cfg) (we_import en p) = Inr (Published h)"
  shows "on_modified (Suc n) cfg en p st =
    st\<lparr> ws_writes := ws_writes st @ [DocSet key h], ws_guard := record_local_publish p h (ws_guard st) \<rparr>"
  using assms
  by (simp add: metadata_def on_modified_file_def hash_file_def publish_changed_def path_to_key_or_emit_def publish_file_streaming_def)

lemma handle_entry_writes:
  assumes "accepts cfg en (ws_disk st) e p" "de_len e \<noteq> 0" "we_status en (de_hash e) = Inr True" "we_export en p = None"
    "we_rename en p = None" "\<not> is_dir (ws_disk st) p" "wc_root cfg \<noteq> []"
  shows "ws_disk (snd (handle_entry cfg en e st)) p = Some (new_file (we_ident en p) (we_blob en (de_hash e)))"
    "ws_events (snd (handle_entry cfg en e st)) = ws_events st @ [PeerWrote p]"
proof -
  obtain ns where ns: "p = wc_root cfg @ map Normal ns" "ns \<noteq> []" by (rule accepts_below_root [OF assms(1,7)])
  then obtain ms m where "p = wc_root cfg @ map Normal ms @ [Normal m]" by (cases ns rule: rev_cases) auto
  then have tmp: "apply_temp_path 0 0 p \<noteq> None" by (simp add: apply_temp_path_def)
  have "is_dir (create_dir_all en q (ws_disk st)) p = is_dir (ws_disk st) p" if "parent p = Some q" for q
    using that by (simp add: is_dir_def)
  then have "\<exists>s. apply_entry_streaming en e p st = (Inr Applied, s) \<and> ws_events s = ws_events st"
    using assms(3-6) tmp by (cases "parent p") (auto simp: apply_entry_streaming_def Let_def rename_error_def)
  then show "ws_disk (snd (handle_entry cfg en e st)) p = Some (new_file (we_ident en p) (we_blob en (de_hash e)))"
    "ws_events (snd (handle_entry cfg en e st)) = ws_events st @ [PeerWrote p]"
    using assms(2) apply_streaming_effect(3) [of en e p st] by (auto simp: handle_entry_accepted [OF assms(1)] Let_def)
qed

definition publishable :: "('g, 's) ws_config \<Rightarrow> 'h ws_env \<Rightarrow> 'h ws_state \<Rightarrow> path \<Rightarrow> string \<Rightarrow> bool" where
  "publishable cfg en st p c \<longleftrightarrow> \<not> ws_write_halted st \<and> check_path cfg en (ws_disk st) p = Include \<and> path_mode cfg p = MReadWrite
    \<and> (\<exists>f. ws_disk st p = Some f \<and> nd_kind f = KFile c) \<and> file_len c \<noteq> 0 \<and> \<not> we_unreadable en p \<and> we_stat en p = None
    \<and> \<not> should_skip_local p (we_hash en c) (ws_guard st) \<and> we_import_start en p = None
    \<and> drive_import (wc_cap cfg) (we_import en p) = Inr (Published (we_hash en c))"

definition applicable :: "('g, 's) ws_config \<Rightarrow> 'h ws_env \<Rightarrow> 'h ws_state \<Rightarrow> path \<Rightarrow> 'h \<Rightarrow> u64 \<Rightarrow> bool" where
  "applicable cfg en st p h n \<longleftrightarrow> check_path cfg en (ws_disk st) p = Include \<and> path_mode cfg p = MReadWrite
    \<and> (case wc_cap cfg of None \<Rightarrow> True | Some cap \<Rightarrow> n \<le> cap) \<and> we_status en h = Inr True \<and> we_export en p = None
    \<and> we_rename en p = None \<and> \<not> is_dir (ws_disk st) p"


subsection \<open>Tombstones\<close>

text \<open>C38: when a tombstone spares a local write.  Between the look at a file and its removal a local program
  rewrites it in place.  The new content survives exactly if it has another length or the
  modification time differs in whole seconds; otherwise the file is deleted with the new content, although
  nothing of it was published.\<close>

theorem tombstone_spares_visible_write:
  assumes "\<not> guards_absence p (ws_guard st)" "ws_disk st p = Some f" "nd_kind f = KFile c"
    "we_race en p (ws_disk st) = (ws_disk st)(p \<mapsto> f\<lparr> nd_mtime := t, nd_kind := KFile c' \<rparr>)"
  shows "ws_disk (apply_tombstone en p st) p =
      (if t \<noteq> nd_mtime f \<or> file_len c' \<noteq> file_len c then Some (f\<lparr> nd_mtime := t, nd_kind := KFile c' \<rparr>) else None)
    \<and> ws_writes (apply_tombstone en p st) = ws_writes st \<and> guards_absence p (ws_guard (apply_tombstone en p st))"
  using assms
  by (auto simp: apply_tombstone_def remove_if_unraced_def mark_remote_delete_def guards_absence_def fingerprint_def
      remove_file_def is_dir_def Let_def split: if_splits)

subsection \<open>A returning host\<close>


subsection \<open>A sample workspace\<close>

text \<open>A hash function that is the identity, a cap of four bytes, \<open>b\<close> read-only, and the file \<open>a\<close> on the disk.\<close>

definition sample_ws_cfg :: "(string, string list) ws_config" where
  "sample_ws_cfg = \<lparr> wc_globs = sample_globs, wc_nfc = (\<lambda>s. s),
    wc_filter = \<lparr> wf_root = sample_root, wf_exclude = Globs [], wf_max_file_size = Some 4 \<rparr>,
    wc_rules = \<lparr> cpr_default = MReadWrite, cpr_set = [''b''], cpr_modes = [MReadOnly] \<rparr> \<rparr>"

definition sample_ws_env :: "string ws_env" where
  "sample_ws_env = \<lparr> we_hash = (\<lambda>c. c), we_unreadable = (\<lambda>_. False), we_stat = (\<lambda>_. None), we_import_start = (\<lambda>_. None),
    we_import = (\<lambda>_. [ISize 2, IBlobs, IDone ''hi'']), we_del = (\<lambda>_. None), we_walk = (\<lambda>_. []), we_status = (\<lambda>_. Inr True),
    we_blob = (\<lambda>h. h), we_export = (\<lambda>_. None), we_rename = (\<lambda>_. None), we_ident = (\<lambda>_. (1, 2, 3)), we_dir_len = 0, we_race = (\<lambda>_ d. d) \<rparr>"

definition sample_file :: "string \<Rightarrow> node" where
  "sample_file c = \<lparr> nd_dev = 1, nd_ino = 2, nd_mtime = 3, nd_kind = KFile c \<rparr>"

definition sample_ws :: "disk \<Rightarrow> string ws_state" where
  "sample_ws d = \<lparr> ws_disk = d, ws_guard = echo_guard_new, ws_trackers = [], ws_releases = [], ws_write_halted = False, ws_writes = [], ws_events = [] \<rparr>"

definition sample_a :: path where
  "sample_a = sample_root @ [Normal ''a'']"

definition sample_disk :: disk where
  "sample_disk = Map.empty(sample_root \<mapsto> \<lparr> nd_dev = 1, nd_ino = 1, nd_mtime = 0, nd_kind = KDir 0 \<rparr>)"

lemmas sample_ws_defs = sample_ws_cfg_def sample_ws_env_def sample_file_def sample_ws_def sample_a_def sample_disk_def sample_root_def sample_globs_def
  echo_guard_new_def check_path_def check_def strip_or_self_def strip_prefix_def is_hardcoded_skip_def hardcoded_name_def suffix_to_prefix
  has_symlink_in_path_def view_of_def is_symlink_def metadata_def is_dir_def path_mode_def compiled_mode_for_def path_to_match_string_def
  file_len_def guard_defs Let_def

lemma sample_key: "key_to_path sample_root ''path/a'' = Inr sample_a" "key_to_path sample_root ''path/b'' = Inr (sample_root @ [Normal ''b''])"
  by (simp_all add: sample_a_def sample_root_def key_to_path_def KEY_PREFIX_def Let_def components_def segment_component_def
      join_path_def is_ascii_alphabetic_def in_range_def)

lemma sample_accepts:
  "accepts sample_ws_cfg sample_ws_env sample_disk \<lparr> de_key = ''path/a'', de_hash = ''hi'', de_len = 2 \<rparr> sample_a"
  using sample_key(1) by (simp add: accepts_def sample_ws_defs)

lemma sample_handle:
  "ws_disk (snd (handle_entry sample_ws_cfg sample_ws_env \<lparr> de_key = ''path/a'', de_hash = ''hi'', de_len = 2 \<rparr> (sample_ws sample_disk))) sample_a
    = Some (sample_file ''hi'')"
  "ws_events (snd (handle_entry sample_ws_cfg sample_ws_env \<lparr> de_key = ''path/a'', de_hash = ''hi'', de_len = 2 \<rparr> (sample_ws sample_disk)))
    = [PeerWrote sample_a]"
  using handle_entry_writes [of sample_ws_cfg sample_ws_env "sample_ws sample_disk" "\<lparr> de_key = ''path/a'', de_hash = ''hi'', de_len = 2 \<rparr>" sample_a]
    sample_accepts
  by (simp_all add: sample_ws_defs new_file_def)

abbreviation sample_entry :: "string \<Rightarrow> string doc_entry" where
  "sample_entry k \<equiv> \<lparr> de_key = k, de_hash = ''hi'', de_len = 2 \<rparr>"

theorem entry_stays_confined_witness:
  "\<exists>w st'. handle_entry sample_ws_cfg sample_ws_env (sample_entry ''path/a'') (sample_ws sample_disk) = (w, st')
    \<and> ws_disk st' sample_a \<noteq> sample_disk sample_a \<and> ws_writes st' = []"
proof -
  obtain w st' where h: "handle_entry sample_ws_cfg sample_ws_env (sample_entry ''path/a'') (sample_ws sample_disk) = (w, st')" by force
  have "wc_root sample_ws_cfg \<noteq> []" "\<forall>p d. we_race sample_ws_env p d = d" by (simp_all add: sample_ws_cfg_def sample_ws_env_def sample_root_def)
  with entry_stays_confined [OF this h] have "ws_writes st' = []" by (simp add: sample_ws_def)
  moreover have "sample_disk sample_a = None" by (simp add: sample_disk_def sample_a_def sample_root_def)
  ultimately show ?thesis using h sample_handle(1) by auto
qed



theorem tombstone_spares_visible_write_witness:
  "ws_disk (apply_tombstone (sample_ws_env\<lparr> we_race := \<lambda>p d. d(p \<mapsto> sample_file ''ho'') \<rparr>) sample_a
      (sample_ws (sample_disk(sample_a \<mapsto> sample_file ''hi'')))) sample_a = None
    \<and> ws_disk (apply_tombstone (sample_ws_env\<lparr> we_race := \<lambda>p d. d(p \<mapsto> sample_file ''hello'') \<rparr>) sample_a
      (sample_ws (sample_disk(sample_a \<mapsto> sample_file ''hi'')))) sample_a = Some (sample_file ''hello'')"
proof -
  let ?st = "sample_ws (sample_disk(sample_a \<mapsto> sample_file ''hi''))"
  have 1: "\<not> guards_absence sample_a (ws_guard ?st)" "ws_disk ?st sample_a = Some (sample_file ''hi'')" "nd_kind (sample_file ''hi'') = KFile ''hi''"
    by (simp_all add: sample_ws_def guards_absence_def echo_guard_new_def sample_file_def)
  have 2: "we_race (sample_ws_env\<lparr> we_race := \<lambda>p d. d(p \<mapsto> sample_file c) \<rparr>) sample_a (ws_disk ?st) =
      (ws_disk ?st)(sample_a \<mapsto> (sample_file ''hi'')\<lparr> nd_mtime := 3, nd_kind := KFile c \<rparr>)" for c
    by (simp add: sample_file_def)
  show ?thesis
    using tombstone_spares_visible_write [OF 1 2 [of "''ho''"]] tombstone_spares_visible_write [OF 1 2 [of "''hello''"]]
    by (simp add: file_len_def sample_file_def)
qed


end
