(* ===== verification/Peers.thy ===== *)
theory Peers
  imports Transfers Session
begin

text \<open>
  Who may talk to a workspace: the peer map of \<open>artel-fs/src/peer_map.rs\<close>, the connection hooks of
  \<open>peer_filter.rs\<close>, the gate of \<open>docs_gate.rs\<close> and the session id of \<open>session_id.rs\<close>.  The maps are
  association lists; the watch channel of the readiness is its value, and waiting on it is the answer \<open>None\<close>.
\<close>

datatype endpoint_id = EndpointId (eid_bits: "256 word")

definition eid_as_bytes :: "endpoint_id \<Rightarrow> byte list" where
  "eid_as_bytes e = be_bytes 32 (unat (eid_bits e))"

subsection \<open>The peer map\<close>

datatype projection_state = Initializing | Replaying | Ready | Closed

datatype author_disposition = Rw | RevokedAuthor | NotRw | Unresolvable

record peer_map =
  pm_id_map :: "(endpoint_id \<times> peer_id) list"
  pm_caps :: "(peer_id \<times> capability) list"
  pm_revoked :: "peer_id list"
  pm_host :: peer_id
  pm_readiness :: projection_state

definition with_state :: "peer_id \<Rightarrow> projection_state \<Rightarrow> peer_map" where
  "with_state h state = \<lparr> pm_id_map = [], pm_caps = [(h, ReadWrite)], pm_revoked = [], pm_host = h, pm_readiness = state \<rparr>"

definition replaying :: "peer_id \<Rightarrow> peer_map" where
  "replaying h = with_state h Initializing"

definition wait_ready :: "peer_map \<Rightarrow> bool option" where
  "wait_ready m = (case pm_readiness m of Ready \<Rightarrow> Some True | Closed \<Rightarrow> Some False | _ \<Rightarrow> None)"

definition is_ready :: "peer_map \<Rightarrow> bool" where
  "is_ready m \<longleftrightarrow> pm_readiness m = Ready"

definition is_initializing :: "peer_map \<Rightarrow> bool" where
  "is_initializing m \<longleftrightarrow> pm_readiness m = Initializing"

definition finish_replay :: "peer_map \<Rightarrow> peer_map" where
  "finish_replay m = (if pm_readiness m \<in> {Initializing, Replaying} then m\<lparr> pm_readiness := Ready \<rparr> else m)"

definition close :: "peer_map \<Rightarrow> peer_map" where
  "close m = m\<lparr> pm_readiness := Closed \<rparr>"

definition begin_replay :: "peer_map \<Rightarrow> peer_map" where
  "begin_replay m = (if pm_readiness m = Ready then m\<lparr> pm_readiness := Replaying \<rparr> else m)"

definition revoked_peers :: "peer_map \<Rightarrow> peer_id list" where
  "revoked_peers m = pm_revoked m"

definition is_revoked :: "peer_map \<Rightarrow> peer_id \<Rightarrow> bool" where
  "is_revoked m p \<longleftrightarrow> p \<in> set (pm_revoked m)"

definition is_read_only :: "peer_map \<Rightarrow> peer_id \<Rightarrow> bool" where
  "is_read_only m p \<longleftrightarrow> map_of (pm_caps m) p = Some Read"

definition register :: "endpoint_id \<Rightarrow> peer_id \<Rightarrow> peer_map \<Rightarrow> bool \<times> peer_map" where
  "register ws p m = (p \<in> set (pm_revoked m), m\<lparr> pm_id_map := AList.update ws p (pm_id_map m) \<rparr>)"

definition pm_apply_capability :: "capability_action codec \<Rightarrow> peer_id \<Rightarrow> byte list \<Rightarrow> peer_map \<Rightarrow> peer_map" where
  "pm_apply_capability pc author payload m =
    (if author \<noteq> pm_host m then m
     else case decode_cap_action pc payload of
         Inl _ \<Rightarrow> m
       | Inr (Grant p c) \<Rightarrow> m\<lparr> pm_caps := AList.update p c (pm_caps m), pm_revoked := removeAll p (pm_revoked m) \<rparr>
       | Inr (Revoke p) \<Rightarrow> m\<lparr> pm_caps := AList.delete p (pm_caps m), pm_revoked := List.insert p (pm_revoked m) \<rparr>)"

definition has_rw :: "peer_map \<Rightarrow> peer_id \<Rightarrow> bool" where
  "has_rw m p \<longleftrightarrow> map_of (pm_caps m) p = Some ReadWrite"

definition rw_peers_except_host :: "peer_map \<Rightarrow> peer_id list" where
  "rw_peers_except_host m = map fst (filter (\<lambda>(p, c). p \<noteq> pm_host m \<and> c = ReadWrite) (pm_caps m))"

definition classify_author :: "peer_map \<Rightarrow> endpoint_id \<Rightarrow> author_disposition" where
  "classify_author m ws =
    (case map_of (pm_id_map m) ws of
       None \<Rightarrow> Unresolvable
     | Some p \<Rightarrow> if has_rw m p then Rw else if p \<in> set (pm_revoked m) then RevokedAuthor else NotRw)"

definition revoked_daemon_peer :: "peer_map \<Rightarrow> endpoint_id \<Rightarrow> peer_id option" where
  "revoked_daemon_peer m ws =
    (case map_of (pm_id_map m) ws of
       None \<Rightarrow> None
     | Some p \<Rightarrow> if p \<in> set (pm_revoked m) then Some p else None)"

subsection \<open>The gates\<close>

datatype hook_outcome = Accept | Reject

datatype side = Client | Server

text \<open>The outcome, \<open>None\<close> while the hook waits, and the events it emits.\<close>

definition before_connect :: "peer_map \<Rightarrow> endpoint_id \<Rightarrow> hook_outcome option \<times> workspace_event list" where
  "before_connect m remote =
    (case wait_ready m of
       None \<Rightarrow> (None, [])
     | Some False \<Rightarrow> (Some Reject, [])
     | Some True \<Rightarrow>
         (case revoked_daemon_peer m remote of
            None \<Rightarrow> (Some Accept, [])
          | Some p \<Rightarrow> (Some Reject, [RevokedPeerBlocked p Outgoing])))"

definition after_handshake :: "peer_map \<Rightarrow> side \<Rightarrow> endpoint_id \<Rightarrow> hook_outcome option \<times> workspace_event list" where
  "after_handshake m sd remote =
    (case wait_ready m of
       None \<Rightarrow> (None, [])
     | Some False \<Rightarrow> (Some Reject, [])
     | Some True \<Rightarrow>
         if sd = Server then
           (case revoked_daemon_peer m remote of
              Some p \<Rightarrow> (Some Reject, [RevokedPeerBlocked p Incoming])
            | None \<Rightarrow> (Some Accept, []))
         else (Some Accept, []))"

definition docs_gate_accept :: "peer_map \<Rightarrow> endpoint_id \<Rightarrow> hook_outcome \<times> workspace_event list" where
  "docs_gate_accept m remote =
    (case revoked_daemon_peer m remote of
       Some p \<Rightarrow> (Reject, [RevokedPeerBlocked p Incoming])
     | None \<Rightarrow> (Accept, []))"

subsection \<open>Session ids\<close>

definition SESSION_DOMAIN_TAG :: "byte list" where
  "SESSION_DOMAIN_TAG = map of_char ''artel-fs/session-id/v1'' @ replicate 10 0"

text \<open>The keyed hash is blake3, with a 32-byte result.\<close>

definition session_id_for :: "(byte list \<Rightarrow> byte list \<Rightarrow> byte list) \<Rightarrow> byte list \<Rightarrow> session_id" where
  "session_id_for keyed_hash ns =
    (let bytes = take 16 (keyed_hash SESSION_DOMAIN_TAG ns);
         bytes = bytes[6 := or (and (bytes ! 6) 0x0F) 0x80];
         bytes = bytes[8 := or (and (bytes ! 8) 0x3F) 0x80]
     in SessionId (of_nat (from_be bytes)))"

subsection \<open>The projection\<close>

text \<open>The log as the peer map sees it: every capability message, in the order of the log.\<close>

definition pm_step :: "capability_action codec \<Rightarrow> session_message \<Rightarrow> peer_map \<Rightarrow> peer_map" where
  "pm_step pc msg m = (if m_kind msg = CapabilityKind then pm_apply_capability pc (pi_id (m_peer msg)) (m_payload msg) m else m)"

definition pm_replay :: "capability_action codec \<Rightarrow> session_message list \<Rightarrow> peer_map \<Rightarrow> peer_map" where
  "pm_replay pc log m = fold (pm_step pc) log m"

text \<open>What the host says about a peer in a message.\<close>

definition host_word :: "capability_action codec \<Rightarrow> peer_id \<Rightarrow> peer_id \<Rightarrow> session_message \<Rightarrow> capability_action option" where
  "host_word pc h p msg =
    (if m_kind msg = CapabilityKind \<and> pi_id (m_peer msg) = h
     then (case decode_cap_action pc (m_payload msg) of Inl _ \<Rightarrow> None | Inr a \<Rightarrow> if ca_peer a = p then Some a else None)
     else None)"

definition last_host_word :: "capability_action codec \<Rightarrow> peer_id \<Rightarrow> peer_id \<Rightarrow> session_message list \<Rightarrow> capability_action option" where
  "last_host_word pc h p log = (case rev (List.map_filter (host_word pc h p) log) of [] \<Rightarrow> None | a # _ \<Rightarrow> Some a)"

lemma last_host_word_snoc:
  "last_host_word pc h p (log @ [msg]) = (case host_word pc h p msg of Some a \<Rightarrow> Some a | None \<Rightarrow> last_host_word pc h p log)"
  by (simp add: last_host_word_def List.map_filter_def split: option.splits)

lemma last_host_word_Nil [simp]: "last_host_word pc h p [] = None"
  by (simp add: last_host_word_def List.map_filter_def)

lemma pm_step_same [simp]:
  "pm_host (pm_step pc msg m) = pm_host m" "pm_id_map (pm_step pc msg m) = pm_id_map m" "pm_readiness (pm_step pc msg m) = pm_readiness m"
  by (auto simp: pm_step_def pm_apply_capability_def split: sum.splits capability_action.splits)

lemma pm_replay_snoc: "pm_replay pc (log @ [msg]) m = pm_step pc msg (pm_replay pc log m)"
  by (simp add: pm_replay_def)

lemma pm_replay_Nil [simp]: "pm_replay pc [] m = m"
  by (simp add: pm_replay_def)

lemma pm_replay_host [simp]: "pm_host (pm_replay pc log m) = pm_host m"
  by (induction log rule: rev_induct) (simp_all add: pm_replay_snoc)

lemma pm_step_caps:
  "map_of (pm_caps (pm_step pc msg m)) p =
    (case host_word pc (pm_host m) p msg of None \<Rightarrow> map_of (pm_caps m) p | Some (Grant _ c) \<Rightarrow> Some c | Some (Revoke _) \<Rightarrow> None)"
  "is_revoked (pm_step pc msg m) p =
    (case host_word pc (pm_host m) p msg of None \<Rightarrow> is_revoked m p | Some (Grant _ c) \<Rightarrow> False | Some (Revoke _) \<Rightarrow> True)"
  by (auto simp: pm_step_def pm_apply_capability_def host_word_def is_revoked_def update_conv' delete_conv'
      split: sum.splits capability_action.splits if_splits)

lemma pm_replay_caps:
  "map_of (pm_caps (pm_replay pc log (with_state h st))) p =
    (case last_host_word pc h p log of
       None \<Rightarrow> if p = h then Some ReadWrite else None | Some (Grant _ c) \<Rightarrow> Some c | Some (Revoke _) \<Rightarrow> None)
    \<and> (is_revoked (pm_replay pc log (with_state h st)) p \<longleftrightarrow> (\<exists>q. last_host_word pc h p log = Some (Revoke q)))"
proof (induction log rule: rev_induct)
  case (snoc msg log)
  then show ?case
    by (auto simp: pm_replay_snoc pm_step_caps last_host_word_snoc with_state_def split: option.splits capability_action.splits)
qed (simp add: with_state_def is_revoked_def)

lemma project_step_word:
  "p \<noteq> h \<Longrightarrow> project_step pc h caps msg p =
    (case host_word pc h p msg of None \<Rightarrow> caps p | Some (Grant _ c) \<Rightarrow> Some c | Some (Revoke _) \<Rightarrow> None)"
  by (auto simp: project_step_def apply_capability_to_def host_word_def split: sum.splits capability_action.splits)

lemma project_caps_word:
  assumes "sorted (map m_seq log)" "p \<noteq> h"
  shows "project_caps pc h log p =
    (case last_host_word pc h p log of None \<Rightarrow> None | Some (Grant _ c) \<Rightarrow> Some c | Some (Revoke _) \<Rightarrow> None)"
  using assms(1)
proof (induction log rule: rev_induct)
  case (snoc msg log)
  then have "\<forall>x\<in>set log. m_seq x \<le> m_seq msg" by (auto simp: sorted_append)
  with snoc assms(2) show ?case
    by (auto simp: project_caps_snoc project_step_word last_host_word_snoc sorted_append split: option.splits)
qed (use assms(2) in simp)

subsection \<open>Properties\<close>

text \<open>The workspace and the daemon agree on capabilities.  Replaying a log in order gives every peer but
  the host the capability that the projection of the daemon gives, and a peer is revoked exactly if the
  last word of the host about it is a revocation.  For the host itself they differ: the daemon keeps the
  host read-write whatever the log says, while the peer map follows the last word of the host about itself.\<close>

theorem peer_map_projects_log:
  assumes "sorted (map m_seq log)" "m = pm_replay pc log (replaying h)"
  shows "(\<forall>p. p \<noteq> h \<longrightarrow> map_of (pm_caps m) p = project_caps pc h log p)
    \<and> (\<forall>p. is_revoked m p \<longleftrightarrow> (\<exists>q. last_host_word pc h p log = Some (Revoke q)))
    \<and> project_caps pc h log h = Some ReadWrite
    \<and> (has_rw m h \<longleftrightarrow> (case last_host_word pc h h log of None \<Rightarrow> True | Some a \<Rightarrow> (\<exists>q. a = Grant q ReadWrite)))"
  using pm_replay_caps [of pc log h Initializing] project_caps_word [OF assms(1)]
  by (auto simp: assms(2) replaying_def has_rw_def split: option.splits capability_action.splits)

text \<open>A revoked peer is blocked.  Once the last word of the host about a peer is a revocation and the
  endpoint of the peer is known, no dial to it and no connection from it is accepted, in any state of
  the replay; when the replay is complete each attempt is refused and reported.\<close>

theorem revoked_peer_blocked:
  assumes "last_host_word pc h p log = Some (Revoke p)" "map_of (pm_id_map m) e = Some p" "pm_caps m = [(h, ReadWrite)]" "pm_revoked m = []"
    "pm_host m = h" "m' = pm_replay pc log m"
  shows "fst (before_connect m' e) \<noteq> Some Accept \<and> fst (after_handshake m' Server e) \<noteq> Some Accept
    \<and> docs_gate_accept m' e = (Reject, [RevokedPeerBlocked p Incoming])
    \<and> (is_ready m' \<longrightarrow> before_connect m' e = (Some Reject, [RevokedPeerBlocked p Outgoing])
      \<and> after_handshake m' Server e = (Some Reject, [RevokedPeerBlocked p Incoming]))"
proof -
  have id: "pm_id_map (pm_replay pc log n) = pm_id_map n" for n
    by (induction log rule: rev_induct) (simp_all add: pm_replay_snoc)
  have upd: "pm_replay pc log (n\<lparr> pm_id_map := x, pm_readiness := y \<rparr>) = (pm_replay pc log n)\<lparr> pm_id_map := x, pm_readiness := y \<rparr>" for n x y
    by (induction log rule: rev_induct)
      (auto simp: pm_replay_snoc pm_step_def pm_apply_capability_def split: sum.splits capability_action.splits)
  have "m = (with_state h Ready)\<lparr> pm_id_map := pm_id_map m, pm_readiness := pm_readiness m \<rparr>"
    by (simp add: with_state_def assms(3-5))
  then have "pm_revoked m' = pm_revoked (pm_replay pc log (with_state h Ready))" using upd assms(6) by (metis peer_map.select_convs(3) peer_map.surjective peer_map.update_convs(1,5))
  moreover have "is_revoked (pm_replay pc log (with_state h Ready)) p" using pm_replay_caps [of pc log h Ready p] assms(1) by simp
  ultimately have "revoked_daemon_peer m' e = Some p" using assms(2,6) by (simp add: revoked_daemon_peer_def is_revoked_def id)
  then show ?thesis
    by (auto simp: before_connect_def after_handshake_def docs_gate_accept_def wait_ready_def is_ready_def split: projection_state.splits)
qed

abbreviation sample_pc :: "capability_action codec" where
  "sample_pc \<equiv> to_codec sd_cap_action"

definition sample_cap_message :: "u64 \<Rightarrow> peer_id \<Rightarrow> capability_action \<Rightarrow> session_message" where
  "sample_cap_message n author a = session_message_new (Seq n) 1 \<lparr> pi_id = author, pi_display_name = ''x'' \<rparr> CapabilityKind
    (action_str a) (encode_cap_action sample_pc a) SIGNATURE_UNSIGNED SIGNATURE_UNSIGNED"

lemma sample_host_word:
  "host_word sample_pc h p (sample_cap_message n author a) = (if author = h \<and> ca_peer a = p then Some a else None)"
  using decode_encode_cap_action [OF to_codec_ok [OF sd_cap_action]]
  by (simp add: host_word_def sample_cap_message_def session_message_new_def)

definition sample_cap_log :: "session_message list" where
  "sample_cap_log = [sample_cap_message 1 (PeerId 7) (Grant (PeerId 5) ReadWrite), sample_cap_message 2 (PeerId 7) (Revoke (PeerId 7)),
    sample_cap_message 3 (PeerId 6) (Revoke (PeerId 5))]"

lemma sample_last_word:
  "last_host_word sample_pc (PeerId 7) (PeerId 5) sample_cap_log = Some (Grant (PeerId 5) ReadWrite)"
  "last_host_word sample_pc (PeerId 7) (PeerId 7) sample_cap_log = Some (Revoke (PeerId 7))"
  by (simp_all add: last_host_word_def sample_cap_log_def List.map_filter_def sample_host_word)

text \<open>A member cannot revoke another one, and the host can lose its own write access in the peer map.\<close>

theorem peer_map_projects_log_witness:
  "project_caps sample_pc (PeerId 7) sample_cap_log (PeerId 5) = Some ReadWrite
    \<and> map_of (pm_caps (pm_replay sample_pc sample_cap_log (replaying (PeerId 7)))) (PeerId 5) = Some ReadWrite
    \<and> project_caps sample_pc (PeerId 7) sample_cap_log (PeerId 7) = Some ReadWrite
    \<and> \<not> has_rw (pm_replay sample_pc sample_cap_log (replaying (PeerId 7))) (PeerId 7)"
proof -
  have "sorted (map m_seq sample_cap_log)"
    by (simp add: sample_cap_log_def sample_cap_message_def session_message_new_def less_eq_seq_def)
  from peer_map_projects_log [OF this refl, where pc = sample_pc and h = "PeerId 7"]
    project_caps_word [OF this, where p = "PeerId 5" and h = "PeerId 7" and pc = sample_pc] sample_last_word
  show ?thesis by (auto split: option.splits)
qed

theorem revoked_peer_blocked_witness:
  "before_connect (pm_replay sample_pc [sample_cap_message 1 (PeerId 7) (Revoke (PeerId 5))]
      (snd (register (EndpointId 3) (PeerId 5) (with_state (PeerId 7) Ready)))) (EndpointId 3) = (Some Reject, [RevokedPeerBlocked (PeerId 5) Outgoing])"
proof -
  let ?m = "snd (register (EndpointId 3) (PeerId 5) (with_state (PeerId 7) Ready))"
  let ?log = "[sample_cap_message 1 (PeerId 7) (Revoke (PeerId 5))]"
  have "last_host_word sample_pc (PeerId 7) (PeerId 5) ?log = Some (Revoke (PeerId 5))"
    by (simp add: last_host_word_def List.map_filter_def sample_host_word)
  moreover have "map_of (pm_id_map ?m) (EndpointId 3) = Some (PeerId 5)" "pm_caps ?m = [(PeerId 7, ReadWrite)]" "pm_revoked ?m = []"
      "pm_host ?m = PeerId 7"
    by (simp_all add: register_def with_state_def)
  moreover have "is_ready (pm_replay sample_pc ?log ?m)" by (simp add: is_ready_def pm_replay_def register_def with_state_def)
  ultimately show ?thesis using revoked_peer_blocked [OF _ _ _ _ _ refl, of sample_pc "PeerId 7" "PeerId 5" ?log ?m "EndpointId 3"] by blast
qed

end
