(* ===== verification/Cap_Listener.thy ===== *)
theory Cap_Listener
  imports Peers Mirror
begin

text \<open>
  The task of \<open>artel-fs/src/workspace.rs\<close> that follows the session events of a workspace
  (\<open>spawn_cap_listener\<close>): it keeps the peer map, delivers keys and notifications to peers, signals
  rotations, and reconnects when its stream breaks.  A spawned delivery is an entry of \<open>cl_tasks\<close> that
  runs later, in any order; the requests it makes of the daemon are the trace \<open>cl_ipc\<close>.
\<close>

subsection \<open>Announcements of an endpoint\<close>

definition NODE_ID_ACTION :: string where
  "NODE_ID_ACTION = ''workspace.node_id''"

definition NODE_ID_ANNOUNCE_DOMAIN_TAG :: "byte list" where
  "NODE_ID_ANNOUNCE_DOMAIN_TAG = map of_char ''artel-fs/node-id-announce/v1''"

record node_id_announce_payload =
  na_workspace_id :: "256 word"
  na_signature :: sig_bytes

definition node_id_announce_signed_bytes :: "session_id \<Rightarrow> peer_id \<Rightarrow> endpoint_id \<Rightarrow> byte list" where
  "node_id_announce_signed_bytes sid sender ws =
    NODE_ID_ANNOUNCE_DOMAIN_TAG @ sid_as_bytes sid @ pid_as_bytes sender @ eid_as_bytes ws"

subsection \<open>State\<close>

datatype rotation_signal =
    HostEvict (he_revoked_peer: peer_id) (he_revoke_seq: seq)
  | SurvivorRotate (sv_namespace_epoch: u64) (sv_doc_ticket: string)

record redelivery_stamp =
  rs_namespace_epoch :: u64
  rs_announce_seq :: seq

datatype ipc_call =
    DeliverUpgrade peer_id "256 word"
  | DeliverDowngrade peer_id
  | DeliverRotate peer_id u64 string
  | RemoveMember peer_id

datatype delivery_task =
    TUpgrade peer_id "256 word"
  | TDowngrade peer_id
  | TRemoveMember peer_id
  | TRedeliver peer_id "256 word" string redelivery_stamp

record listener =
  cl_map :: peer_map
  cl_secret :: "256 word"
  cl_ticket :: "string \<times> u64"
  cl_redelivered :: "(peer_id \<times> redelivery_stamp) list"
  cl_signals :: "rotation_signal list"
  cl_tasks :: "delivery_task list"
  cl_ipc :: "ipc_call list"
  cl_imported :: "256 word list"
  cl_write_halted :: bool
  cl_events :: "workspace_event list"

text \<open>The context: whether this is the host, the own peer id of a joiner, postcard for the payloads, the
  checks of iroh on endpoint keys, and the answers of the daemon.\<close>

record cl_env =
  ce_session :: session_id
  ce_host :: bool
  ce_joiner :: "peer_id option"
  ce_cap_action :: "capability_action codec"
  ce_announce :: "node_id_announce_payload codec"
  ce_upgrade :: "upgrade_payload codec"
  ce_downgrade :: "downgrade_payload codec"
  ce_rotate :: "rotate_payload codec"
  ce_endpoint :: "256 word \<Rightarrow> endpoint_id option"
  ce_verify :: "endpoint_id \<Rightarrow> byte list \<Rightarrow> sig_bytes \<Rightarrow> bool"
  ce_ipc :: "ipc_call \<Rightarrow> string option"

definition cl_emit :: "workspace_event \<Rightarrow> listener \<Rightarrow> listener" where
  "cl_emit ev st = st\<lparr> cl_events := cl_events st @ [ev] \<rparr>"

definition cl_spawn :: "delivery_task \<Rightarrow> listener \<Rightarrow> listener" where
  "cl_spawn t st = st\<lparr> cl_tasks := cl_tasks st @ [t] \<rparr>"

definition cl_signal :: "rotation_signal \<Rightarrow> listener \<Rightarrow> listener" where
  "cl_signal s st = st\<lparr> cl_signals := cl_signals st @ [s] \<rparr>"

definition cl_call :: "cl_env \<Rightarrow> ipc_call \<Rightarrow> listener \<Rightarrow> bool \<times> listener" where
  "cl_call en c st = (ce_ipc en c = None, st\<lparr> cl_ipc := cl_ipc st @ [c] \<rparr>)"

subsection \<open>Redelivery\<close>

text \<open>The derived order: the epoch first.\<close>

definition stamp_le :: "redelivery_stamp \<Rightarrow> redelivery_stamp \<Rightarrow> bool" where
  "stamp_le a b \<longleftrightarrow> rs_namespace_epoch a < rs_namespace_epoch b
    \<or> rs_namespace_epoch a = rs_namespace_epoch b \<and> rs_announce_seq a \<le> rs_announce_seq b"

definition claim_redelivery :: "peer_id \<Rightarrow> redelivery_stamp \<Rightarrow> listener \<Rightarrow> bool \<times> listener" where
  "claim_redelivery p stamp st =
    (if (case map_of (cl_redelivered st) p of None \<Rightarrow> False | Some prev \<Rightarrow> stamp_le stamp prev) then (False, st)
     else (True, st\<lparr> cl_redelivered := AList.update p stamp (cl_redelivered st) \<rparr>))"

definition rollback_redelivery :: "peer_id \<Rightarrow> redelivery_stamp \<Rightarrow> listener \<Rightarrow> listener" where
  "rollback_redelivery p stamp st =
    (if map_of (cl_redelivered st) p = Some stamp then st\<lparr> cl_redelivered := AList.delete p (cl_redelivered st) \<rparr> else st)"

subsection \<open>Handlers\<close>

definition handle_node_id_message :: "cl_env \<Rightarrow> session_message \<Rightarrow> listener \<Rightarrow> listener" where
  "handle_node_id_message en msg st0 =
    (case dec (ce_announce en) (m_payload msg) of
       Inl _ \<Rightarrow> st0
     | Inr announce \<Rightarrow>
         (case ce_endpoint en (na_workspace_id announce) of
            None \<Rightarrow> st0
          | Some ws \<Rightarrow>
              let p = pi_id (m_peer msg) in
              if \<not> ce_verify en ws (node_id_announce_signed_bytes (ce_session en) p ws) (na_signature announce) then st0
              else let st = st0\<lparr> cl_map := snd (register ws p (cl_map st0)) \<rparr> in
                if ce_host en \<and> has_rw (cl_map st) p then
                  let (write_ticket, namespace_epoch) = cl_ticket st;
                      stamp = \<lparr> rs_namespace_epoch = namespace_epoch, rs_announce_seq = m_seq msg \<rparr>;
                      (claimed, st) = claim_redelivery p stamp st
                  in if claimed then cl_spawn (TRedeliver p (cl_secret st) write_ticket stamp) st else st
                else st))"

definition handle_capability_message :: "cl_env \<Rightarrow> session_message \<Rightarrow> listener \<Rightarrow> listener" where
  "handle_capability_message en msg st0 =
    (let action = decode_cap_action (ce_cap_action en) (m_payload msg);
         demote_target = (if ce_host en
           then (case action of Inr (Grant p Read) \<Rightarrow> if has_rw (cl_map st0) p then Some p else None | _ \<Rightarrow> None) else None);
         st = st0\<lparr> cl_map := pm_apply_capability (ce_cap_action en) (pi_id (m_peer msg)) (m_payload msg) (cl_map st0) \<rparr>;
         st = (if pi_id (m_peer msg) = pm_host (cl_map st)
           then (case action of Inr (Revoke p) \<Rightarrow> cl_emit (PeerRevoked p) st | _ \<Rightarrow> st) else st);
         st = (if ce_host en
           then (case action of Inr (Grant p ReadWrite) \<Rightarrow> if has_rw (cl_map st) p then cl_spawn (TUpgrade p (cl_secret st)) st else st | _ \<Rightarrow> st)
           else st);
         st = (if ce_host en then (case demote_target of Some p \<Rightarrow> cl_spawn (TDowngrade p) st | None \<Rightarrow> st) else st)
     in if ce_host en
        then (case action of Inr (Revoke p) \<Rightarrow> cl_spawn (TRemoveMember p) (cl_signal (HostEvict p (m_seq msg)) st) | _ \<Rightarrow> st)
        else st)"

text \<open>The first membership removal that fails closes the map.\<close>

fun remove_members :: "cl_env \<Rightarrow> peer_id list \<Rightarrow> listener \<Rightarrow> bool \<times> listener" where
  "remove_members en [] st = (True, st)"
| "remove_members en (p # ps) st =
    (case cl_call en (RemoveMember p) st of
       (True, st) \<Rightarrow> remove_members en ps st
     | (False, st) \<Rightarrow>
         (let st = cl_emit (EvError ''capability replay membership cleanup failed'') st
          in (False, st\<lparr> cl_map := close (cl_map st) \<rparr>)))"

definition complete_cap_replay :: "cl_env \<Rightarrow> listener \<Rightarrow> listener" where
  "complete_cap_replay en st =
    (if is_ready (cl_map st) then st
     else case (if is_initializing (cl_map st) \<and> ce_host en then remove_members en (revoked_peers (cl_map st)) st else (True, st)) of
         (True, st) \<Rightarrow> st\<lparr> cl_map := finish_replay (cl_map st) \<rparr>
       | (False, st) \<Rightarrow> st)"

datatype cap_outcome = Advanced seq | Gap | Ignored

text \<open>The handlers of a joiner act only on messages of the host that name the joiner.\<close>

definition joiner_system_message :: "cl_env \<Rightarrow> session_message \<Rightarrow> listener \<Rightarrow> listener" where
  "joiner_system_message en msg st =
    (case ce_joiner en of
       None \<Rightarrow> st
     | Some me \<Rightarrow>
         if pi_id (m_peer msg) \<noteq> pm_host (cl_map st) then st
         else if m_action msg = UPGRADE_ACTION then
           (case dec (ce_upgrade en) (m_payload msg) of
              Inr u \<Rightarrow> if up_target_peer u = me then st\<lparr> cl_imported := cl_imported st @ [up_namespace_secret u] \<rparr> else st
            | Inl _ \<Rightarrow> st)
         else if m_action msg = DOWNGRADE_ACTION then
           (case dec (ce_downgrade en) (m_payload msg) of
              Inr d \<Rightarrow> if dp_target_peer d = me then cl_emit Demoted (st\<lparr> cl_write_halted := True \<rparr>) else st
            | Inl _ \<Rightarrow> st)
         else (case dec (ce_rotate en) (m_payload msg) of
              Inr r \<Rightarrow> if rp_target_peer r = me then cl_signal (SurvivorRotate (rp_namespace_epoch r) (rp_doc_ticket r)) st else st
            | Inl _ \<Rightarrow> st))"

fun handle_cap_event :: "cl_env \<Rightarrow> event \<Rightarrow> listener \<Rightarrow> cap_outcome \<times> listener" where
  "handle_cap_event en (EvReplayComplete sid) st = (Ignored, if sid = ce_session en then complete_cap_replay en st else st)"
| "handle_cap_event en (EvMessage sid msg) st =
    (if sid \<noteq> ce_session en then (Ignored, st)
     else (Advanced (m_seq msg),
       if m_kind msg = CapabilityKind then handle_capability_message en msg st
       else if m_kind msg = System \<and> m_action msg = NODE_ID_ACTION then handle_node_id_message en msg st
       else if m_kind msg = System \<and> m_action msg \<in> {UPGRADE_ACTION, DOWNGRADE_ACTION, ROTATE_ACTION} then joiner_system_message en msg st
       else st))"
| "handle_cap_event en (EvPeerJoined sid p) st =
    (Ignored, if sid = ce_session en \<and> ce_host en \<and> has_rw (cl_map st) (pi_id p) then cl_spawn (TUpgrade (pi_id p) (cl_secret st)) st else st)"
| "handle_cap_event en (EvGap sid) st = (if sid = ce_session en then Gap else Ignored, st)"
| "handle_cap_event en _ st = (Ignored, st)"

text \<open>A spawned delivery once the readiness is decided; before that it waits (\<open>None\<close>).\<close>

fun run_task :: "cl_env \<Rightarrow> delivery_task \<Rightarrow> listener \<Rightarrow> listener option" where
  "run_task en (TUpgrade p secret) st =
    map_option (\<lambda>ready. if ready \<and> has_rw (cl_map st) p then snd (cl_call en (DeliverUpgrade p secret) st) else st) (wait_ready (cl_map st))"
| "run_task en (TDowngrade p) st =
    map_option (\<lambda>ready. if ready \<and> is_read_only (cl_map st) p then snd (cl_call en (DeliverDowngrade p) st) else st) (wait_ready (cl_map st))"
| "run_task en (TRemoveMember p) st =
    map_option (\<lambda>ready. if ready \<and> is_revoked (cl_map st) p then snd (cl_call en (RemoveMember p) st) else st) (wait_ready (cl_map st))"
| "run_task en (TRedeliver p secret ticket stamp) st =
    map_option (\<lambda>ready.
      if ready \<and> has_rw (cl_map st) p then
        let (upgrade_ok, st1) = cl_call en (DeliverUpgrade p secret) st;
            (rotate_ok, st2) = cl_call en (DeliverRotate p (rs_namespace_epoch stamp) ticket) st1
        in if upgrade_ok \<and> rotate_ok then st2 else rollback_redelivery p stamp st2
      else rollback_redelivery p stamp st) (wait_ready (cl_map st))"

subsection \<open>The loop\<close>

text \<open>Durations are milliseconds.\<close>

definition CAP_RECONNECT_BASE_DELAY :: nat where
  "CAP_RECONNECT_BASE_DELAY = 100"

definition CAP_RECONNECT_MAX_DELAY :: nat where
  "CAP_RECONNECT_MAX_DELAY = 5000"

definition CAP_RECONNECT_MAX_ATTEMPTS :: nat where
  "CAP_RECONNECT_MAX_ATTEMPTS = 16"

definition cap_reconnect_backoff :: "nat \<Rightarrow> nat option" where
  "cap_reconnect_backoff attempt =
    (if attempt \<ge> CAP_RECONNECT_MAX_ATTEMPTS then None
     else Some (if attempt \<ge> 32 then CAP_RECONNECT_MAX_DELAY else min (CAP_RECONNECT_BASE_DELAY * 2 ^ attempt) CAP_RECONNECT_MAX_DELAY))"

definition max_seq :: "seq option \<Rightarrow> seq \<Rightarrow> seq" where
  "max_seq prev s = (case prev of None \<Rightarrow> s | Some p \<Rightarrow> max p s)"

datatype reconnect_outcome = Reconnected nat | GaveUp | Cancelled

text \<open>The inner loop: \<open>ok k\<close> says whether attempt \<open>k\<close> subscribes again, \<open>cancelled k\<close> whether the shutdown
  comes during the delay before it.  The second result is the time waited.\<close>

function reconnect :: "(nat \<Rightarrow> bool) \<Rightarrow> (nat \<Rightarrow> bool) \<Rightarrow> nat \<Rightarrow> nat \<Rightarrow> reconnect_outcome \<times> nat" where
  "reconnect ok cancelled attempt waited =
    (case cap_reconnect_backoff attempt of
       None \<Rightarrow> (GaveUp, waited)
     | Some delay \<Rightarrow>
         if cancelled attempt then (Cancelled, waited)
         else if ok attempt then (Reconnected attempt, waited + delay)
         else reconnect ok cancelled (attempt + 1) (waited + delay))"
  by pat_completeness auto

termination
  by (relation "measure (\<lambda>(_, _, attempt, _). CAP_RECONNECT_MAX_ATTEMPTS - attempt)")
    (auto simp: cap_reconnect_backoff_def split: if_splits)

declare reconnect.simps [simp del]

text \<open>One stream, until it ends or reports a gap.\<close>

fun drain :: "cl_env \<Rightarrow> event list \<Rightarrow> seq option \<Rightarrow> listener \<Rightarrow> seq option \<times> listener" where
  "drain en [] seen st = (seen, st\<lparr> cl_map := begin_replay (cl_map st) \<rparr>)"
| "drain en (ev # evs) seen st =
    (case handle_cap_event en ev st of
       (Advanced s, st) \<Rightarrow> drain en evs (Some (max_seq seen s)) st
     | (Gap, st) \<Rightarrow> (seen, st\<lparr> cl_map := begin_replay (cl_map st) \<rparr>)
     | (Ignored, st) \<Rightarrow> drain en evs seen st)"

text \<open>The task: \<open>stream n since\<close> is the stream of the \<open>n\<close>-th subscription and \<open>ok n\<close> and \<open>cancelled n\<close> the
  outcomes of the attempts after it.  The first argument bounds the subscriptions, the shutdown coming after
  the last of them.  However the task ends, the map is closed.\<close>

fun cap_listener ::
  "nat \<Rightarrow> cl_env \<Rightarrow> (nat \<Rightarrow> seq option \<Rightarrow> event list) \<Rightarrow> (nat \<Rightarrow> nat \<Rightarrow> bool) \<Rightarrow> (nat \<Rightarrow> nat \<Rightarrow> bool) \<Rightarrow> nat \<Rightarrow> seq option \<Rightarrow> listener \<Rightarrow> listener" where
  "cap_listener 0 en stream ok cancelled n seen st = st\<lparr> cl_map := close (cl_map st) \<rparr>"
| "cap_listener (Suc fuel) en stream ok cancelled n seen st =
    (let (seen', st') = drain en (stream n seen) seen st in
     case fst (reconnect (ok n) (cancelled n) 0 0) of
       Reconnected _ \<Rightarrow> cap_listener fuel en stream ok cancelled (Suc n) seen' st'
     | GaveUp \<Rightarrow> (cl_emit (EvError ''cap-listener: giving up'') st')\<lparr> cl_map := close (cl_map st') \<rparr>
     | Cancelled \<Rightarrow> st'\<lparr> cl_map := close (cl_map st') \<rparr>)"

subsection \<open>Reconnecting\<close>

lemma reconnect_skip:
  assumes "\<forall>j<d. \<not> ok (k + j) \<and> \<not> cancelled (k + j)" "k + d \<le> CAP_RECONNECT_MAX_ATTEMPTS"
  shows "reconnect ok cancelled k w = reconnect ok cancelled (k + d) (w + (\<Sum>j<d. the (cap_reconnect_backoff (k + j))))"
  using assms
proof (induction d arbitrary: k w)
  case (Suc d)
  have delay: "cap_reconnect_backoff k = Some (the (cap_reconnect_backoff k))" using Suc.prems(2) by (simp add: cap_reconnect_backoff_def)
  have "reconnect ok cancelled k w = reconnect ok cancelled (k + 1) (w + the (cap_reconnect_backoff k))"
    using Suc.prems(1) delay by (subst reconnect.simps) (auto split: option.splits)
  also have "\<dots> = reconnect ok cancelled (k + 1 + d) (w + the (cap_reconnect_backoff k) + (\<Sum>j<d. the (cap_reconnect_backoff (k + 1 + j))))"
    by (rule Suc.IH) (use Suc.prems in \<open>auto simp: less_Suc_eq_0_disj\<close>)
  finally show ?case by (simp add: sum.lessThan_Suc_shift add.assoc del: sum.lessThan_Suc)
qed simp

lemma backoff_total: "(\<Sum>j<16. the (cap_reconnect_backoff j)) = 56300"
  by (simp add: cap_reconnect_backoff_def CAP_RECONNECT_MAX_ATTEMPTS_def CAP_RECONNECT_BASE_DELAY_def CAP_RECONNECT_MAX_DELAY_def
      lessThan_nat_numeral)

end
