(* ===== verification/Workspace_Ticket.thy ===== *)
theory Workspace_Ticket
  imports Rules Mirror
begin

text \<open>
  The envelope of \<open>artel-fs/src/ticket.rs\<close> around the document ticket of a workspace, with the rules of the host and
  the epoch of the namespace.  Postcard is a parameter.
\<close>

definition ENVELOPE_VERSION :: u8 where
  "ENVELOPE_VERSION = 2"

record workspace_ticket_envelope =
  wt_version :: u8
  wt_doc_ticket :: string
  wt_rules :: path_rules
  wt_namespace_epoch :: u64

definition at_epoch :: "string \<Rightarrow> path_rules \<Rightarrow> u64 \<Rightarrow> workspace_ticket_envelope" where
  "at_epoch ticket rules epoch = \<lparr> wt_version = ENVELOPE_VERSION, wt_doc_ticket = ticket, wt_rules = rules, wt_namespace_epoch = epoch \<rparr>"

definition envelope_new :: "string \<Rightarrow> path_rules \<Rightarrow> workspace_ticket_envelope" where
  "envelope_new ticket rules = at_epoch ticket rules 0"

datatype ticket_envelope_error =
    TMalformed string
  | TUnsupportedVersion u8
  | TTooLarge (tl_len: nat) (tl_max: nat)
  | TPathRules path_rules_error

definition encode_envelope ::
  "('g, 's) globs \<Rightarrow> (string \<Rightarrow> string) \<Rightarrow> workspace_ticket_envelope codec \<Rightarrow> workspace_ticket_envelope \<Rightarrow> ticket_envelope_error + byte list" where
  "encode_envelope gl nfc pc e =
    (case validate gl nfc (wt_rules e) of
       Inl x \<Rightarrow> Inl (TPathRules x)
     | Inr _ \<Rightarrow>
         (let bytes = enc pc e in
          if length bytes > WORKSPACE_TICKET_ENVELOPE_MAX then Inl (TTooLarge (length bytes) WORKSPACE_TICKET_ENVELOPE_MAX) else Inr bytes))"

definition decode_envelope ::
  "('g, 's) globs \<Rightarrow> (string \<Rightarrow> string) \<Rightarrow> workspace_ticket_envelope codec \<Rightarrow> byte list \<Rightarrow> ticket_envelope_error + workspace_ticket_envelope" where
  "decode_envelope gl nfc pc bytes =
    (case dec pc bytes of
       Inl x \<Rightarrow> Inl (TMalformed x)
     | Inr e \<Rightarrow>
         if wt_version e \<noteq> ENVELOPE_VERSION then Inl (TUnsupportedVersion (wt_version e))
         else (case validate gl nfc (wt_rules e) of Inl x \<Rightarrow> Inl (TPathRules x) | Inr _ \<Rightarrow> Inr e))"

text \<open>What the host encodes, a joiner decodes, within the size that the daemon stores and delivers.\<close>

lemma envelope_round_trip:
  assumes "codec_ok pc" "encode_envelope gl nfc pc (at_epoch ticket rules epoch) = Inr bytes"
  shows "decode_envelope gl nfc pc bytes = Inr (at_epoch ticket rules epoch)" "length bytes \<le> WORKSPACE_TICKET_ENVELOPE_MAX"
  using assms by (auto simp: encode_envelope_def decode_envelope_def at_epoch_def codec_okD Let_def split: sum.splits if_splits)

end
