(* ===== verification/Rotation.thy ===== *)
theory Rotation
  imports Cap_Listener Workspace_Files Workspace_Ticket
begin

text \<open>
  The namespace of a workspace and its rotation, from \<open>artel-fs/src/workspace.rs\<close>: the state files, opening or
  creating the document, the snapshot that is carried into a fresh namespace when a peer is evicted, the
  import of a rotated namespace by a survivor, and the task that handles the signals of the listener.
  The document store is third-party; its answers are in the record \<open>rot_env\<close>, and what is written into a
  fresh document is the trace \<open>ro_docs\<close>.
\<close>

type_synonym namespace_id = "256 word"

subsection \<open>State files\<close>

datatype state_file = DOC_ID_FILE | CURRENT_NAMESPACE_FILE | NAMESPACE_EPOCH_FILE | ROTATED_REVOKE_SEQ_FILE

type_synonym state_dir = "state_file \<Rightarrow> byte list option"

definition read_namespace_file :: "state_dir \<Rightarrow> state_file \<Rightarrow> string + namespace_id option" where
  "read_namespace_file sd f =
    (case sd f of
       None \<Rightarrow> Inr None
     | Some bytes \<Rightarrow> if length bytes = 32 then Inr (Some (of_nat (from_be bytes))) else Inl ''namespace file is corrupt'')"

definition namespace_bytes :: "namespace_id \<Rightarrow> byte list" where
  "namespace_bytes ns = be_bytes 32 (unat ns)"

definition to_le_bytes :: "u64 \<Rightarrow> byte list" where
  "to_le_bytes v = rev (be_bytes 8 (unat v))"

definition read_u64_file :: "state_dir \<Rightarrow> state_file \<Rightarrow> string + u64" where
  "read_u64_file sd f =
    (case sd f of
       None \<Rightarrow> Inr 0
     | Some bytes \<Rightarrow> if length bytes = 8 then Inr (of_nat (from_be (rev bytes))) else Inl ''file is corrupt'')"

text \<open>\<open>write_atomic\<close> replaces the file or fails.\<close>

definition write_file :: "(state_file \<Rightarrow> string option) \<Rightarrow> state_file \<Rightarrow> byte list \<Rightarrow> state_dir \<Rightarrow> string option \<times> state_dir" where
  "write_file fail f bytes sd = (case fail f of Some e \<Rightarrow> (Some e, sd) | None \<Rightarrow> (None, sd(f \<mapsto> bytes)))"

definition persist_u64 :: "(state_file \<Rightarrow> string option) \<Rightarrow> state_file \<Rightarrow> u64 \<Rightarrow> state_dir \<Rightarrow> string option \<times> state_dir" where
  "persist_u64 fail f v sd = write_file fail f (to_le_bytes v) sd"

subsection \<open>Opening the document\<close>

record opened_doc =
  od_doc :: namespace_id
  od_genesis :: namespace_id
  od_returning :: bool
  od_epoch :: u64

text \<open>\<open>create\<close> is the answer of the document store, \<open>fail\<close> says which files cannot be written or removed.\<close>

definition create_and_persist ::
  "string + namespace_id \<Rightarrow> (state_file \<Rightarrow> string option) \<Rightarrow> state_dir \<Rightarrow> (string + opened_doc) \<times> state_dir" where
  "create_and_persist create fail sd =
    (case create of
       Inl e \<Rightarrow> (Inl e, sd)
     | Inr ns \<Rightarrow>
         (case write_file fail DOC_ID_FILE (namespace_bytes ns) sd of
            (Some e, sd) \<Rightarrow> (Inl e, sd)
          | (None, sd) \<Rightarrow>
              (case fail NAMESPACE_EPOCH_FILE of
                 Some e \<Rightarrow> (Inl e, sd)
               | None \<Rightarrow> (Inr \<lparr> od_doc = ns, od_genesis = ns, od_returning = False, od_epoch = 0 \<rparr>, sd(NAMESPACE_EPOCH_FILE := None)))))"

definition open_or_create_doc ::
  "(namespace_id \<Rightarrow> bool) \<Rightarrow> string + namespace_id \<Rightarrow> (state_file \<Rightarrow> string option) \<Rightarrow> state_dir \<Rightarrow> (string + opened_doc) \<times> state_dir" where
  "open_or_create_doc opens create fail sd =
    (case read_namespace_file sd DOC_ID_FILE of
       Inl e \<Rightarrow> (Inl e, sd)
     | Inr None \<Rightarrow> create_and_persist create fail sd
     | Inr (Some genesis) \<Rightarrow>
         (case read_namespace_file sd CURRENT_NAMESPACE_FILE of
            Inl e \<Rightarrow> (Inl e, sd)
          | Inr recorded \<Rightarrow>
              let current = (case recorded of Some ns \<Rightarrow> ns | None \<Rightarrow> genesis) in
              if opens current then
                (case read_u64_file sd NAMESPACE_EPOCH_FILE of
                   Inl e \<Rightarrow> (Inl e, sd)
                 | Inr epoch \<Rightarrow> (Inr \<lparr> od_doc = current, od_genesis = genesis, od_returning = True, od_epoch = epoch \<rparr>, sd))
              else create_and_persist create fail sd))"

text \<open>The watermark of the revocations that a host already rotated for.\<close>

definition recover_revoke_seq :: "(state_file \<Rightarrow> string option) \<Rightarrow> bool \<Rightarrow> state_dir \<Rightarrow> (string + u64) \<times> state_dir" where
  "recover_revoke_seq fail returning sd =
    (if returning then (read_u64_file sd ROTATED_REVOKE_SEQ_FILE, sd)
     else case fail ROTATED_REVOKE_SEQ_FILE of
         Some e \<Rightarrow> (Inl e, sd)
       | None \<Rightarrow> (Inr 0, sd(ROTATED_REVOKE_SEQ_FILE := None)))"

subsection \<open>The snapshot\<close>

record 'h snapshot_entry =
  se_author :: "256 word"
  se_key :: string
  se_hash :: 'h
  se_len :: u64

record rotation_drop_counts =
  dc_revoked :: nat
  dc_not_rw :: nat
  dc_unresolvable :: nat

definition drop_total :: "rotation_drop_counts \<Rightarrow> nat" where
  "drop_total c = dc_revoked c + dc_not_rw c + dc_unresolvable c"

definition no_drops :: rotation_drop_counts where
  "no_drops = \<lparr> dc_revoked = 0, dc_not_rw = 0, dc_unresolvable = 0 \<rparr>"

fun count_drop :: "author_disposition \<Rightarrow> rotation_drop_counts \<Rightarrow> rotation_drop_counts" where
  "count_drop Rw c = c"
| "count_drop RevokedAuthor c = c\<lparr> dc_revoked := dc_revoked c + 1 \<rparr>"
| "count_drop NotRw c = c\<lparr> dc_not_rw := dc_not_rw c + 1 \<rparr>"
| "count_drop Unresolvable c = c\<lparr> dc_unresolvable := dc_unresolvable c + 1 \<rparr>"

text \<open>Every iteration waits for a complete projection first; \<open>maps i\<close> is the peer map it then finds, \<open>None\<close>
  when the workspace stops.\<close>

fun collect_loop ::
  "(nat \<Rightarrow> peer_map option) \<Rightarrow> (256 word \<Rightarrow> endpoint_id option) \<Rightarrow> endpoint_id \<Rightarrow> nat \<Rightarrow> (string + 'h snapshot_entry) list
    \<Rightarrow> (string \<times> 'h \<times> u64) list \<Rightarrow> rotation_drop_counts \<Rightarrow> string + (string \<times> 'h \<times> u64) list \<times> rotation_drop_counts" where
  "collect_loop maps endpoint own i [] survivors drops = Inr (survivors, drops)"
| "collect_loop maps endpoint own i (res # rs) survivors drops =
    (case maps i of
       None \<Rightarrow> Inl ''rotation stopped during capability replay''
     | Some m \<Rightarrow>
         (case res of
            Inl e \<Rightarrow> Inl e
          | Inr en \<Rightarrow>
              (case endpoint (se_author en) of
                 None \<Rightarrow> Inl ''rotate: author not an endpoint''
               | Some author \<Rightarrow>
                   if author = own \<or> classify_author m author = Rw
                   then collect_loop maps endpoint own (Suc i) rs (survivors @ [(se_key en, se_hash en, se_len en)]) drops
                   else collect_loop maps endpoint own (Suc i) rs survivors (count_drop (classify_author m author) drops))))"

definition collect_rotation_survivors ::
  "(nat \<Rightarrow> peer_map option) \<Rightarrow> (256 word \<Rightarrow> endpoint_id option) \<Rightarrow> endpoint_id \<Rightarrow> string + (string + 'h snapshot_entry) list
    \<Rightarrow> string + (string \<times> 'h \<times> u64) list \<times> rotation_drop_counts" where
  "collect_rotation_survivors maps endpoint own stream =
    (case stream of Inl e \<Rightarrow> Inl e | Inr rs \<Rightarrow> collect_loop maps endpoint own 0 rs [] no_drops)"

text \<open>An entry of the snapshot in the fresh document: a deletion stays a deletion.\<close>

definition carry_forward :: "string \<times> 'h \<times> u64 \<Rightarrow> 'h doc_write" where
  "carry_forward s = (case s of (key, hash, len) \<Rightarrow> if len = 0 then DocDel key else DocSet key hash)"

fun carry_all :: "('h doc_write \<Rightarrow> string option) \<Rightarrow> (string \<times> 'h \<times> u64) list \<Rightarrow> string option \<times> 'h doc_write list" where
  "carry_all fail [] = (None, [])"
| "carry_all fail (s # ss) =
    (case fail (carry_forward s) of
       Some e \<Rightarrow> (Some e, [])
     | None \<Rightarrow> (case carry_all fail ss of (r, ws) \<Rightarrow> (r, carry_forward s # ws)))"

subsection \<open>Rotating\<close>

datatype rot_call =
    CallRemoveMember peer_id
  | CallPublishTicket "byte list"
  | CallRotate peer_id u64 string

record 'h rotation =
  ro_files :: state_dir
  ro_epoch :: u64
  ro_watermark :: u64
  ro_doc :: namespace_id
  ro_guard :: "'h echo_guard"
  ro_secret :: "256 word"
  ro_ticket :: "string \<times> u64"
  ro_docs :: "(namespace_id \<times> 'h doc_write) list"
  ro_scans :: "namespace_id list"
  ro_ipc :: "rot_call list"
  ro_events :: "workspace_event list"

text \<open>The surroundings while one signal is handled: whether the node is up, its endpoint, the snapshot of the
  current document, the peer map at every wait (\<open>None\<close> when the workspace stops), a created namespace with
  its secret, the writes, shares, files, imports and requests that fail, the parsed tickets, and what
  encodes the envelope.  \<open>rx_ctx\<close> is absent on a joiner.\<close>

record 'h rot_env =
  rx_up :: bool
  rx_own :: endpoint_id
  rx_endpoint :: "256 word \<Rightarrow> endpoint_id option"
  rx_snapshot :: "string + (string + 'h snapshot_entry) list"
  rx_maps :: "nat \<Rightarrow> peer_map option"
  rx_wait :: "nat \<Rightarrow> peer_map option"
  rx_create :: "string + namespace_id \<times> 256 word"
  rx_write :: "'h doc_write \<Rightarrow> string option"
  rx_share_write :: "string + string"
  rx_share_read :: "string + string"
  rx_fail :: "state_file \<Rightarrow> string option"
  rx_import :: "namespace_id \<Rightarrow> string option"
  rx_parse :: "string \<Rightarrow> string + namespace_id"
  rx_ctx :: bool
  rx_encode :: "string \<Rightarrow> u64 \<Rightarrow> ticket_envelope_error + byte list"
  rx_ipc :: "rot_call \<Rightarrow> string option"

definition ro_emit :: "workspace_event \<Rightarrow> 'h rotation \<Rightarrow> 'h rotation" where
  "ro_emit ev st = st\<lparr> ro_events := ro_events st @ [ev] \<rparr>"

definition ro_call :: "'h rot_env \<Rightarrow> rot_call \<Rightarrow> 'h rotation \<Rightarrow> bool \<times> 'h rotation" where
  "ro_call en c st = (rx_ipc en c = None, st\<lparr> ro_ipc := ro_ipc st @ [c] \<rparr>)"

record rotation_outcome =
  oc_new_secret :: "256 word"
  oc_write_ticket :: string
  oc_read_ticket :: string
  oc_new_namespace :: namespace_id
  oc_new_epoch :: u64
  oc_survivor_entries :: nat
  oc_dropped_entries :: nat

text \<open>The namespace is recorded first, then the epoch.\<close>

definition record_namespace :: "'h rot_env \<Rightarrow> namespace_id \<Rightarrow> u64 \<Rightarrow> 'h rotation \<Rightarrow> string option \<times> 'h rotation" where
  "record_namespace en ns epoch st =
    (case write_file (rx_fail en) CURRENT_NAMESPACE_FILE (namespace_bytes ns) (ro_files st) of
       (Some e, _) \<Rightarrow> (Some e, st)
     | (None, sd) \<Rightarrow>
         (case persist_u64 (rx_fail en) NAMESPACE_EPOCH_FILE epoch sd of
            (e, sd) \<Rightarrow> (e, st\<lparr> ro_files := sd \<rparr>)))"

definition rotate_namespace :: "'h rot_env \<Rightarrow> u64 \<Rightarrow> 'h rotation \<Rightarrow> (string + rotation_outcome) \<times> 'h rotation" where
  "rotate_namespace en prev_epoch st0 =
    (if \<not> rx_up en then (Inl ''rotate: node already torn down'', st0)
     else case collect_rotation_survivors (rx_maps en) (rx_endpoint en) (rx_own en) (rx_snapshot en) of
         Inl e \<Rightarrow> (Inl e, st0)
       | Inr (survivors, drops) \<Rightarrow>
           let st = (if dc_unresolvable drops > 0 then ro_emit (EvError ''rotation dropped entries with an unresolvable author'') st0 else st0) in
           (case rx_create en of
              Inl e \<Rightarrow> (Inl e, st)
            | Inr (ns, secret) \<Rightarrow>
                (case carry_all (rx_write en) survivors of
                   (failed, ws) \<Rightarrow>
                     let st = st\<lparr> ro_docs := ro_docs st @ map (Pair ns) ws \<rparr> in
                     (case (failed, rx_share_write en, rx_share_read en) of
                        (Some e, _, _) \<Rightarrow> (Inl e, st)
                      | (None, Inl e, _) \<Rightarrow> (Inl e, st)
                      | (None, Inr _, Inl e) \<Rightarrow> (Inl e, st)
                      | (None, Inr wt, Inr rt) \<Rightarrow>
                          (case record_namespace en ns (prev_epoch + 1) st of
                             (Some e, st) \<Rightarrow> (Inl e, st)
                           | (None, st) \<Rightarrow>
                               (Inr \<lparr> oc_new_secret = secret, oc_write_ticket = wt, oc_read_ticket = rt, oc_new_namespace = ns,
                                  oc_new_epoch = prev_epoch + 1, oc_survivor_entries = length survivors, oc_dropped_entries = drop_total drops \<rparr>, st))))))"

datatype reimport_source = HostLocal namespace_id u64 | SurvivorTicket string u64

text \<open>The tasks of the document are respawned; only the host scans its tree into the namespace.\<close>

definition reimport_namespace :: "'h rot_env \<Rightarrow> reimport_source \<Rightarrow> 'h rotation \<Rightarrow> string option \<times> 'h rotation" where
  "reimport_namespace en source st =
    (case (case source of HostLocal ns epoch \<Rightarrow> Inr (ns, epoch) | SurvivorTicket t epoch \<Rightarrow> map_sum id (\<lambda>ns. (ns, epoch)) (rx_parse en t)) of
       Inl e \<Rightarrow> (Some e, st)
     | Inr (ns, epoch) \<Rightarrow>
         if \<not> rx_up en then (Some ''reimport: node torn down'', st)
         else case rx_import en ns of
             Some e \<Rightarrow> (Some e, st)
           | None \<Rightarrow>
               (case record_namespace en ns epoch st of
                  (Some e, st) \<Rightarrow> (Some e, st)
                | (None, st) \<Rightarrow>
                    (None, st\<lparr> ro_doc := ns, ro_guard := forget_all_published (ro_guard st),
                       ro_scans := ro_scans st @ (case source of HostLocal _ _ \<Rightarrow> [ns] | SurvivorTicket _ _ \<Rightarrow> []), ro_epoch := epoch \<rparr>)))"

fun drop_members :: "'h rot_env \<Rightarrow> peer_id list \<Rightarrow> 'h rotation \<Rightarrow> bool \<times> 'h rotation" where
  "drop_members en [] st = (True, st)"
| "drop_members en (p # ps) st =
    (case ro_call en (CallRemoveMember p) st of
       (True, st) \<Rightarrow> drop_members en ps st
     | (False, st) \<Rightarrow> (False, ro_emit (EvError ''rotation membership cleanup failed'') st))"

definition refresh_distribution_state :: "'h rot_env \<Rightarrow> rotation_outcome \<Rightarrow> 'h rotation \<Rightarrow> 'h rotation" where
  "refresh_distribution_state en oc st =
    (if \<not> rx_ctx en \<or> \<not> rx_up en then st
     else case rx_wait en 1 of
         None \<Rightarrow> st
       | Some m \<Rightarrow>
           (case drop_members en (revoked_peers m) st of
              (False, st) \<Rightarrow> st
            | (True, st) \<Rightarrow>
                if rx_wait en 2 = None then st
                else let st = st\<lparr> ro_secret := oc_new_secret oc, ro_ticket := (oc_write_ticket oc, oc_new_epoch oc) \<rparr> in
                  (case rx_encode en (oc_read_ticket oc) (oc_new_epoch oc) of
                     Inl _ \<Rightarrow> ro_emit (EvError ''rotation: encode rotated envelope failed'') st
                   | Inr bytes \<Rightarrow>
                       (case ro_call en (CallPublishTicket bytes) st of
                          (True, st) \<Rightarrow> st
                        | (False, st) \<Rightarrow> ro_emit (EvError ''rotation: re-publish ticket failed'') st))))"

text \<open>One delivery per survivor, each after another wait; a survivor that lost its capability is passed over.\<close>

fun distribute :: "'h rot_env \<Rightarrow> rotation_outcome \<Rightarrow> nat \<Rightarrow> peer_id list \<Rightarrow> 'h rotation \<Rightarrow> 'h rotation" where
  "distribute en oc i [] st = st"
| "distribute en oc i (p # ps) st =
    (case rx_wait en i of
       None \<Rightarrow> st
     | Some m \<Rightarrow>
         distribute en oc (Suc i) ps
           (if has_rw m p then snd (ro_call en (CallRotate p (oc_new_epoch oc) (oc_write_ticket oc)) st) else st))"

definition handle_host_evict :: "'h rot_env \<Rightarrow> peer_id \<Rightarrow> seq \<Rightarrow> 'h rotation \<Rightarrow> 'h rotation" where
  "handle_host_evict en revoked_peer revoke_seq st =
    (if seq_get revoke_seq \<le> ro_watermark st then st
     else if \<not> rx_up en \<or> rx_wait en 0 = None then st
     else case rotate_namespace en (ro_epoch st) st of
         (Inl e, st) \<Rightarrow> ro_emit (EvError e) st
       | (Inr oc, st) \<Rightarrow>
           let st = st\<lparr> ro_epoch := oc_new_epoch oc, ro_watermark := seq_get revoke_seq,
                 ro_files := snd (persist_u64 (rx_fail en) ROTATED_REVOKE_SEQ_FILE (seq_get revoke_seq) (ro_files st)) \<rparr>;
               st = (case reimport_namespace en (HostLocal (oc_new_namespace oc) (oc_new_epoch oc)) st of
                   (Some e, st) \<Rightarrow> ro_emit (EvError e) st | (None, st) \<Rightarrow> st);
               st = refresh_distribution_state en oc st
           in (case rx_wait en 3 of
                 None \<Rightarrow> st
               | Some m \<Rightarrow> if rx_ctx en then distribute en oc 4 (rw_peers_except_host m) st else st))"

definition handle_rotation_signal :: "'h rot_env \<Rightarrow> rotation_signal \<Rightarrow> 'h rotation \<Rightarrow> 'h rotation" where
  "handle_rotation_signal en sig st =
    (case sig of
       HostEvict p s \<Rightarrow> handle_host_evict en p s st
     | SurvivorRotate epoch ticket \<Rightarrow>
         if epoch \<le> ro_epoch st then st
         else (case reimport_namespace en (SurvivorTicket ticket epoch) st of
             (Some e, st) \<Rightarrow> ro_emit (EvError e) st
           | (None, st) \<Rightarrow> st))"

subsection \<open>Bursts of signals\<close>

fun epoch_of :: "rotation_signal \<Rightarrow> u64 option" where
  "epoch_of (SurvivorRotate e _) = Some e"
| "epoch_of (HostEvict _ _) = None"

text \<open>The closure \<open>queue\<close> on the pending rotation and the output.\<close>

definition queue_signal :: "rotation_signal \<Rightarrow> rotation_signal option \<times> rotation_signal list \<Rightarrow> rotation_signal option \<times> rotation_signal list" where
  "queue_signal sig s =
    (case s of (pending, out) \<Rightarrow>
       (case epoch_of sig of
          Some epoch \<Rightarrow>
            (if (case Option.bind pending epoch_of of None \<Rightarrow> True | Some e \<Rightarrow> epoch > e) then (Some sig, out) else (pending, out))
        | None \<Rightarrow> (None, out @ (case pending of Some r \<Rightarrow> [r] | None \<Rightarrow> []) @ [sig])))"

definition coalesce_rotation_batch :: "rotation_signal list \<Rightarrow> rotation_signal list" where
  "coalesce_rotation_batch sigs =
    (case fold queue_signal sigs (None, []) of (pending, out) \<Rightarrow> out @ (case pending of Some r \<Rightarrow> [r] | None \<Rightarrow> []))"

end
