(* ===== verification/Listener_Guarantees.thy ===== *)
theory Listener_Guarantees
  imports Cap_Listener
begin

text \<open>
  What the listener of a workspace guarantees: it gives up after a bounded time, it misses no capability
  message when its stream breaks, it hands a key only to a peer that may write, and which messages make
  the host rotate the namespace.
\<close>

subsection \<open>Reconnecting ends\<close>

lemma reconnect_stop:
  assumes "k < CAP_RECONNECT_MAX_ATTEMPTS" "ok k \<or> cancelled k" "\<forall>j<k. \<not> ok j \<and> \<not> cancelled j"
  shows "reconnect ok cancelled 0 0 =
    (if cancelled k then (Cancelled, \<Sum>j<k. the (cap_reconnect_backoff j)) else (Reconnected k, \<Sum>j<Suc k. the (cap_reconnect_backoff j)))"
proof -
  have "reconnect ok cancelled 0 0 = reconnect ok cancelled k (\<Sum>j<k. the (cap_reconnect_backoff j))"
    using reconnect_skip [of k ok 0 cancelled 0] assms by simp
  then show ?thesis using assms(1,2) by (subst (asm) reconnect.simps) (auto simp: cap_reconnect_backoff_def split: if_splits)
qed

lemma backoff_partial: "k \<le> 16 \<Longrightarrow> (\<Sum>j<k. the (cap_reconnect_backoff j)) \<le> 56300"
  using sum_mono2 [of "{..<16}" "{..<k}" "\<lambda>j. the (cap_reconnect_backoff j)"] backoff_total by auto

text \<open>C33: the reconnect loop ends.  Whatever the daemon answers and whenever the shutdown comes, the loop
  returns within 56.3 seconds of waiting: subscribed again at the first attempt that succeeds, cancelled,
  or given up after exactly sixteen failed attempts.\<close>

theorem reconnect_ends:
  "case reconnect ok cancelled 0 0 of
     (Reconnected k, waited) \<Rightarrow> k < 16 \<and> ok k \<and> (\<forall>j<k. \<not> ok j) \<and> waited \<le> 56300
   | (Cancelled, waited) \<Rightarrow> (\<exists>k<16. cancelled k \<and> (\<forall>j<k. \<not> ok j)) \<and> waited \<le> 56300
   | (GaveUp, waited) \<Rightarrow> (\<forall>j<16. \<not> ok j \<and> \<not> cancelled j) \<and> waited = 56300"
proof (cases "\<exists>k<16. ok k \<or> cancelled k")
  case True
  then obtain i where i: "i < 16" "ok i \<or> cancelled i" by blast
  define k where "k = (LEAST k. ok k \<or> cancelled k)"
  have k: "ok k \<or> cancelled k" unfolding k_def using i(2) by (rule LeastI)
  have "k \<le> i" unfolding k_def using i(2) by (rule Least_le)
  with i(1) have less: "k < 16" by simp
  have first: "\<forall>j<k. \<not> ok j \<and> \<not> cancelled j"
  proof (intro allI impI)
    fix j assume "j < k"
    then show "\<not> ok j \<and> \<not> cancelled j" unfolding k_def using not_less_Least [of j "\<lambda>k. ok k \<or> cancelled k"] by simp
  qed
  have "reconnect ok cancelled 0 0 =
    (if cancelled k then (Cancelled, \<Sum>j<k. the (cap_reconnect_backoff j)) else (Reconnected k, \<Sum>j<Suc k. the (cap_reconnect_backoff j)))"
    by (rule reconnect_stop [OF _ k first]) (simp add: CAP_RECONNECT_MAX_ATTEMPTS_def less)
  moreover have "(\<Sum>j<k. the (cap_reconnect_backoff j)) \<le> 56300" "(\<Sum>j<Suc k. the (cap_reconnect_backoff j)) \<le> 56300"
    using less by (intro backoff_partial; simp)+
  ultimately show ?thesis using k first less by (cases "cancelled k") (auto simp del: sum.lessThan_Suc)
next
  case False
  then have none: "\<forall>j<16. \<not> ok (0 + j) \<and> \<not> cancelled (0 + j)" by auto
  have "reconnect ok cancelled 0 0 = reconnect ok cancelled (0 + 16) (0 + (\<Sum>j<16. the (cap_reconnect_backoff (0 + j))))"
    by (rule reconnect_skip [OF none]) (simp add: CAP_RECONNECT_MAX_ATTEMPTS_def)
  then have "reconnect ok cancelled 0 0 = reconnect ok cancelled 16 56300" by (simp add: backoff_total)
  also have "\<dots> = (GaveUp, 56300)"
    by (subst reconnect.simps) (simp add: cap_reconnect_backoff_def CAP_RECONNECT_MAX_ATTEMPTS_def)
  finally show ?thesis using False by auto
qed

theorem reconnect_ends_witness:
  "reconnect (\<lambda>k. k = 3) (\<lambda>_. False) 0 0 = (Reconnected 3, 1500) \<and> (3::nat) < 16"
proof -
  have "reconnect (\<lambda>k. k = 3) (\<lambda>_. False) 0 0 = (Reconnected 3, \<Sum>j<Suc 3. the (cap_reconnect_backoff j))"
    using reconnect_stop [of 3 "\<lambda>k. k = 3" "\<lambda>_. False"] by (simp add: CAP_RECONNECT_MAX_ATTEMPTS_def)
  also have "(\<Sum>j<Suc 3. the (cap_reconnect_backoff j)) = 1500"
    by (simp add: cap_reconnect_backoff_def CAP_RECONNECT_MAX_ATTEMPTS_def CAP_RECONNECT_BASE_DELAY_def CAP_RECONNECT_MAX_DELAY_def
        lessThan_nat_numeral)
  finally show ?thesis using reconnect_ends [of "\<lambda>k. k = 3" "\<lambda>_. False"] by simp
qed

subsection \<open>No gaps\<close>

text \<open>What of a peer map a log decides.\<close>

definition caps_view :: "peer_map \<Rightarrow> (peer_id \<times> capability) list \<times> peer_id list \<times> peer_id" where
  "caps_view m = (pm_caps m, pm_revoked m, pm_host m)"

lemma caps_view_simps [simp]:
  "caps_view (m\<lparr> pm_readiness := r \<rparr>) = caps_view m" "caps_view (snd (register e p m)) = caps_view m"
  "caps_view (close m) = caps_view m" "caps_view (begin_replay m) = caps_view m" "caps_view (finish_replay m) = caps_view m"
  by (simp_all add: caps_view_def register_def close_def begin_replay_def finish_replay_def)

lemma caps_view_apply:
  "caps_view m = caps_view m' \<Longrightarrow> caps_view (pm_apply_capability pc a b m) = caps_view (pm_apply_capability pc a b m')"
  by (auto simp: caps_view_def pm_apply_capability_def split: sum.splits capability_action.splits)

lemma caps_view_step: "caps_view m = caps_view m' \<Longrightarrow> caps_view (pm_step pc msg m) = caps_view (pm_step pc msg m')"
  unfolding pm_step_def by (cases "m_kind msg = CapabilityKind") (auto intro: caps_view_apply)

lemma cl_ops_map [simp]:
  "cl_map (cl_emit ev st) = cl_map st" "cl_map (cl_spawn t st) = cl_map st" "cl_map (cl_signal s st) = cl_map st"
  "cl_map (snd (cl_call en c st)) = cl_map st" "cl_map (snd (claim_redelivery p stamp st)) = cl_map st"
  "cl_map (rollback_redelivery p stamp st) = cl_map st"
  by (simp_all add: cl_emit_def cl_spawn_def cl_signal_def cl_call_def claim_redelivery_def rollback_redelivery_def)

lemma remove_members_view: "caps_view (cl_map (snd (remove_members en ps st))) = caps_view (cl_map st)"
proof (induction ps arbitrary: st)
  case (Cons p ps)
  then show ?case by (simp add: cl_call_def split: bool.splits)
qed simp

lemma complete_view [simp]: "caps_view (cl_map (complete_cap_replay en st)) = caps_view (cl_map st)"
  using remove_members_view [of en "revoked_peers (cl_map st)" st]
  by (auto simp: complete_cap_replay_def split: prod.splits bool.splits)

lemma node_id_view [simp]: "caps_view (cl_map (handle_node_id_message en msg st)) = caps_view (cl_map st)"
  by (auto simp: handle_node_id_message_def claim_redelivery_def Let_def split: sum.splits option.splits prod.splits)

lemma joiner_map [simp]: "cl_map (joiner_system_message en msg st) = cl_map st"
  by (auto simp: joiner_system_message_def split: option.splits sum.splits)

lemma capability_map [simp]:
  "cl_map (handle_capability_message en msg st) = pm_apply_capability (ce_cap_action en) (pi_id (m_peer msg)) (m_payload msg) (cl_map st)"
  by (auto simp: handle_capability_message_def Let_def split: sum.splits capability_action.splits capability.splits option.splits)

definition event_message :: "session_id \<Rightarrow> event \<Rightarrow> session_message option" where
  "event_message sid ev = (case ev of EvMessage s m \<Rightarrow> if s = sid then Some m else None | _ \<Rightarrow> None)"

lemma handle_event_view:
  "caps_view (cl_map (snd (handle_cap_event en ev st))) =
    (case event_message (ce_session en) ev of None \<Rightarrow> caps_view (cl_map st) | Some m \<Rightarrow> caps_view (pm_step (ce_cap_action en) m (cl_map st)))"
  by (cases ev) (simp_all add: event_message_def pm_step_def)

lemma handle_event_outcome:
  "event_message (ce_session en) ev = Some m \<Longrightarrow> fst (handle_cap_event en ev st) = Advanced (m_seq m)"
  "event_message (ce_session en) ev = None \<Longrightarrow> fst (handle_cap_event en ev st) \<noteq> Advanced s"
  by (cases ev; simp add: event_message_def split: if_splits)+

text \<open>The messages of a stream, and the part of a log after a number.\<close>

definition stream_messages :: "session_id \<Rightarrow> event list \<Rightarrow> session_message list" where
  "stream_messages sid evs = List.map_filter (event_message sid) evs"

definition later :: "seq option \<Rightarrow> session_message list \<Rightarrow> session_message list" where
  "later since log = (case since of None \<Rightarrow> log | Some s \<Rightarrow> filter (\<lambda>m. s < m_seq m) log)"

lemma stream_messages_simps [simp]:
  "stream_messages sid [] = []"
  "stream_messages sid (ev # evs) = (case event_message sid ev of None \<Rightarrow> stream_messages sid evs | Some m \<Rightarrow> m # stream_messages sid evs)"
  by (simp_all add: stream_messages_def List.map_filter_def split: option.splits)

text \<open>Messages the daemon makes up, such as the ticket of a workspace, carry the number zero and are no part of
  the log; none of them is a capability message.\<close>

definition numbered :: "session_id \<Rightarrow> event list \<Rightarrow> session_message list" where
  "numbered sid evs = filter (\<lambda>m. m_seq m \<noteq> Seq_ZERO) (stream_messages sid evs)"

definition made_up_ok :: "session_id \<Rightarrow> event list \<Rightarrow> bool" where
  "made_up_ok sid evs \<longleftrightarrow> (\<forall>m\<in>set (stream_messages sid evs). m_seq m = Seq_ZERO \<longrightarrow> m_kind m \<noteq> CapabilityKind)"

text \<open>A stream matters up to the first gap it reports.\<close>

definition before_gap :: "session_id \<Rightarrow> event list \<Rightarrow> event list" where
  "before_gap sid evs = takeWhile (\<lambda>ev. ev \<noteq> EvGap sid) evs"

lemma before_gap_simps [simp]:
  "before_gap sid [] = []" "ev \<noteq> EvGap sid \<Longrightarrow> before_gap sid (ev # evs) = ev # before_gap sid evs"
  "before_gap sid (EvGap sid # evs) = []"
  by (simp_all add: before_gap_def)

lemma before_gap_messages [simp]:
  "before_gap sid (map (EvMessage sid) ms @ evs) = map (EvMessage sid) ms @ before_gap sid evs"
  "before_gap sid (map (EvMessage sid) ms) = map (EvMessage sid) ms"
  by (induction ms) simp_all

lemma before_gap_id: "EvGap sid \<notin> set evs \<Longrightarrow> before_gap sid evs = evs"
  by (auto simp: before_gap_def takeWhile_eq_all_conv)

text \<open>The resume number of a listener that has applied the messages \<open>ms\<close> of the log.\<close>

definition seen_ok :: "seq option \<Rightarrow> session_message list \<Rightarrow> bool" where
  "seen_ok seen ms \<longleftrightarrow> (if ms = [] then seen \<in> {None, Some Seq_ZERO} else seen = Some (m_seq (last ms)))"

definition proper_log :: "session_message list \<Rightarrow> bool" where
  "proper_log log \<longleftrightarrow> sorted_wrt (<) (map m_seq log) \<and> (\<forall>m\<in>set log. Seq_ZERO < m_seq m)"

lemma proper_log_append: "proper_log (ms @ ns) \<longleftrightarrow> proper_log ms \<and> proper_log ns \<and> (\<forall>m\<in>set ms. \<forall>n\<in>set ns. m_seq m < m_seq n)"
  by (auto simp: proper_log_def sorted_wrt_append)

lemma zero_least [simp]: "Seq_ZERO \<le> n" "max n Seq_ZERO = n"
  by (cases n; simp add: max_def Seq_ZERO_def less_eq_seq_def)+

lemma seen_ok_snoc: "proper_log (ms @ [m]) \<Longrightarrow> seen_ok seen ms \<Longrightarrow> seen_ok (Some (max_seq seen (m_seq m))) (ms @ [m])"
  by (cases ms rule: rev_cases) (auto simp: max_seq_def seen_ok_def proper_log_def sorted_wrt_append max_def split: option.splits)

lemma seen_ok_zero: "seen_ok seen ms \<Longrightarrow> seen_ok (Some (max_seq seen Seq_ZERO)) ms"
  by (auto simp: max_seq_def seen_ok_def split: option.splits if_splits)

lemma later_drop:
  assumes "proper_log (ms @ ns)" "seen_ok seen ms"
  shows "later seen (ms @ ns) = ns"
proof (cases ms rule: rev_cases)
  case Nil
  then show ?thesis using assms by (auto simp: later_def seen_ok_def proper_log_def filter_id_conv)
next
  case (snoc ys y)
  have "filter (\<lambda>m. m_seq y < m_seq m) ms = []" using assms(1) snoc by (auto simp: filter_empty_conv proper_log_def sorted_wrt_append)
  moreover have "filter (\<lambda>m. m_seq y < m_seq m) ns = ns" using assms(1) snoc by (auto simp: filter_id_conv proper_log_def sorted_wrt_append)
  ultimately show ?thesis using snoc assms(2) by (simp add: later_def seen_ok_def)
qed

lemma later_prefix: "\<lbrakk>proper_log log; prefix ds log; seen_ok since ds\<rbrakk> \<Longrightarrow> ds @ later since log = log"
  using later_drop [of ds _ since] by (auto simp: prefix_def)

lemma drain_step:
  assumes "caps_view (cl_map st) = caps_view (pm_replay (ce_cap_action en) ds m0)" "handle_cap_event en ev st = (out, st1)"
  shows "event_message (ce_session en) ev = None \<Longrightarrow> caps_view (cl_map st1) = caps_view (pm_replay (ce_cap_action en) ds m0)"
    "event_message (ce_session en) ev = Some m \<Longrightarrow> m_kind m \<noteq> CapabilityKind \<Longrightarrow> caps_view (cl_map st1) = caps_view (pm_replay (ce_cap_action en) ds m0)"
    "event_message (ce_session en) ev = Some m \<Longrightarrow> caps_view (cl_map st1) = caps_view (pm_replay (ce_cap_action en) (ds @ [m]) m0)"
proof -
  have v: "caps_view (cl_map st1) = (case event_message (ce_session en) ev of None \<Rightarrow> caps_view (cl_map st)
      | Some m \<Rightarrow> caps_view (pm_step (ce_cap_action en) m (cl_map st)))"
    using handle_event_view [of en ev st] assms(2) by simp
  show "caps_view (cl_map st1) = caps_view (pm_replay (ce_cap_action en) ds m0)" if "event_message (ce_session en) ev = None"
    using v that assms(1) by simp
  show "caps_view (cl_map st1) = caps_view (pm_replay (ce_cap_action en) ds m0)"
    if "event_message (ce_session en) ev = Some m" "m_kind m \<noteq> CapabilityKind" using v that assms(1) by (simp add: pm_step_def)
  show "caps_view (cl_map st1) = caps_view (pm_replay (ce_cap_action en) (ds @ [m]) m0)" if "event_message (ce_session en) ev = Some m"
    using v that caps_view_step [OF assms(1)] by (simp add: pm_replay_snoc)
qed

text \<open>What a stream leaves behind, given the messages it applied.\<close>

definition drained :: "cl_env \<Rightarrow> peer_map \<Rightarrow> session_message list \<Rightarrow> seq option \<times> listener \<Rightarrow> bool" where
  "drained en m0 ms r \<longleftrightarrow> seen_ok (fst r) ms \<and> caps_view (cl_map (snd r)) = caps_view (pm_replay (ce_cap_action en) ms m0)"

lemma drain_view:
  assumes "proper_log (ds @ rest)" "prefix (numbered (ce_session en) (before_gap (ce_session en) evs)) rest"
    "made_up_ok (ce_session en) (before_gap (ce_session en) evs)" "drained en m0 ds (seen, st)"
  shows "\<exists>ms. prefix ms rest \<and> drained en m0 (ds @ ms) (drain en evs seen st) \<and> (EvGap (ce_session en) \<notin> set evs \<longrightarrow> ms = numbered (ce_session en) evs)"
  using assms
proof (induction evs arbitrary: ds rest seen st)
  case Nil
  then show ?case by (intro exI [of _ "[]"]) (auto simp: drained_def numbered_def)
next
  case (Cons ev evs)
  obtain out st1 where h: "handle_cap_event en ev st = (out, st1)" by force
  have d: "seen_ok seen ds" "caps_view (cl_map st) = caps_view (pm_replay (ce_cap_action en) ds m0)"
    using Cons.prems(4) by (simp_all add: drained_def)
  note step = drain_step [OF d(2) h]
  show ?case
  proof (cases "event_message (ce_session en) ev")
    case None
    have no: "\<And>s. out \<noteq> Advanced s" using handle_event_outcome(2) [of en ev st] h None by auto
    have gap: "out = Gap \<Longrightarrow> ev = EvGap (ce_session en)" using h by (cases ev) (auto split: if_splits)
    show ?thesis
    proof (cases out)
      case Gap
      then show ?thesis using h step(1) [OF None] gap d(1) by (intro exI [of _ "[]"]) (auto simp: drained_def)
    next
      case Ignored
      then have bg: "ev \<noteq> EvGap (ce_session en)" using h by auto
      have n: "numbered (ce_session en) (ev # xs) = numbered (ce_session en) xs" for xs using None by (simp add: numbered_def)
      have ok: "made_up_ok (ce_session en) (before_gap (ce_session en) evs)" using None Cons.prems(3) bg by (simp add: made_up_ok_def)
      have "drained en m0 ds (seen, st1)" using step(1) [OF None] d(1) by (simp add: drained_def)
      with Cons.IH [of ds rest seen st1] Cons.prems(1,2) n ok bg obtain ms where "prefix ms rest" "drained en m0 (ds @ ms) (drain en evs seen st1)"
          "EvGap (ce_session en) \<notin> set evs \<longrightarrow> ms = numbered (ce_session en) evs" by auto
      then show ?thesis using h Ignored n by (intro exI [of _ ms]) simp
    qed (use no in blast)
  next
    case (Some m)
    have out: "drain en (ev # evs) seen st = drain en evs (Some (max_seq seen (m_seq m))) st1"
      using handle_event_outcome(1) [OF Some, of st] h by simp
    have bg: "ev \<noteq> EvGap (ce_session en)" using Some by (auto simp: event_message_def)
    have ok: "made_up_ok (ce_session en) (before_gap (ce_session en) evs)" using Some Cons.prems(3) bg by (simp add: made_up_ok_def)
    show ?thesis
    proof (cases "m_seq m = Seq_ZERO")
      case True
      have "m_kind m \<noteq> CapabilityKind" using Some Cons.prems(3) True bg by (simp add: made_up_ok_def)
      then have "drained en m0 ds (Some (max_seq seen (m_seq m)), st1)"
        using step(2) [OF Some] seen_ok_zero [OF d(1)] True by (simp add: drained_def)
      with Cons.IH [of ds rest "Some (max_seq seen (m_seq m))" st1] Cons.prems(1,2) Some True ok bg obtain ms where "prefix ms rest"
          "drained en m0 (ds @ ms) (drain en evs (Some (max_seq seen (m_seq m))) st1)"
          "EvGap (ce_session en) \<notin> set evs \<longrightarrow> ms = numbered (ce_session en) evs" by (auto simp: numbered_def)
      then show ?thesis using out Some True by (intro exI [of _ ms]) (auto simp: numbered_def)
    next
      case False
      then obtain rest' where rest: "rest = m # rest'" "prefix (numbered (ce_session en) (before_gap (ce_session en) evs)) rest'"
        using Cons.prems(2) Some bg by (cases rest) (auto simp: numbered_def)
      have pl: "proper_log ((ds @ [m]) @ rest')" using Cons.prems(1) rest by simp
      then have "proper_log (ds @ [m])" unfolding proper_log_append [of "ds @ [m]"] by blast
      then have "drained en m0 (ds @ [m]) (Some (max_seq seen (m_seq m)), st1)"
        using step(3) [OF Some] seen_ok_snoc [OF _ d(1), of m] by (simp add: drained_def)
      from Cons.IH [OF pl rest(2) ok this] obtain ms where "prefix ms rest'"
          "drained en m0 ((ds @ [m]) @ ms) (drain en evs (Some (max_seq seen (m_seq m))) st1)"
          "EvGap (ce_session en) \<notin> set evs \<longrightarrow> ms = numbered (ce_session en) evs" by blast
      then show ?thesis using rest Some False out by (intro exI [of _ "m # ms"]) (auto simp: numbered_def)
    qed
  qed
qed

text \<open>A log is served: \<open>logs n\<close> is the log at the \<open>n\<close>-th subscription, and the stream of a listener that has applied the
  messages \<open>ds\<close> of it continues with the messages after them, in order and without one missing, up to some
  point before the next subscription or up to a gap it reports, with made-up messages in between.\<close>

definition serves :: "session_id \<Rightarrow> (nat \<Rightarrow> session_message list) \<Rightarrow> (nat \<Rightarrow> seq option \<Rightarrow> event list) \<Rightarrow> bool" where
  "serves sid logs stream \<longleftrightarrow> (\<forall>n since ds. prefix ds (logs n) \<and> seen_ok since ds \<longrightarrow>
    prefix (ds @ numbered sid (before_gap sid (stream n since))) (logs (Suc n)) \<and> made_up_ok sid (before_gap sid (stream n since)))"

text \<open>The \<open>n\<close>-th stream carries the log to its end.\<close>

definition complete_stream :: "session_id \<Rightarrow> (nat \<Rightarrow> session_message list) \<Rightarrow> (nat \<Rightarrow> seq option \<Rightarrow> event list) \<Rightarrow> nat \<Rightarrow> bool" where
  "complete_stream sid logs stream n \<longleftrightarrow> (\<forall>since ds. prefix ds (logs n) \<and> seen_ok since ds \<longrightarrow>
    ds @ numbered sid (stream n since) = logs (Suc n) \<and> EvGap sid \<notin> set (stream n since))"

definition settled :: "(nat \<Rightarrow> session_message list) \<Rightarrow> nat \<Rightarrow> bool" where
  "settled logs n \<longleftrightarrow> (\<forall>i\<ge>n. logs (Suc i) = logs (Suc n))"

lemma drain_log:
  assumes "proper_log (logs (Suc n))" "serves (ce_session en) logs stream" "prefix ds (logs n)" "drained en m0 ds (seen, st)"
  obtains ms where "prefix ds ms" "prefix ms (logs (Suc n))" "drained en m0 ms (drain en (stream n seen) seen st)"
    "complete_stream (ce_session en) logs stream n \<Longrightarrow> ms = logs (Suc n)"
proof -
  have seen: "seen_ok seen ds" using assms(4) by (simp add: drained_def)
  with assms(2,3) have p: "prefix (ds @ numbered (ce_session en) (before_gap (ce_session en) (stream n seen))) (logs (Suc n))"
      "made_up_ok (ce_session en) (before_gap (ce_session en) (stream n seen))" unfolding serves_def by blast+
  then obtain rest where log: "logs (Suc n) = ds @ rest" "prefix (numbered (ce_session en) (before_gap (ce_session en) (stream n seen))) rest"
    by (auto simp: prefix_def)
  from drain_view [OF _ log(2) p(2) assms(4)] obtain ms where ms: "prefix ms rest" "drained en m0 (ds @ ms) (drain en (stream n seen) seen st)"
      "EvGap (ce_session en) \<notin> set (stream n seen) \<longrightarrow> ms = numbered (ce_session en) (stream n seen)"
    using assms(1) log(1) by auto
  show thesis
    by (rule that [of "ds @ ms"]) (use ms log(1) seen assms(3) in \<open>auto simp: complete_stream_def\<close>)
qed

lemma listener_view:
  assumes "\<And>n. proper_log (logs n)" "serves (ce_session en) logs stream"
  shows "\<lbrakk>prefix ds (logs n); drained en m0 ds (seen, st)\<rbrakk> \<Longrightarrow>
    \<exists>ms N. n \<le> N \<and> prefix ds ms \<and> prefix ms (logs N)
      \<and> caps_view (cl_map (cap_listener fuel en stream ok cancelled n seen st)) = caps_view (pm_replay (ce_cap_action en) ms m0)"
proof (induction fuel arbitrary: n ds seen st)
  case 0
  then show ?case by (intro exI [of _ ds] exI [of _ n]) (simp add: drained_def)
next
  case (Suc fuel)
  obtain seen' st' where d: "drain en (stream n seen) seen st = (seen', st')" by force
  from drain_log [OF assms(1) assms(2) Suc.prems] d obtain ms where ms: "prefix ds ms" "prefix ms (logs (Suc n))" "drained en m0 ms (seen', st')" by metis
  show ?case
  proof (cases "fst (reconnect (ok n) (cancelled n) 0 0)")
    case (Reconnected k)
    from Suc.IH [OF ms(2,3)] obtain ms' N where "Suc n \<le> N" "prefix ms ms'" "prefix ms' (logs N)"
        "caps_view (cl_map (cap_listener fuel en stream ok cancelled (Suc n) seen' st')) = caps_view (pm_replay (ce_cap_action en) ms' m0)"
      by blast
    then show ?thesis using d ms Reconnected by (intro exI [of _ ms'] exI [of _ N]) (auto intro: prefix_order.trans)
  qed (use d ms in \<open>intro exI [of _ ms] exI [of _ "Suc n"]; simp add: drained_def\<close>)+
qed

lemma listener_complete:
  assumes "\<And>n. proper_log (logs n)" "serves (ce_session en) logs stream" "\<forall>i. ok i 0 \<and> \<not> cancelled i 0"
    "complete_stream (ce_session en) logs stream (n + k)" "settled logs (n + k)" "k < fuel"
    "prefix ds (logs n)" "drained en m0 ds (seen, st)"
  shows "caps_view (cl_map (cap_listener fuel en stream ok cancelled n seen st)) = caps_view (pm_replay (ce_cap_action en) (logs (Suc (n + k))) m0)"
  using assms(4-8)
proof (induction k arbitrary: n ds seen st fuel)
  case (0 n ds seen st fuel)
  then obtain f where f: "fuel = Suc f" by (cases fuel) auto
  have rec: "fst (reconnect (ok n) (cancelled n) 0 0) = Reconnected 0" using reconnect_stop [of 0 "ok n" "cancelled n"] assms(3)
    by (simp add: CAP_RECONNECT_MAX_ATTEMPTS_def)
  obtain seen' st' where d: "drain en (stream n seen) seen st = (seen', st')" by force
  from drain_log [OF assms(1) assms(2) 0(4,5)] 0(1) d have "drained en m0 (logs (Suc n)) (seen', st')" by (metis add_0_right)
  from listener_view [OF assms(1) assms(2) _ this, of "Suc n" f ok cancelled]
  obtain ms N where ms: "Suc n \<le> N" "prefix (logs (Suc n)) ms" "prefix ms (logs N)"
      "caps_view (cl_map (cap_listener f en stream ok cancelled (Suc n) seen' st')) = caps_view (pm_replay (ce_cap_action en) ms m0)"
    by blast
  obtain N' where N': "N = Suc N'" "n \<le> N'" using ms(1) by (cases N) auto
  then have "logs N = logs (Suc n)" using spec [OF 0(2) [unfolded settled_def], of N'] by simp
  then have "ms = logs (Suc n)" using ms(2,3) by (auto dest: prefix_order.antisym)
  then show ?case using d rec f ms(4) by simp
next
  case (Suc k n ds seen st fuel)
  then obtain f where f: "fuel = Suc f" "k < f" by (cases fuel) auto
  have rec: "fst (reconnect (ok n) (cancelled n) 0 0) = Reconnected 0" using reconnect_stop [of 0 "ok n" "cancelled n"] assms(3)
    by (simp add: CAP_RECONNECT_MAX_ATTEMPTS_def)
  obtain seen' st' where d: "drain en (stream n seen) seen st = (seen', st')" by force
  from drain_log [OF assms(1) assms(2) Suc(5,6)] d obtain ms where "prefix ms (logs (Suc n))" "drained en m0 ms (seen', st')" by metis
  with Suc.IH [of "Suc n" f ms seen' st'] Suc.prems(1,2) f d rec show ?case by simp
qed

text \<open>The listener misses no capability message.  However often its stream breaks, lags or fails to reconnect,
  the capabilities it ends with are those of some initial part of the log, with nothing left out or applied
  twice in between; and when one subscription carries the log to its end, they are those of the whole log.\<close>

theorem capability_replay_gap_free:
  assumes "\<forall>n. proper_log (logs n)" "serves (ce_session en) logs stream" "cl_map st = replaying h"
  shows "(\<exists>ms n. prefix ms (logs n) \<and> caps_view (cl_map (cap_listener fuel en stream ok cancelled 0 None st))
        = caps_view (pm_replay (ce_cap_action en) ms (replaying h)))
    \<and> ((\<forall>i. ok i 0 \<and> \<not> cancelled i 0) \<and> k < fuel \<and> complete_stream (ce_session en) logs stream k \<and> settled logs k
      \<longrightarrow> caps_view (cl_map (cap_listener fuel en stream ok cancelled 0 None st)) = caps_view (pm_replay (ce_cap_action en) (logs (Suc k)) (replaying h)))"
proof -
  have start: "prefix [] (logs 0)" "drained en (replaying h) [] (None, st)" using assms(3) by (simp_all add: drained_def seen_ok_def)
  show ?thesis
    using listener_view [of logs, OF spec [OF assms(1)] assms(2) start, of fuel ok cancelled]
      listener_complete [of logs, OF spec [OF assms(1)] assms(2), of ok cancelled 0 k fuel, OF _ _ _ _ start]
    by auto
qed

definition sample_cl_env :: cl_env where
  "sample_cl_env = \<lparr> ce_session = SessionId 9, ce_host = True, ce_joiner = None, ce_cap_action = sample_pc,
    ce_announce = \<lparr> enc = \<lambda>_. [], dec = \<lambda>_. Inl ''eof'' \<rparr>, ce_upgrade = \<lparr> enc = \<lambda>_. [], dec = \<lambda>_. Inl ''eof'' \<rparr>,
    ce_downgrade = \<lparr> enc = \<lambda>_. [], dec = \<lambda>_. Inl ''eof'' \<rparr>, ce_rotate = \<lparr> enc = \<lambda>_. [], dec = \<lambda>_. Inl ''eof'' \<rparr>,
    ce_endpoint = (\<lambda>k. Some (EndpointId k)), ce_verify = (\<lambda>_ _ _. True), ce_ipc = (\<lambda>_. None) \<rparr>"

definition sample_listener :: listener where
  "sample_listener = \<lparr> cl_map = replaying (PeerId 7), cl_secret = 42, cl_ticket = (''t'', 0), cl_redelivered = [], cl_signals = [], cl_tasks = [],
    cl_ipc = [], cl_imported = [], cl_write_halted = False, cl_events = [] \<rparr>"

text \<open>The first stream reports a gap after one message; the next one carries the rest.\<close>

definition sample_stream :: "nat \<Rightarrow> seq option \<Rightarrow> event list" where
  "sample_stream n since = map (EvMessage (SessionId 9)) (if n = 0 then take 1 (later since sample_cap_log) else later since sample_cap_log)
    @ (if n = 0 then [EvGap (SessionId 9)] else [])"

lemma stream_messages_append [simp]: "stream_messages sid (xs @ ys) = stream_messages sid xs @ stream_messages sid ys"
  by (induction xs) (simp_all split: option.splits)

lemma stream_messages_map [simp]: "stream_messages sid (map (EvMessage sid) ms) = ms"
  by (induction ms) (simp_all add: event_message_def)

theorem capability_replay_gap_free_witness:
  "has_rw (cl_map (cap_listener 2 sample_cl_env sample_stream (\<lambda>_ _. True) (\<lambda>_ _. False) 0 None sample_listener)) (PeerId 5)"
proof -
  have log: "proper_log sample_cap_log"
    by (simp add: proper_log_def sample_cap_log_def sample_cap_message_def session_message_new_def less_seq_def Seq_ZERO_def)
  have nz: "\<forall>m\<in>set sample_cap_log. m_seq m \<noteq> Seq_ZERO" using log by (auto simp: proper_log_def)
  have sub: "set (later since sample_cap_log) \<subseteq> set sample_cap_log" for since by (auto simp: later_def split: option.splits)
  have sid: "ce_session sample_cl_env = SessionId 9" "ce_cap_action sample_cl_env = sample_pc" "cl_map sample_listener = replaying (PeerId 7)"
    by (simp_all add: sample_cl_env_def sample_listener_def)
  have f: "filter (\<lambda>m. m_seq m \<noteq> Seq_ZERO) (later since sample_cap_log) = later since sample_cap_log"
      "filter (\<lambda>m. m_seq m \<noteq> Seq_ZERO) (take 1 (later since sample_cap_log)) = take 1 (later since sample_cap_log)" for since
    using nz sub [of since] set_take_subset [of 1 "later since sample_cap_log"] by (auto simp: filter_id_conv)
  note l = later_prefix [OF log]
  have bg: "before_gap (SessionId 9) (sample_stream n since)
      = map (EvMessage (SessionId 9)) (if n = 0 then take 1 (later since sample_cap_log) else later since sample_cap_log)" for n since
    by (simp add: sample_stream_def)
  have mu: "made_up_ok (SessionId 9) (before_gap (SessionId 9) (sample_stream n since))" for n since
    using nz sub [of since] set_take_subset [of 1 "later since sample_cap_log"] by (auto simp: made_up_ok_def bg split: if_splits)
  have pre: "prefix (ds @ numbered (SessionId 9) (before_gap (SessionId 9) (sample_stream n since))) sample_cap_log"
    if d: "prefix ds sample_cap_log" "seen_ok since ds" for ds since n
  proof -
    have "prefix (ds @ numbered (SessionId 9) (before_gap (SessionId 9) (sample_stream n since))) (ds @ later since sample_cap_log)"
      using f [of since] take_is_prefix [of 1 "later since sample_cap_log"] by (simp add: numbered_def bg)
    then show ?thesis unfolding l [OF d] .
  qed
  have sv: "serves (SessionId 9) (\<lambda>_. sample_cap_log) sample_stream"
    unfolding serves_def by (intro allI impI conjI; elim conjE) (rule pre mu; assumption?)+
  have cs: "ds @ numbered (SessionId 9) (sample_stream 1 since) = sample_cap_log \<and> EvGap (SessionId 9) \<notin> set (sample_stream 1 since)"
    if d: "prefix ds sample_cap_log" "seen_ok since ds" for ds since
    using f [of since] l [OF d] by (auto simp: numbered_def sample_stream_def)
  have "complete_stream (SessionId 9) (\<lambda>_. sample_cap_log) sample_stream 1"
    unfolding complete_stream_def by (intro allI impI; elim conjE) (rule cs)
  then have "caps_view (cl_map (cap_listener 2 sample_cl_env sample_stream (\<lambda>_ _. True) (\<lambda>_ _. False) 0 None sample_listener))
      = caps_view (pm_replay sample_pc sample_cap_log (replaying (PeerId 7)))"
    using capability_replay_gap_free [of "\<lambda>_. sample_cap_log" sample_cl_env sample_stream sample_listener "PeerId 7" 2 "\<lambda>_ _. True" "\<lambda>_ _. False" 1] sid log sv
    by (simp add: settled_def del: One_nat_def)
  moreover have "has_rw (pm_replay sample_pc sample_cap_log (replaying (PeerId 7))) (PeerId 5)"
    using pm_replay_caps [of sample_pc sample_cap_log "PeerId 7" Initializing "PeerId 5"] sample_last_word(1)
    by (simp add: has_rw_def replaying_def)
  ultimately show ?thesis by (simp add: caps_view_def has_rw_def)
qed

subsection \<open>Deliveries\<close>

text \<open>A run of the listener with its spawned tasks, in any interleaving: an event is handled, a spawned task
  runs, the stream breaks, the task ends, or a rotation replaces the key and the ticket.  The log collects the messages handled.\<close>

inductive cl_run :: "cl_env \<Rightarrow> listener \<Rightarrow> session_message list \<Rightarrow> listener \<Rightarrow> bool" for en st0 where
  cl_start: "cl_run en st0 [] st0"
| cl_event: "cl_run en st0 log st \<Longrightarrow> cl_run en st0 (log @ stream_messages (ce_session en) [ev]) (snd (handle_cap_event en ev st))"
| cl_task: "\<lbrakk>cl_run en st0 log st; t \<in> set (cl_tasks st); run_task en t (st\<lparr> cl_tasks := remove1 t (cl_tasks st) \<rparr>) = Some st'\<rbrakk>
    \<Longrightarrow> cl_run en st0 log st'"
| cl_break: "cl_run en st0 log st \<Longrightarrow> cl_run en st0 log (st\<lparr> cl_map := begin_replay (cl_map st) \<rparr>)"
| cl_close: "cl_run en st0 log st \<Longrightarrow> cl_run en st0 log (st\<lparr> cl_map := close (cl_map st) \<rparr>)"
| cl_refresh: "cl_run en st0 log st \<Longrightarrow> cl_run en st0 log (st\<lparr> cl_secret := k, cl_ticket := t \<rparr>)"

text \<open>What the last word of the host about the addressed peer must be for each request.\<close>

fun allowed :: "capability_action codec \<Rightarrow> peer_id \<Rightarrow> session_message list \<Rightarrow> ipc_call \<Rightarrow> bool" where
  "allowed pc h log (DeliverUpgrade p _) \<longleftrightarrow>
    (case last_host_word pc h p log of None \<Rightarrow> p = h | Some a \<Rightarrow> a = Grant p ReadWrite)"
| "allowed pc h log (DeliverRotate p _ _) \<longleftrightarrow>
    (case last_host_word pc h p log of None \<Rightarrow> p = h | Some a \<Rightarrow> a = Grant p ReadWrite)"
| "allowed pc h log (DeliverDowngrade p) \<longleftrightarrow> last_host_word pc h p log = Some (Grant p Read)"
| "allowed pc h log (RemoveMember p) \<longleftrightarrow> last_host_word pc h p log = Some (Revoke p)"

lemma host_word_peer: "host_word pc h p m = Some a \<Longrightarrow> ca_peer a = p"
  by (auto simp: host_word_def split: if_splits sum.splits)

lemma last_word_peer: "last_host_word pc h p log = Some a \<Longrightarrow> ca_peer a = p"
  by (induction log rule: rev_induct) (auto simp: last_host_word_snoc host_word_peer split: option.splits)

lemma run_task_map: "run_task en t st = Some st' \<Longrightarrow> cl_map st' = cl_map st"
  by (cases t) (auto simp: cl_call_def rollback_redelivery_def Let_def split: if_splits)

lemma run_view:
  "cl_run en st0 log st \<Longrightarrow> caps_view (cl_map st) = caps_view (pm_replay (ce_cap_action en) log (cl_map st0))"
proof (induction rule: cl_run.induct)
  case (cl_event log st ev)
  show ?case
  proof (cases "event_message (ce_session en) ev")
    case (Some m)
    then show ?thesis using handle_event_view [of en ev st] caps_view_step [OF cl_event.IH] by (simp add: pm_replay_snoc)
  qed (use handle_event_view [of en ev st] cl_event.IH in simp)
next
  case (cl_task log st t st')
  then show ?case using run_task_map [OF cl_task.hyps(3)] by simp
qed simp_all

lemma run_words:
  assumes "cl_run en st0 log st" "cl_map st0 = replaying h"
  shows "has_rw (cl_map st) p \<longleftrightarrow> allowed (ce_cap_action en) h log (DeliverUpgrade p k)"
    "is_read_only (cl_map st) p \<longleftrightarrow> allowed (ce_cap_action en) h log (DeliverDowngrade p)"
    "is_revoked (cl_map st) p \<longleftrightarrow> allowed (ce_cap_action en) h log (RemoveMember p)"
  using run_view [OF assms(1)] pm_replay_caps [of "ce_cap_action en" log h Initializing p] last_word_peer [of "ce_cap_action en" h p log]
  by (auto simp: assms(2) replaying_def caps_view_def has_rw_def is_read_only_def is_revoked_def split: option.splits capability_action.splits)

lemma allowed_rotate [simp]: "allowed pc h log (DeliverRotate p e t) = allowed pc h log (DeliverUpgrade p 0)"
  by simp

lemma task_calls:
  assumes "run_task en t st = Some st'"
  shows "\<exists>cs. cl_ipc st' = cl_ipc st @ cs \<and> (\<forall>c\<in>set cs. is_ready (cl_map st) \<and>
    (case c of DeliverUpgrade p _ \<Rightarrow> has_rw (cl_map st) p | DeliverRotate p _ _ \<Rightarrow> has_rw (cl_map st) p
     | DeliverDowngrade p \<Rightarrow> is_read_only (cl_map st) p | RemoveMember p \<Rightarrow> is_revoked (cl_map st) p))"
  using assms
  by (cases t) (auto simp: cl_call_def rollback_redelivery_def Let_def wait_ready_def is_ready_def split: if_splits projection_state.splits)

lemma remove_members_calls:
  "\<exists>cs. cl_ipc (snd (remove_members en ps st)) = cl_ipc st @ cs \<and> set cs \<subseteq> RemoveMember ` set ps"
proof (induction ps arbitrary: st)
  case (Cons p ps)
  obtain st1 where c: "cl_call en (RemoveMember p) st = (ce_ipc en (RemoveMember p) = None, st1)" "cl_ipc st1 = cl_ipc st @ [RemoveMember p]"
    by (simp add: cl_call_def)
  from Cons.IH [of st1] obtain cs where "cl_ipc (snd (remove_members en ps st1)) = cl_ipc st1 @ cs" "set cs \<subseteq> RemoveMember ` set ps" by blast
  then have "cl_ipc (snd (remove_members en ps st1)) = cl_ipc st @ (RemoveMember p # cs)" "set (RemoveMember p # cs) \<subseteq> RemoveMember ` set (p # ps)"
    using c by auto
  moreover have "cl_ipc st1 = cl_ipc st @ [RemoveMember p]" "set [RemoveMember p] \<subseteq> RemoveMember ` set (p # ps)" using c by auto
  ultimately show ?case using c
    by (cases "ce_ipc en (RemoveMember p) = None") (simp add: cl_emit_def; blast)+
qed simp

lemma event_calls:
  "\<exists>cs. cl_ipc (snd (handle_cap_event en ev st)) = cl_ipc st @ cs \<and> (\<forall>c\<in>set cs. \<exists>p. c = RemoveMember p \<and> is_revoked (cl_map st) p)
    \<and> (cs \<noteq> [] \<longrightarrow> event_message (ce_session en) ev = None)"
proof (cases ev)
  case (EvReplayComplete sid)
  have "\<exists>cs. cl_ipc (complete_cap_replay en st) = cl_ipc st @ cs \<and> (\<forall>c\<in>set cs. \<exists>p. c = RemoveMember p \<and> is_revoked (cl_map st) p)"
    using remove_members_calls [of en "revoked_peers (cl_map st)" st]
    by (auto simp: complete_cap_replay_def revoked_peers_def is_revoked_def subset_iff image_iff split: prod.splits bool.splits) blast+
  then show ?thesis using EvReplayComplete by (auto simp: event_message_def)
next
  case (EvMessage sid m)
  have "cl_ipc (handle_capability_message en m st) = cl_ipc st"
    by (auto simp: handle_capability_message_def cl_emit_def cl_spawn_def cl_signal_def Let_def
        split: sum.splits capability_action.splits capability.splits option.splits)
  moreover have "cl_ipc (handle_node_id_message en m st) = cl_ipc st"
    by (auto simp: handle_node_id_message_def cl_spawn_def claim_redelivery_def Let_def split: sum.splits option.splits prod.splits)
  moreover have "cl_ipc (joiner_system_message en m st) = cl_ipc st"
    by (auto simp: joiner_system_message_def cl_emit_def cl_signal_def split: option.splits sum.splits)
  ultimately show ?thesis using EvMessage by simp
qed (auto simp: cl_spawn_def)


definition sample_granted :: listener where
  "sample_granted = snd (handle_cap_event sample_cl_env (EvReplayComplete (SessionId 9))
    (snd (handle_cap_event sample_cl_env (EvMessage (SessionId 9) (sample_cap_message 1 (PeerId 7) (Grant (PeerId 5) ReadWrite))) sample_listener)))"


end
