(* ===== verification/Slots.thy ===== *)
theory Slots
  imports Registry "HOL-Library.Multiset"
begin

text \<open>
  \<open>SessionSlots\<close> of \<open>artel-daemon/src/gossip_bridge.rs\<close>: the table of gossip subscriptions, with the
  reserve and finalize protocol that orders a subscription against another one and against a
  teardown of the same session.  A payload is a spawned forwarder.  The tasks that subscribe and
  tear down interleave: one call of the table is one step.
\<close>

subsection \<open>The table\<close>

datatype 'a slot = Reserved u64 | Live 'a

record 'a slots =
  sl_inner :: "(session_id \<times> 'a slot) list"
  sl_next_generation :: u64

record slot_reservation =
  rv_session :: session_id
  rv_generation :: u64

definition slots_new :: "'a slots" where
  "slots_new = \<lparr> sl_inner = [], sl_next_generation = 0 \<rparr>"

definition reserve :: "session_id \<Rightarrow> 'a slots \<Rightarrow> slot_reservation option \<times> 'a slots" where
  "reserve sid s =
    (let generation = sl_next_generation s; s' = s\<lparr> sl_next_generation := generation + 1 \<rparr> in
     if map_of (sl_inner s) sid \<noteq> None then (None, s')
     else (Some \<lparr> rv_session = sid, rv_generation = generation \<rparr>,
       s'\<lparr> sl_inner := AList.update sid (Reserved generation) (sl_inner s) \<rparr>))"

definition map_live :: "session_id \<Rightarrow> ('a \<Rightarrow> 'r) \<Rightarrow> 'a slots \<Rightarrow> 'r option" where
  "map_live sid f s = (case map_of (sl_inner s) sid of Some (Live p) \<Rightarrow> Some (f p) | _ \<Rightarrow> None)"

definition forget :: "session_id \<Rightarrow> 'a slots \<Rightarrow> 'a option \<times> 'a slots" where
  "forget sid s =
    (case map_of (sl_inner s) sid of Some (Live p) \<Rightarrow> Some p | _ \<Rightarrow> None,
     s\<lparr> sl_inner := AList.delete sid (sl_inner s) \<rparr>)"

definition finalize :: "slot_reservation \<Rightarrow> 'a \<Rightarrow> 'a slots \<Rightarrow> ('a + unit) \<times> 'a slots" where
  "finalize r p s =
    (if map_of (sl_inner s) (rv_session r) = Some (Reserved (rv_generation r))
     then (Inr (), s\<lparr> sl_inner := AList.update (rv_session r) (Live p) (sl_inner s) \<rparr>)
     else (Inl p, s))"

definition drop_reservation :: "slot_reservation \<Rightarrow> 'a slots \<Rightarrow> 'a slots" where
  "drop_reservation r s =
    (if map_of (sl_inner s) (rv_session r) = Some (Reserved (rv_generation r))
     then s\<lparr> sl_inner := AList.delete (rv_session r) (sl_inner s) \<rparr> else s)"

subsection \<open>Subscriptions and teardowns, interleaved\<close>

text \<open>The world: the table, the subscriptions that hold a reservation, the forwarders that were
  spawned and those that were aborted.  A subscription ends by finalizing with the forwarder it
  spawned, which it aborts when the table hands it back, or by failing before the spawn.\<close>

record 'a slot_world =
  sw_slots :: "'a slots"
  sw_pending :: "slot_reservation list"
  sw_spawned :: "'a list"
  sw_aborted :: "'a list"

datatype 'a slot_op =
    SubscribeBegin session_id
  | SubscribeEnd slot_reservation 'a
  | SubscribeFail slot_reservation
  | Teardown session_id

inductive slot_step :: "'a slot_world \<Rightarrow> 'a slot_op \<Rightarrow> 'a slot_world \<Rightarrow> bool" where
  claimed: "reserve sid (sw_slots w) = (Some r, s) \<Longrightarrow>
    slot_step w (SubscribeBegin sid) (w\<lparr> sw_slots := s, sw_pending := r # sw_pending w \<rparr>)"
| backed_off: "reserve sid (sw_slots w) = (None, s) \<Longrightarrow> slot_step w (SubscribeBegin sid) (w\<lparr> sw_slots := s \<rparr>)"
| installed: "\<lbrakk>r \<in> set (sw_pending w); finalize r p (sw_slots w) = (Inr (), s)\<rbrakk> \<Longrightarrow>
    slot_step w (SubscribeEnd r p)
      (w\<lparr> sw_slots := s, sw_pending := remove1 r (sw_pending w), sw_spawned := p # sw_spawned w \<rparr>)"
| superseded: "\<lbrakk>r \<in> set (sw_pending w); finalize r p (sw_slots w) = (Inl q, s)\<rbrakk> \<Longrightarrow>
    slot_step w (SubscribeEnd r p)
      (w\<lparr> sw_slots := drop_reservation r s, sw_pending := remove1 r (sw_pending w),
        sw_spawned := p # sw_spawned w, sw_aborted := q # sw_aborted w \<rparr>)"
| failed: "r \<in> set (sw_pending w) \<Longrightarrow>
    slot_step w (SubscribeFail r)
      (w\<lparr> sw_slots := drop_reservation r (sw_slots w), sw_pending := remove1 r (sw_pending w) \<rparr>)"
| torn_down: "forget sid (sw_slots w) = (x, s) \<Longrightarrow>
    slot_step w (Teardown sid)
      (w\<lparr> sw_slots := s, sw_aborted := (case x of None \<Rightarrow> [] | Some p \<Rightarrow> [p]) @ sw_aborted w \<rparr>)"

inductive slot_trace :: "'a slot_world \<Rightarrow> 'a slot_op list \<Rightarrow> 'a slot_world \<Rightarrow> bool" where
  none: "slot_trace w [] w"
| more: "\<lbrakk>slot_trace w ops w'; slot_step w' op w''\<rbrakk> \<Longrightarrow> slot_trace w (ops @ [op]) w''"

inductive_cases slot_stepE: "slot_step w op w'"

definition world_new :: "'a slot_world" where
  "world_new = \<lparr> sw_slots = slots_new, sw_pending = [], sw_spawned = [], sw_aborted = [] \<rparr>"

fun live_of :: "'a slot \<Rightarrow> 'a multiset" where
  "live_of (Live p) = {#p#}"
| "live_of (Reserved _) = {#}"

text \<open>The forwarders that run.\<close>

definition live_forwarders :: "'a slots \<Rightarrow> 'a multiset" where
  "live_forwarders s = (\<Sum>(sid, x)\<leftarrow>sl_inner s. live_of x)"

subsection \<open>No forwarder is lost\<close>

lemma live_update:
  assumes "distinct (map fst xs)"
  shows "(\<Sum>(k, x)\<leftarrow>AList.update sid y xs. live_of x) + (case map_of xs sid of None \<Rightarrow> {#} | Some x \<Rightarrow> live_of x)
    = (\<Sum>(k, x)\<leftarrow>xs. live_of x) + live_of y"
  using assms by (induction xs) (auto simp: union_ac)

lemma live_delete:
  assumes "distinct (map fst xs)"
  shows "(\<Sum>(k, x)\<leftarrow>AList.delete sid xs. live_of x) + (case map_of xs sid of None \<Rightarrow> {#} | Some x \<Rightarrow> live_of x)
    = (\<Sum>(k, x)\<leftarrow>xs. live_of x)"
  using assms
proof (induction xs)
  case (Cons a xs)
  then show ?case
    by (cases a) (auto simp: union_ac delete_simps delete_id split: option.splits dest: weak_map_of_SomeI)
qed simp

definition accounted :: "'a slot_world \<Rightarrow> bool" where
  "accounted w \<longleftrightarrow> distinct (map fst (sl_inner (sw_slots w)))
    \<and> mset (sw_spawned w) = live_forwarders (sw_slots w) + mset (sw_aborted w)"

lemma accounted_step:
  assumes "accounted w" "slot_step w op w'"
  shows "accounted w'"
proof -
  let ?xs = "sl_inner (sw_slots w)"
  have d: "distinct (map fst ?xs)" using assms(1) by (simp add: accounted_def)
  note up = live_update [OF d] and del = live_delete [OF d]
  from assms(2) show ?thesis
  proof cases
    case (claimed sid r s)
    then have "map_of ?xs sid = None" by (auto simp: reserve_def Let_def split: if_splits)
    from up [of sid "Reserved (sl_next_generation (sw_slots w))", unfolded this] claimed assms(1) show ?thesis
      by (auto simp: accounted_def reserve_def live_forwarders_def Let_def distinct_update split: if_splits)
  next
    case (backed_off sid s)
    with assms(1) show ?thesis by (auto simp: accounted_def reserve_def live_forwarders_def Let_def split: if_splits)
  next
    case (installed r p s)
    with assms(1) up [of "rv_session r" "Live p"] show ?thesis
      by (auto simp: accounted_def finalize_def live_forwarders_def distinct_update split: if_splits)
  next
    case (superseded r p q s)
    then have "s = sw_slots w" "q = p" "map_of ?xs (rv_session r) \<noteq> Some (Reserved (rv_generation r))"
      by (auto simp: finalize_def split: if_splits)
    with assms(1) superseded(2) show ?thesis by (simp add: accounted_def drop_reservation_def)
  next
    case (failed r)
    with assms(1) del [of "rv_session r"] show ?thesis
      by (auto simp: accounted_def drop_reservation_def live_forwarders_def distinct_delete)
  next
    case (torn_down sid x s)
    then have s: "sl_inner s = AList.delete sid ?xs" "x = (case map_of ?xs sid of Some (Live p) \<Rightarrow> Some p | _ \<Rightarrow> None)"
      by (auto simp: forget_def)
    have "mset (case x of None \<Rightarrow> [] | Some p \<Rightarrow> [p]) = (case map_of ?xs sid of None \<Rightarrow> {#} | Some x \<Rightarrow> live_of x)"
      by (simp add: s(2) split: option.splits slot.splits)
    with assms(1) del [of sid] torn_down(2) s(1) show ?thesis
      by (simp add: accounted_def live_forwarders_def distinct_delete union_ac)
  qed
qed

lemma accounted_trace: "slot_trace w ops w' \<Longrightarrow> accounted w \<Longrightarrow> accounted w'"
  by (induction rule: slot_trace.induct) (auto intro: accounted_step)

subsection \<open>A teardown defeats the subscriptions in flight\<close>

text \<open>Generations below the next one, while the counter has not wrapped around.\<close>

definition generations_below :: "'a slot_world \<Rightarrow> bool" where
  "generations_below w \<longleftrightarrow> (\<forall>r\<in>set (sw_pending w). rv_generation r < sl_next_generation (sw_slots w))"

lemma next_generation_step:
  assumes "slot_step w op w'" "sl_next_generation (sw_slots w) \<noteq> u64_MAX"
  shows "sl_next_generation (sw_slots w) \<le> sl_next_generation (sw_slots w')"
    "unat (sl_next_generation (sw_slots w')) \<le> Suc (unat (sl_next_generation (sw_slots w)))"
  using assms less_add_1 [OF assms(2)] unat_add_1 [OF assms(2)]
  by (auto elim!: slot_stepE simp: reserve_def finalize_def drop_reservation_def forget_def Let_def split: if_splits)

lemma generations_step:
  assumes "generations_below w" "slot_step w op w'" "sl_next_generation (sw_slots w) \<noteq> u64_MAX"
  shows "generations_below w'"
proof -
  have up: "sl_next_generation (sw_slots w) \<le> sl_next_generation (sw_slots w')" by (rule next_generation_step [OF assms(2,3)])
  have "rv_generation r < sl_next_generation (sw_slots w')" if "r \<in> set (sw_pending w')" for r
  proof (cases "r \<in> set (sw_pending w)")
    case True
    then show ?thesis using assms(1) up by (auto simp: generations_below_def intro: less_le_trans)
  next
    case False
    then show ?thesis using assms(2) that less_add_1 [OF assms(3)]
      by (auto elim!: slot_stepE simp: reserve_def Let_def dest: notin_set_remove1 split: if_splits)
  qed
  then show ?thesis by (simp add: generations_below_def)
qed

text \<open>A reservation that lost its slot never gets it back.\<close>

definition lost :: "slot_reservation \<Rightarrow> 'a slot_world \<Rightarrow> bool" where
  "lost r w \<longleftrightarrow> map_of (sl_inner (sw_slots w)) (rv_session r) \<noteq> Some (Reserved (rv_generation r))"

lemma lost_step:
  assumes "slot_step w op w'" "lost r w" "rv_generation r < sl_next_generation (sw_slots w)"
  shows "lost r w'"
  using assms
  by (auto elim!: slot_stepE simp: lost_def reserve_def finalize_def drop_reservation_def forget_def Let_def
      update_conv' delete_conv' split: if_splits)

lemma torn_down_lost: "slot_step w (Teardown (rv_session r)) w' \<Longrightarrow> lost r w'"
  by (auto elim!: slot_stepE simp: lost_def forget_def delete_conv')

lemma below_max: "unat x < 2 ^ 64 - 1 \<Longrightarrow> x \<noteq> u64_MAX"
  by (auto simp: u64_MAX_def unsigned_minus_1_eq_mask mask_eq_exp_minus_1)

lemma trace_generations:
  assumes "slot_trace w ops w'" "generations_below w" "unat (sl_next_generation (sw_slots w)) + length ops < 2 ^ 64 - 1"
  shows "generations_below w' \<and> sl_next_generation (sw_slots w) \<le> sl_next_generation (sw_slots w')
    \<and> unat (sl_next_generation (sw_slots w')) \<le> unat (sl_next_generation (sw_slots w)) + length ops"
  using assms
proof (induction rule: slot_trace.induct)
  case (more w ops w' op w'')
  then have ih: "generations_below w'" "sl_next_generation (sw_slots w) \<le> sl_next_generation (sw_slots w')"
      "unat (sl_next_generation (sw_slots w')) \<le> unat (sl_next_generation (sw_slots w)) + length ops" by simp_all
  with more.prems have "sl_next_generation (sw_slots w') \<noteq> u64_MAX" by (intro below_max) simp
  from next_generation_step [OF more(2) this] generations_step [OF ih(1) more(2) this] ih show ?case by simp
qed simp

lemma trace_lost:
  assumes "slot_trace w ops w'" "generations_below w" "unat (sl_next_generation (sw_slots w)) + length ops < 2 ^ 64 - 1"
    and "rv_generation r < sl_next_generation (sw_slots w)" "lost r w \<or> Teardown (rv_session r) \<in> set ops"
  shows "lost r w'"
  using assms
proof (induction rule: slot_trace.induct)
  case (more w ops w' op w'')
  have "sl_next_generation (sw_slots w) \<le> sl_next_generation (sw_slots w')"
    using trace_generations [OF more(1) more.prems(1)] more.prems(2) by simp
  with more.prems(3) have g: "rv_generation r < sl_next_generation (sw_slots w')" by simp
  show ?case
  proof (cases "op = Teardown (rv_session r)")
    case True
    with more(2) show ?thesis by (simp add: torn_down_lost)
  next
    case False
    then have "lost r w'" using more.IH more.prems by auto
    then show ?thesis by (rule lost_step [OF more(2) _ g])
  qed
qed simp

lemma world_new_facts: "generations_below world_new" "unat (sl_next_generation (sw_slots world_new)) = 0" "accounted world_new"
  by (simp_all add: generations_below_def world_new_def slots_new_def accounted_def live_forwarders_def)

text \<open>C13: a subscription cannot outlive the teardown of its session.  Interleave any subscriptions
  and teardowns; if a subscription holds a reservation when its session is torn down, finalizing
  it later gives the forwarder back to be aborted and changes nothing, even if the session was
  reserved again in between.  At every moment each spawned forwarder is either the live one of
  its slot or was aborted: none is leaked.  (Shorter than the wrap-around of the generations.)\<close>

theorem teardown_defeats_subscription:
  assumes "slot_trace world_new ops1 w1" "r \<in> set (sw_pending w1)" "slot_trace w1 ops2 w2"
    and "Teardown (rv_session r) \<in> set ops2" "length ops1 + length ops2 < 2 ^ 64 - 1"
  shows "finalize r p (sw_slots w2) = (Inl p, sw_slots w2)
    \<and> mset (sw_spawned w2) = live_forwarders (sw_slots w2) + mset (sw_aborted w2)"
proof -
  note new = world_new_facts
  have "0 + length ops1 < 2 ^ 64 - 1" using assms(5) by linarith
  from trace_generations [OF assms(1) new(1), unfolded new(2), OF this] assms(5)
  have g: "generations_below w1" "unat (sl_next_generation (sw_slots w1)) + length ops2 < 2 ^ 64 - 1" by linarith+
  with assms(2) have "rv_generation r < sl_next_generation (sw_slots w1)" by (simp add: generations_below_def)
  from trace_lost [OF assms(3) g this] assms(4) have "lost r w2" by simp
  moreover have "accounted w2"
    by (rule accounted_trace [OF assms(3) accounted_trace [OF assms(1) new(3)]])
  ultimately show ?thesis by (simp add: lost_def finalize_def accounted_def)
qed

theorem teardown_defeats_subscription_witness:
  "\<exists>w1 w2 r. slot_trace world_new [SubscribeBegin (SessionId 9)] w1 \<and> r \<in> set (sw_pending w1)
    \<and> slot_trace w1 [Teardown (SessionId 9), SubscribeBegin (SessionId 9)] w2
    \<and> finalize r (5 :: nat) (sw_slots w2) = (Inl 5, sw_slots w2)"
proof -
  let ?r = "\<lambda>g. \<lparr> rv_session = SessionId 9, rv_generation = g \<rparr>"
  let ?w = "\<lambda>xs g rs. \<lparr> sw_slots = \<lparr> sl_inner = xs, sl_next_generation = g \<rparr>, sw_pending = rs, sw_spawned = [], sw_aborted = [] \<rparr>
    :: nat slot_world"
  have a: "slot_trace world_new ([] @ [SubscribeBegin (SessionId 9)]) (?w [(SessionId 9, Reserved 0)] 1 [?r 0])"
    by (rule slot_trace.more [OF slot_trace.none], use slot_step.claimed [of "SessionId 9" world_new "?r 0"] in
        \<open>simp add: reserve_def world_new_def slots_new_def Let_def\<close>)
  have b: "slot_trace (?w [(SessionId 9, Reserved 0)] 1 [?r 0]) (([] @ [Teardown (SessionId 9)]) @ [SubscribeBegin (SessionId 9)])
      (?w [(SessionId 9, Reserved 1)] 2 [?r 1, ?r 0])"
    by (rule slot_trace.more [OF slot_trace.more [OF slot_trace.none]],
        use slot_step.torn_down [of "SessionId 9" "?w [(SessionId 9, Reserved 0)] 1 [?r 0]" None] in \<open>simp add: forget_def\<close>,
        use slot_step.claimed [of "SessionId 9" "?w [] 1 [?r 0]" "?r 1"] in \<open>simp add: reserve_def Let_def\<close>)
  from teardown_defeats_subscription [OF a _ b, of "?r 0" 5] a b show ?thesis
    by (intro exI [of _ "?w [(SessionId 9, Reserved 0)] 1 [?r 0]"] exI [of _ "?w [(SessionId 9, Reserved 1)] 2 [?r 1, ?r 0]"]
        exI [of _ "?r 0"]) simp
qed

end
