(* ===== verification/Bridge.thy ===== *)
theory Bridge
  imports Sync Slots
begin

text \<open>
  The gossip bridge, \<open>artel-daemon/src/gossip_bridge.rs\<close>: the frames it publishes, the dispatch of
  inbound frames by role, and both ends of a remote send.  The registry's calls into the bridge
  are performed in the order the registry makes them.  The gossip transport is not modelled: a
  published frame is its bytes in the trace \<open>b_broadcast\<close>, an inbound frame is an argument
  together with the authenticated id of the peer that delivered it.
\<close>

subsection \<open>State\<close>

datatype session_role = RoleHost | RoleJoiner (role_host_pubkey: peer_id)

text \<open>What the bridge hands to iroh's address lookup: the arguments of \<open>EndpointAddr::new\<close>,
  \<open>with_relay_url\<close> and \<open>with_ip_addr\<close>.\<close>

record addr_hint =
  ah_id :: peer_id
  ah_relay_url :: "string option"
  ah_ip_addrs :: "socket_addr list"

record ('s, 'k) bridge =
  b_registry :: "('s, 'k) registry"
  b_attached :: bool
  b_sessions :: "(session_id \<times> session_role) list"
  b_watermarks :: "(session_id \<times> u64) list"
  b_pending_sends :: "128 word list"
  b_resolved :: "(128 word \<times> ack_result) list"
  b_tracked_peer_ids :: "peer_id set"
  b_authenticated_peer_id :: peer_id
  b_signing_key :: 'k
  b_addr_hint :: "addr_hint list"
  b_broadcast :: "(session_id \<times> byte list) list"

record 'k bridge_env =
  be_env :: "'k env"
  be_frame :: "gossip_body codec"
  be_message :: "session_message codec"
  be_error :: "protocol_error codec"

definition be_ed :: "'k bridge_env \<Rightarrow> 'k ed25519" where
  "be_ed be = e_ed (be_env be)"

definition watermark :: "('s, 'k) bridge \<Rightarrow> session_id \<Rightarrow> u64" where
  "watermark b sid = (case map_of (b_watermarks b) sid of None \<Rightarrow> 0 | Some w \<Rightarrow> w)"

definition topic_for :: "session_id \<Rightarrow> byte list" where
  "topic_for sid = sid_as_bytes sid @ replicate 16 0"

subsection \<open>Published frames\<close>

text \<open>Nothing is published for a session without a live slot.\<close>

definition publish :: "'k bridge_env \<Rightarrow> session_id \<Rightarrow> gossip_body \<Rightarrow> ('s, 'k) bridge \<Rightarrow> ('s, 'k) bridge" where
  "publish be sid body b =
    (case map_of (b_sessions b) sid of
       None \<Rightarrow> b
     | Some _ \<Rightarrow> b\<lparr> b_broadcast := b_broadcast b @ [(sid, encode_frame (be_frame be) body)] \<rparr>)"

definition publish_message :: "'k bridge_env \<Rightarrow> session_id \<Rightarrow> session_message \<Rightarrow> ('s, 'k) bridge \<Rightarrow> ('s, 'k) bridge" where
  "publish_message be sid m = publish be sid (GMessage m)"

definition publish_replay :: "'k bridge_env \<Rightarrow> session_id \<Rightarrow> seq \<Rightarrow> ('s, 'k) bridge \<Rightarrow> ('s, 'k) bridge" where
  "publish_replay be sid since = publish be sid (GReplay since)"

definition publish_session_closed :: "'k bridge_env \<Rightarrow> session_id \<Rightarrow> u64 \<Rightarrow> ('s, 'k) bridge \<Rightarrow> ('s, 'k) bridge" where
  "publish_session_closed be sid host_epoch b =
    publish be sid (GSessionClosed host_epoch (sign_ctrl (be_ed be) (b_signing_key b) sid Close host_epoch)) b"

definition publish_epoch_beacon :: "'k bridge_env \<Rightarrow> session_id \<Rightarrow> u64 \<Rightarrow> ('s, 'k) bridge \<Rightarrow> ('s, 'k) bridge" where
  "publish_epoch_beacon be sid host_epoch b =
    publish be sid (GEpochBeacon host_epoch (sign_ctrl (be_ed be) (b_signing_key b) sid Beacon host_epoch)) b"

definition publish_join_announcement ::
  "'k bridge_env \<Rightarrow> u64 \<Rightarrow> session_id \<Rightarrow> peer_info \<Rightarrow> cap_claim \<Rightarrow> ('s, 'k) bridge \<Rightarrow> ('s, 'k) bridge" where
  "publish_join_announcement be now sid peer c b =
    publish be sid (GJoinAnnouncement (peer\<lparr> pi_id := b_authenticated_peer_id b \<rparr>) now (cc_ticket_id c)
      (cc_granted_cap c) (cc_expiry_ms c) (cc_host_epoch c) (cc_cap_sig c)) b"

definition publish_send_ack ::
  "'k bridge_env \<Rightarrow> session_id \<Rightarrow> 128 word \<Rightarrow> ack_result \<Rightarrow> ('s, 'k) bridge \<Rightarrow> ('s, 'k) bridge" where
  "publish_send_ack be sid req_id result b =
    publish be sid (GSendAck req_id result
      (sign_ack (be_ed be) (be_message be) (be_error be) (b_signing_key b) sid req_id result)) b"

definition forget_session :: "session_id \<Rightarrow> ('s, 'k) bridge \<Rightarrow> ('s, 'k) bridge" where
  "forget_session sid b = b\<lparr> b_sessions := AList.delete sid (b_sessions b),
    b_watermarks := AList.delete sid (b_watermarks b) \<rparr>"

text \<open>A subscription that succeeds, as host or as joiner; a live slot makes it a no-op.\<close>

definition subscribe_role :: "session_id \<Rightarrow> session_role \<Rightarrow> u64 \<Rightarrow> ('s, 'k) bridge \<Rightarrow> ('s, 'k) bridge" where
  "subscribe_role sid role mark b =
    (if map_of (b_sessions b) sid \<noteq> None then b
     else b\<lparr> b_sessions := AList.update sid role (b_sessions b),
       b_watermarks := (case role of RoleHost \<Rightarrow> b_watermarks b
         | RoleJoiner _ \<Rightarrow> AList.update sid mark (b_watermarks b)) \<rparr>)"

definition bridge_new :: "('s, 'k) registry \<Rightarrow> peer_id set \<Rightarrow> peer_id \<Rightarrow> 'k \<Rightarrow> ('s, 'k) bridge" where
  "bridge_new r tracked endpoint_id key = \<lparr> b_registry = r, b_attached = False, b_sessions = [], b_watermarks = [],
    b_pending_sends = [], b_resolved = [], b_tracked_peer_ids = tracked, b_authenticated_peer_id = endpoint_id,
    b_signing_key = key, b_addr_hint = [], b_broadcast = [] \<rparr>"

definition attach_registry :: "('s, 'k) registry \<Rightarrow> ('s, 'k) bridge \<Rightarrow> ('s, 'k) bridge" where
  "attach_registry r b = b\<lparr> b_registry := r, b_attached := True \<rparr>"

text \<open>The subscription with its outcome: \<open>topic\<close> is what iroh answers when the topic is asked for.\<close>

definition subscribe_inner ::
  "bridge_error + unit \<Rightarrow> session_id \<Rightarrow> session_role \<Rightarrow> u64 \<Rightarrow> ('s, 'k) bridge \<Rightarrow> (bridge_error + unit) \<times> ('s, 'k) bridge" where
  "subscribe_inner topic sid role mark b =
    (if map_of (b_sessions b) sid \<noteq> None then (Inr (), b)
     else case topic of Inl e \<Rightarrow> (Inl e, b) | Inr _ \<Rightarrow> (Inr (), subscribe_role sid role mark b))"

definition host_session :: "bridge_error + unit \<Rightarrow> session_id \<Rightarrow> ('s, 'k) bridge \<Rightarrow> (bridge_error + unit) \<times> ('s, 'k) bridge" where
  "host_session topic sid b = subscribe_inner topic sid RoleHost 0 b"

text \<open>The parsers of iroh: an endpoint id from its bytes, a relay url from its text.\<close>

record iroh_api =
  ia_endpoint_id :: "byte list \<Rightarrow> string + unit"
  ia_relay_url :: "string \<Rightarrow> string + unit"

definition wire_addr_to_iroh :: "iroh_api \<Rightarrow> wire_endpoint_addr \<Rightarrow> string + addr_hint" where
  "wire_addr_to_iroh ia addr =
    (case ia_endpoint_id ia (pid_as_bytes (wa_peer_id addr)) of
       Inl e \<Rightarrow> Inl (''peer id: '' @ e)
     | Inr _ \<Rightarrow>
         if wa_relay_url addr = [] then Inr \<lparr> ah_id = wa_peer_id addr, ah_relay_url = None, ah_ip_addrs = wa_direct_addrs addr \<rparr>
         else (case ia_relay_url ia (wa_relay_url addr) of
             Inl e \<Rightarrow> Inl (''relay_url: '' @ e)
           | Inr _ \<Rightarrow> Inr \<lparr> ah_id = wa_peer_id addr, ah_relay_url = Some (wa_relay_url addr),
               ah_ip_addrs = wa_direct_addrs addr \<rparr>))"

definition seed_addr_hint :: "iroh_api \<Rightarrow> peer_id \<Rightarrow> wire_endpoint_addr \<Rightarrow> ('s, 'k) bridge \<Rightarrow> (bridge_error + unit) \<times> ('s, 'k) bridge" where
  "seed_addr_hint ia host_peer host_addr b =
    (if wa_relay_url host_addr \<noteq> [] \<or> wa_direct_addrs host_addr \<noteq> []
     then (case wire_addr_to_iroh ia host_addr of
         Inl e \<Rightarrow> (Inl (BInvalidAddr e), b)
       | Inr h \<Rightarrow> (Inr (), b\<lparr> b_tracked_peer_ids := insert (ah_id h) (b_tracked_peer_ids b), b_addr_hint := b_addr_hint b @ [h] \<rparr>))
     else (Inr (), b\<lparr> b_tracked_peer_ids := insert host_peer (b_tracked_peer_ids b) \<rparr>))"

definition join_session ::
  "'k bridge_env \<Rightarrow> iroh_api \<Rightarrow> (peer_id \<Rightarrow> peer_id \<Rightarrow> string) \<Rightarrow> u64 \<Rightarrow> bridge_error + unit \<Rightarrow> session_id \<Rightarrow> peer_info \<Rightarrow> peer_id
    \<Rightarrow> wire_endpoint_addr \<Rightarrow> u64 \<Rightarrow> cap_claim \<Rightarrow> ('s, 'k) bridge \<Rightarrow> (bridge_error + unit) \<times> ('s, 'k) bridge" where
  "join_session be ia mismatch now topic sid joiner host_peer host_addr mark claim b =
    (case ia_endpoint_id ia (pid_as_bytes host_peer) of
       Inl e \<Rightarrow> (Inl (BIroh (''bad host peer id: '' @ e)), b)
     | Inr _ \<Rightarrow>
         if wa_peer_id host_addr \<noteq> host_peer then (Inl (BInvalidAddr (mismatch (wa_peer_id host_addr) host_peer)), b)
         else (case seed_addr_hint ia host_peer host_addr b of
             (Inl e, b1) \<Rightarrow> (Inl e, b1)
           | (Inr _, b1) \<Rightarrow>
               (case subscribe_inner topic sid (RoleJoiner host_peer) mark b1 of
                  (Inl e, b2) \<Rightarrow> (Inl e, b2)
                | (Inr _, b2) \<Rightarrow>
                    (Inr (), publish_replay be sid Seq_ZERO (publish_join_announcement be now sid joiner claim b2)))))"

definition resubscribe_session ::
  "'k bridge_env \<Rightarrow> iroh_api \<Rightarrow> bridge_error + unit \<Rightarrow> session_id \<Rightarrow> peer_id \<Rightarrow> u64 \<Rightarrow> ('s, 'k) bridge
    \<Rightarrow> (bridge_error + unit) \<times> ('s, 'k) bridge" where
  "resubscribe_session be ia topic sid host_peer mark b =
    (case ia_endpoint_id ia (pid_as_bytes host_peer) of
       Inl e \<Rightarrow> (Inl (BIroh (''bad host peer id: '' @ e)), b)
     | Inr _ \<Rightarrow>
         (case subscribe_inner topic sid (RoleJoiner host_peer) mark
             (b\<lparr> b_tracked_peer_ids := insert host_peer (b_tracked_peer_ids b) \<rparr>) of
            (Inl e, b1) \<Rightarrow> (Inl e, b1)
          | (Inr _, b1) \<Rightarrow> (Inr (), publish_replay be sid Seq_ZERO b1)))"

subsection \<open>Calls from the registry\<close>

fun perform_call :: "'k bridge_env \<Rightarrow> bridge_call \<Rightarrow> ('s, 'k) bridge \<Rightarrow> ('s, 'k) bridge" where
  "perform_call be (CallPublishMessage sid m) b = publish_message be sid m b"
| "perform_call be (CallPublishSessionClosed sid e) b = publish_session_closed be sid e b"
| "perform_call be (CallPublishEpochBeacon sid e) b = publish_epoch_beacon be sid e b"
| "perform_call be (CallForgetSession sid) b = forget_session sid b"
| "perform_call be (CallHostSession sid) b = subscribe_role sid RoleHost 0 b"
| "perform_call be _ b = b"

text \<open>Run a registry operation and then the calls it made.\<close>

definition with_registry ::
  "'k bridge_env \<Rightarrow> (('s, 'k) registry \<Rightarrow> 'a \<times> ('s, 'k) registry) \<Rightarrow> ('s, 'k) bridge \<Rightarrow> 'a \<times> ('s, 'k) bridge" where
  "with_registry be f b =
    (let (x, r) = f ((b_registry b)\<lparr> r_outbox := [] \<rparr>) in
     (x, fold (perform_call be) (r_outbox r) (b\<lparr> b_registry := r \<rparr>)))"

subsection \<open>The host's arms\<close>

definition peer_id_matches_delivered_from :: "peer_id \<Rightarrow> peer_id \<Rightarrow> bool" where
  "peer_id_matches_delivered_from body_peer_id delivered_from \<longleftrightarrow> pid_as_bytes body_peer_id = pid_as_bytes delivered_from"

definition drop_if_spoofed :: "peer_id \<Rightarrow> peer_id \<Rightarrow> bool" where
  "drop_if_spoofed peer_id delivered_from \<longleftrightarrow> \<not> peer_id_matches_delivered_from peer_id delivered_from"

definition track_authenticated_peer :: "peer_id \<Rightarrow> ('s, 'k) bridge \<Rightarrow> ('s, 'k) bridge" where
  "track_authenticated_peer p b = b\<lparr> b_tracked_peer_ids := insert p (b_tracked_peer_ids b) \<rparr>"

text \<open>What the surroundings decide while a frame is handled: the clock, the answer a nested remote
  send would get, whether \<open>try_lock\<close> finds the mirror's lock free, and the free permits.\<close>

record surroundings =
  su_now :: u64
  su_answer :: "bridge_error + session_message"
  su_locked :: bool
  su_free :: nat

definition run_host_send ::
  "'k bridge_env \<Rightarrow> 's store_ops \<Rightarrow> surroundings \<Rightarrow> session_id \<Rightarrow> peer_info \<Rightarrow> signed_send_payload \<Rightarrow> ('s, 'k) bridge
    \<Rightarrow> ack_result \<times> ('s, 'k) bridge" where
  "run_host_send be ops su sid peer p b =
    (if \<not> b_attached b then (Inl (PInternal ''daemon shutting down''), b)
     else let (res, b') = with_registry be (send (be_env be) ops (su_now su) sid peer (ssp_kind p) (ssp_action p) (ssp_payload p)
         (ARemote (ssp_timestamp_ms p) (ssp_signature p)) (su_answer su)) b
       in (case res of Inr m \<Rightarrow> Inr m | Inl e \<Rightarrow> Inl (to_protocol_error e), b'))"

definition run_host_replay :: "'k bridge_env \<Rightarrow> session_id \<Rightarrow> seq \<Rightarrow> ('s, 'k) bridge \<Rightarrow> ('s, 'k) bridge" where
  "run_host_replay be sid since b =
    (if \<not> b_attached b then b
     else case log_since (b_registry b) sid since of
       Inl _ \<Rightarrow> b
     | Inr ms \<Rightarrow> fold (publish_message be sid) ms b)"

definition host_send_request ::
  "'k bridge_env \<Rightarrow> 's store_ops \<Rightarrow> surroundings \<Rightarrow> session_id \<Rightarrow> peer_id \<Rightarrow> 128 word \<Rightarrow> peer_info \<Rightarrow> signed_send_payload
    \<Rightarrow> ('s, 'k) bridge \<Rightarrow> ('s, 'k) bridge" where
  "host_send_request be ops su sid from_peer req_id peer p b =
    (if drop_if_spoofed (pi_id peer) from_peer then b
     else let (result, b') = run_host_send be ops su sid peer p (track_authenticated_peer from_peer b)
       in publish_send_ack be sid req_id result b')"

definition host_join_announcement ::
  "'k bridge_env \<Rightarrow> 's store_ops \<Rightarrow> surroundings \<Rightarrow> session_id \<Rightarrow> peer_id \<Rightarrow> peer_info \<Rightarrow> cap_claim
    \<Rightarrow> ('s, 'k) bridge \<Rightarrow> ('s, 'k) bridge" where
  "host_join_announcement be ops su sid from_peer peer claim b =
    (if drop_if_spoofed (pi_id peer) from_peer then b
     else let b1 = track_authenticated_peer from_peer b in
       if \<not> b_attached b1 then b1
       else case with_registry be (ensure_member (be_env be) ops (su_now su) sid peer (Some claim)) b1 of
           (Inr _, b2) \<Rightarrow> run_host_replay be sid Seq_ZERO b2
         | (Inl _, b2) \<Rightarrow> b2)"

definition host_replay ::
  "'k bridge_env \<Rightarrow> session_id \<Rightarrow> peer_id \<Rightarrow> seq \<Rightarrow> ('s, 'k) bridge \<Rightarrow> ('s, 'k) bridge" where
  "host_replay be sid from_peer since b =
    (if \<not> b_attached b then b
     else if is_member (b_registry b) sid from_peer \<noteq> Some True then b
     else run_host_replay be sid since (track_authenticated_peer from_peer b))"

subsection \<open>The joiner's arms\<close>

definition joiner_session_closed ::
  "'k bridge_env \<Rightarrow> 's store_ops \<Rightarrow> session_id \<Rightarrow> peer_id \<Rightarrow> peer_id \<Rightarrow> u64 \<Rightarrow> sig_bytes
    \<Rightarrow> ('s, 'k) bridge \<Rightarrow> ('s, 'k) bridge" where
  "joiner_session_closed be ops sid from_peer host_pubkey host_epoch host_sig b =
    (if verify_ctrl (be_ed be) host_pubkey sid Close host_epoch host_sig \<noteq> Inr () then b
     else if host_epoch < watermark b sid then b
     else let b1 = track_authenticated_peer from_peer b in
       if \<not> b_attached b1 then b1 else snd (with_registry be (host_closed_session ops sid) b1))"

definition joiner_epoch_beacon ::
  "'k bridge_env \<Rightarrow> 's store_ops \<Rightarrow> session_id \<Rightarrow> peer_id \<Rightarrow> peer_id \<Rightarrow> u64 \<Rightarrow> sig_bytes
    \<Rightarrow> ('s, 'k) bridge \<Rightarrow> ('s, 'k) bridge" where
  "joiner_epoch_beacon be ops sid from_peer host_pubkey host_epoch host_sig b =
    (if verify_ctrl (be_ed be) host_pubkey sid Beacon host_epoch host_sig \<noteq> Inr () then b
     else let b1 = track_authenticated_peer from_peer b in
       if host_epoch \<le> watermark b1 sid then b1
       else if \<not> b_attached b1 then b1
       else case with_registry be (advance_host_epoch_watermark ops sid host_epoch) b1 of
           (Inl _, b2) \<Rightarrow> b2
         | (Inr _, b2) \<Rightarrow> b2\<lparr> b_watermarks := AList.update sid (max (watermark b2 sid) host_epoch) (b_watermarks b2) \<rparr>)"

definition joiner_send_ack ::
  "'k bridge_env \<Rightarrow> session_id \<Rightarrow> peer_id \<Rightarrow> peer_id \<Rightarrow> 128 word \<Rightarrow> ack_result \<Rightarrow> sig_bytes
    \<Rightarrow> ('s, 'k) bridge \<Rightarrow> ('s, 'k) bridge" where
  "joiner_send_ack be sid from_peer host_pubkey req_id result host_sig b =
    (if verify_ack (be_ed be) (be_message be) (be_error be) host_pubkey sid req_id result host_sig \<noteq> Inr () then b
     else let b1 = track_authenticated_peer from_peer b in
       if req_id \<in> set (b_pending_sends b1)
       then b1\<lparr> b_pending_sends := filter (\<lambda>q. q \<noteq> req_id) (b_pending_sends b1),
         b_resolved := b_resolved b1 @ [(req_id, result)] \<rparr>
       else b1)"

definition joiner_message ::
  "'k bridge_env \<Rightarrow> 's store_ops \<Rightarrow> surroundings \<Rightarrow> session_id \<Rightarrow> peer_id \<Rightarrow> session_message
    \<Rightarrow> ('s, 'k) bridge \<Rightarrow> ('s, 'k) bridge" where
  "joiner_message be ops su sid from_peer m b =
    (let b1 = track_authenticated_peer from_peer b;
         locked = (if su_locked su then map_option s_log (get_session (b_registry b1) sid) else None)
     in case mirror_on_message_with_budget MIRROR_APPLY_BUDGET_BYTES locked (su_free su) m of
         None \<Rightarrow> b1
       | Some _ \<Rightarrow> snd (with_registry be (\<lambda>r. ((), apply_inbound_mirror_message (be_env be) ops sid m r)) b1))"

subsection \<open>Dispatch\<close>

fun handle_inbound_frame ::
  "'k bridge_env \<Rightarrow> 's store_ops \<Rightarrow> surroundings \<Rightarrow> session_id \<Rightarrow> session_role \<Rightarrow> peer_id \<Rightarrow> gossip_body
    \<Rightarrow> ('s, 'k) bridge \<Rightarrow> ('s, 'k) bridge" where
  "handle_inbound_frame be ops su sid RoleHost from_peer (GSendRequest req_id peer p) b =
    host_send_request be ops su sid from_peer req_id peer p b"
| "handle_inbound_frame be ops su sid RoleHost from_peer (GJoinAnnouncement peer ts tid cap expiry host_epoch cap_sig) b =
    host_join_announcement be ops su sid from_peer peer \<lparr> cc_ticket_id = tid, cc_granted_cap = cap, cc_expiry_ms = expiry,
      cc_host_epoch = host_epoch, cc_cap_sig = cap_sig \<rparr> b"
| "handle_inbound_frame be ops su sid RoleHost from_peer (GReplay since) b = host_replay be sid from_peer since b"
| "handle_inbound_frame be ops su sid RoleHost from_peer _ b = b"
| "handle_inbound_frame be ops su sid (RoleJoiner h) from_peer (GSessionClosed host_epoch host_sig) b =
    joiner_session_closed be ops sid from_peer h host_epoch host_sig b"
| "handle_inbound_frame be ops su sid (RoleJoiner h) from_peer (GMessage m) b = joiner_message be ops su sid from_peer m b"
| "handle_inbound_frame be ops su sid (RoleJoiner h) from_peer (GSendAck req_id result host_sig) b =
    joiner_send_ack be sid from_peer h req_id result host_sig b"
| "handle_inbound_frame be ops su sid (RoleJoiner h) from_peer (GEpochBeacon host_epoch host_sig) b =
    joiner_epoch_beacon be ops sid from_peer h host_epoch host_sig b"
| "handle_inbound_frame be ops su sid (RoleJoiner h) from_peer _ b = b"

text \<open>The forwarder of a session: a frame is decoded and handled in the role of the live slot.\<close>

definition forward ::
  "'k bridge_env \<Rightarrow> 's store_ops \<Rightarrow> surroundings \<Rightarrow> session_id \<Rightarrow> peer_id \<Rightarrow> byte list \<Rightarrow> ('s, 'k) bridge \<Rightarrow> ('s, 'k) bridge" where
  "forward be ops su sid from_peer content b =
    (case map_of (b_sessions b) sid of
       None \<Rightarrow> b
     | Some role \<Rightarrow>
         (case decode_frame (be_frame be) content of
            Inl _ \<Rightarrow> b
          | Inr body \<Rightarrow> handle_inbound_frame be ops su sid role from_peer body b))"

subsection \<open>Remote sends\<close>

text \<open>Before the await: \<^const>\<open>None\<close> is the panic of the canonical bytes, \<open>sent\<close> says whether the
  topic took the frame.\<close>

definition send_remote_begin ::
  "'k bridge_env \<Rightarrow> u64 \<Rightarrow> 128 word \<Rightarrow> bool \<Rightarrow> session_id \<Rightarrow> peer_info \<Rightarrow> message_kind \<Rightarrow> string \<Rightarrow> byte list
    \<Rightarrow> ('s, 'k) bridge \<Rightarrow> (bridge_error + unit) option \<times> ('s, 'k) bridge" where
  "send_remote_begin be now req_id sent sid peer kind action payload b =
    (case map_of (b_sessions b) sid of
       None \<Rightarrow> (Some (Inl (BUnknownSession sid)), b)
     | Some _ \<Rightarrow>
         let b1 = b\<lparr> b_pending_sends := req_id # b_pending_sends b \<rparr>;
             peer = peer\<lparr> pi_id := b_authenticated_peer_id b \<rparr>;
             gone = (\<lambda>b. b\<lparr> b_pending_sends := filter (\<lambda>q. q \<noteq> req_id) (b_pending_sends b) \<rparr>)
         in case sign_body (be_ed be) (b_signing_key b) sid MESSAGE_FORMAT now peer kind action payload of
             None \<Rightarrow> (None, b1)
           | Some sg \<Rightarrow>
               let bytes = encode_frame (be_frame be) (GSendRequest req_id peer \<lparr> ssp_timestamp_ms = now, ssp_kind = kind,
                     ssp_action = action, ssp_payload = payload, ssp_signature = sg \<rparr>)
               in if length bytes > MAX_GOSSIP_FRAME
                  then (Some (Inl (BPayloadTooLarge (of_nat (length bytes)) (of_nat MAX_GOSSIP_FRAME))), gone b1)
                  else if \<not> sent then (Some (Inl (BIroh ''send_remote broadcast'')), gone b1)
                  else (Some (Inr ()), b1\<lparr> b_broadcast := b_broadcast b1 @ [(sid, bytes)] \<rparr>))"

text \<open>After the await: the acknowledgement that resolved the request, or the timeout.\<close>

definition send_remote_end ::
  "128 word \<Rightarrow> ('s, 'k) bridge \<Rightarrow> (bridge_error + session_message) \<times> ('s, 'k) bridge" where
  "send_remote_end req_id b =
    (case map_of (b_resolved b) req_id of
       Some (Inr m) \<Rightarrow> (Inr m, b)
     | Some (Inl e) \<Rightarrow> (Inl (BHostRejected e), b)
     | None \<Rightarrow> (Inl BSendTimeout, b\<lparr> b_pending_sends := filter (\<lambda>q. q \<noteq> req_id) (b_pending_sends b) \<rparr>))"

end
