(* ===== verification/Bridge_Guarantees.thy ===== *)
theory Bridge_Guarantees
  imports Bridge
begin

text \<open>
  What the gossip bridge guarantees over sequences of inbound frames: the watermark of a mirror
  never falls while it is subscribed, so a close of an earlier incarnation is ignored for good
  once a beacon was heard; and a remote send gives its caller the outcome of the host's registry.
\<close>

subsection \<open>Frames\<close>

lemma decode_encode_frame: "codec_ok pc \<Longrightarrow> decode_frame pc (encode_frame pc body) = Inr body"
  by (simp add: decode_frame_def encode_frame_def codec_okD)

lemma forward_encoded:
  assumes "codec_ok (be_frame be)"
  shows "forward be ops su sid p (encode_frame (be_frame be) body) b =
    (case map_of (b_sessions b) sid of None \<Rightarrow> b | Some role \<Rightarrow> handle_inbound_frame be ops su sid role p body b)"
  by (simp add: forward_def decode_encode_frame [OF assms] split: option.splits)

subsection \<open>Watermarks\<close>

definition guarded :: "session_id \<Rightarrow> u64 \<Rightarrow> ('s, 'k) bridge \<Rightarrow> bool" where
  "guarded sid w b \<longleftrightarrow> (\<forall>h. map_of (b_sessions b) sid = Some (RoleJoiner h) \<longrightarrow> w \<le> watermark b sid)"

lemma guarded_cong:
  "\<lbrakk>b_sessions b' = b_sessions b; b_watermarks b' = b_watermarks b\<rbrakk> \<Longrightarrow> guarded sid w b' = guarded sid w b"
  by (simp add: guarded_def watermark_def)

lemma publish_frame [simp]:
  "b_sessions (publish be sid body b) = b_sessions b" "b_watermarks (publish be sid body b) = b_watermarks b"
  "b_registry (publish be sid body b) = b_registry b" "b_attached (publish be sid body b) = b_attached b"
  "b_pending_sends (publish be sid body b) = b_pending_sends b" "b_resolved (publish be sid body b) = b_resolved b"
  "b_signing_key (publish be sid body b) = b_signing_key b"
  by (simp_all add: publish_def split: option.splits)

lemma guarded_publish [simp]: "guarded sid w (publish be j body b) = guarded sid w b"
  by (rule guarded_cong) simp_all

lemma guarded_forget: "guarded sid w b \<Longrightarrow> guarded sid w (forget_session j b)"
  by (auto simp: guarded_def forget_session_def watermark_def delete_conv')

lemma guarded_host: "guarded sid w b \<Longrightarrow> guarded sid w (subscribe_role j RoleHost m b)"
  by (auto simp: guarded_def subscribe_role_def watermark_def update_conv')

lemma guarded_call: "guarded sid w b \<Longrightarrow> guarded sid w (perform_call be c b)"
  by (cases c) (simp_all add: guarded_forget guarded_host publish_message_def publish_session_closed_def publish_epoch_beacon_def)

lemma guarded_calls: "guarded sid w b \<Longrightarrow> guarded sid w (fold (perform_call be) cs b)"
  by (induction cs arbitrary: b) (simp_all add: guarded_call)

lemma guarded_with_registry: "guarded sid w b \<Longrightarrow> guarded sid w (snd (with_registry be f b))"
proof -
  assume "guarded sid w b"
  then have "guarded sid w (b\<lparr> b_registry := r \<rparr>)" for r by (simp add: guarded_def watermark_def)
  then show ?thesis by (simp add: with_registry_def Let_def split_beta guarded_calls)
qed

lemma guarded_track [simp]: "guarded sid w (track_authenticated_peer p b) = guarded sid w b"
  by (rule guarded_cong) (simp_all add: track_authenticated_peer_def)

lemma guarded_replay: "guarded sid w b \<Longrightarrow> guarded sid w (run_host_replay be j since b)"
proof -
  have "guarded sid w b \<Longrightarrow> guarded sid w (fold (publish_message be j) ms b)" for ms and b :: "('a, 'b) bridge"
    by (induction ms arbitrary: b) (simp_all add: publish_message_def)
  then show "guarded sid w b \<Longrightarrow> ?thesis" by (simp add: run_host_replay_def split: sum.splits)
qed

lemma guarded_beacon:
  assumes "guarded sid w b"
  shows "guarded sid w (joiner_epoch_beacon be ops j p h e sg b)"
proof -
  let ?b = "with_registry be (advance_host_epoch_watermark ops j e) (track_authenticated_peer p b)"
  have g: "guarded sid w (snd ?b)" using assms by (intro guarded_with_registry) simp
  have "guarded sid w ((snd ?b)\<lparr> b_watermarks := AList.update j (max (watermark (snd ?b) j) e) (b_watermarks (snd ?b)) \<rparr>)"
    using g by (auto simp: guarded_def watermark_def update_conv' le_max_iff_disj)
  with g assms show ?thesis
    by (cases ?b) (auto simp: joiner_epoch_beacon_def Let_def split: sum.splits)
qed

lemma guarded_host_arms:
  assumes "guarded sid w b"
  shows "guarded sid w (host_send_request be ops su j p req_id peer pl b)"
    "guarded sid w (host_join_announcement be ops su j p peer c b)" "guarded sid w (host_replay be j p since b)"
proof -
  have t: "guarded sid w (track_authenticated_peer p b)" using assms by simp
  have "guarded sid w (snd (run_host_send be ops su j peer pl (track_authenticated_peer p b)))"
    using t by (simp add: run_host_send_def Let_def split_beta guarded_with_registry [OF t])
  then show "guarded sid w (host_send_request be ops su j p req_id peer pl b)"
    using assms by (simp add: host_send_request_def publish_send_ack_def Let_def split_beta)
  let ?x = "with_registry be (ensure_member (be_env be) ops (su_now su) j peer (Some c)) (track_authenticated_peer p b)"
  have "guarded sid w (snd ?x)" by (rule guarded_with_registry [OF t])
  then show "guarded sid w (host_join_announcement be ops su j p peer c b)"
    using assms t by (cases ?x) (simp add: host_join_announcement_def Let_def guarded_replay split: sum.splits)
  show "guarded sid w (host_replay be j p since b)"
    using assms t by (simp add: host_replay_def guarded_replay)
qed

lemma guarded_joiner_arms:
  assumes "guarded sid w b"
  shows "guarded sid w (joiner_session_closed be ops j p h e sg b)" "guarded sid w (joiner_message be ops su j p m b)"
    "guarded sid w (joiner_send_ack be j p h req_id result sg b)"
proof -
  have t: "guarded sid w (track_authenticated_peer p b)" using assms by simp
  show "guarded sid w (joiner_session_closed be ops j p h e sg b)"
    using assms t by (simp add: joiner_session_closed_def Let_def guarded_with_registry [OF t])
  show "guarded sid w (joiner_message be ops su j p m b)"
    unfolding joiner_message_def Let_def using t by (simp add: guarded_with_registry [OF t] split: option.split)
  have "guarded sid w ((track_authenticated_peer p b)\<lparr> b_pending_sends := x, b_resolved := y \<rparr>)" for x y
    by (rule guarded_cong [THEN iffD2, OF _ _ t]) simp_all
  then show "guarded sid w (joiner_send_ack be j p h req_id result sg b)"
    using assms t by (simp add: joiner_send_ack_def Let_def)
qed

lemma guarded_inbound:
  assumes "guarded sid w b"
  shows "guarded sid w (handle_inbound_frame be ops su j role p body b)"
  using assms
  by (cases role; cases body) (simp_all add: guarded_host_arms guarded_joiner_arms guarded_beacon)

lemma guarded_forward: "guarded sid w b \<Longrightarrow> guarded sid w (forward be ops su j p c b)"
  by (simp add: forward_def guarded_inbound split: option.splits sum.splits)

subsection \<open>Remote sends\<close>

lemma send_outbox:
  assumes "send ev ops now sid peer kind action payload au ans r = (res, r')" "r_outbox r = []"
  shows "\<forall>c\<in>set (r_outbox r'). (\<exists>m. c = CallPublishMessage sid m) \<or> c = CallSendRemote sid peer kind action payload"
  using assms
  by (auto simp: send_def sequence_message_def forward_remote_send_def store_try_def Let_def bridge_do_def emit_def
      put_session_def split: if_splits option.splits sum.splits prod.splits bridge_error.splits)

lemma quiet_calls:
  assumes "\<forall>c\<in>set cs. (\<exists>m. c = CallPublishMessage sid m) \<or> (\<exists>p k a pl. c = CallSendRemote sid p k a pl)"
  shows "b_sessions (fold (perform_call be) cs b) = b_sessions b \<and> b_signing_key (fold (perform_call be) cs b) = b_signing_key b"
  using assms by (induction cs arbitrary: b) (auto simp: publish_message_def)

lemma signed_ack_verifies:
  assumes "ed25519_ok ed"
  shows "verify_ack ed pcm pce (ed_public ed k) sid req_id res (sign_ack ed pcm pce k sid req_id res) = Inr ()"
proof -
  let ?m = "ack_canonical_bytes pcm pce sid req_id res"
  have v: "ed_valid_key ed (pid_as_bytes (ed_public ed k)) \<and> ed_verify_strict ed (pid_as_bytes (ed_public ed k)) ?m (ed_sign ed k ?m)"
    using assms by (simp add: ed25519_ok_def)
  moreover from v have "ed_sign ed k ?m \<noteq> SIGNATURE_UNSIGNED" using assms by (metis ed25519_ok_def)
  ultimately show ?thesis by (simp add: verify_ack_def sign_ack_def strict_check_Inr)
qed

lemma host_answers:
  assumes "map_of (b_sessions b) sid = Some RoleHost" "b_attached b" "pi_id peer = p"
    and "send (be_env be) ops (su_now su) sid peer (ssp_kind pl) (ssp_action pl) (ssp_payload pl)
      (ARemote (ssp_timestamp_ms pl) (ssp_signature pl)) (su_answer su) ((b_registry b)\<lparr> r_outbox := [] \<rparr>) = (res, r')"
  defines "ack \<equiv> (case res of Inr m \<Rightarrow> Inr m | Inl e \<Rightarrow> Inl (to_protocol_error e)) :: ack_result"
  shows "\<exists>fs. b_broadcast (host_send_request be ops su sid p req_id peer pl b) = fs @ [(sid, encode_frame (be_frame be)
    (GSendAck req_id ack (sign_ack (be_ed be) (be_message be) (be_error be) (b_signing_key b) sid req_id ack)))]"
proof -
  let ?t = "(track_authenticated_peer p b)\<lparr> b_registry := r' \<rparr>"
  let ?b = "fold (perform_call be) (r_outbox r') ?t"
  have "\<forall>c\<in>set (r_outbox r'). (\<exists>m. c = CallPublishMessage sid m) \<or> (\<exists>p k a pl. c = CallSendRemote sid p k a pl)"
    using send_outbox [OF assms(4)] by simp blast
  from quiet_calls [OF this, of be ?t]
  have q: "b_sessions ?b = b_sessions b \<and> b_signing_key ?b = b_signing_key b"
    by (simp add: track_authenticated_peer_def)
  have "run_host_send be ops su sid peer pl (track_authenticated_peer p b) = (ack, ?b)"
    using assms(2,4) by (simp add: run_host_send_def with_registry_def track_authenticated_peer_def ack_def)
  then show ?thesis
    using q assms(1,3) by (simp add: host_send_request_def drop_if_spoofed_def peer_id_matches_delivered_from_def publish_send_ack_def publish_def)
qed

lemma begin_request:
  assumes "send_remote_begin be now req_id sent sid peer kind action payload b = (Some (Inr ()), b')"
  obtains sg where "sign_body (be_ed be) (b_signing_key b) sid MESSAGE_FORMAT now (peer\<lparr> pi_id := b_authenticated_peer_id b \<rparr>)
      kind action payload = Some sg"
    "b_broadcast b' = b_broadcast b @ [(sid, encode_frame (be_frame be) (GSendRequest req_id
      (peer\<lparr> pi_id := b_authenticated_peer_id b \<rparr>) \<lparr> ssp_timestamp_ms = now, ssp_kind = kind, ssp_action = action,
        ssp_payload = payload, ssp_signature = sg \<rparr>))]"
    "b_sessions b' = b_sessions b" "b_resolved b' = b_resolved b" "req_id \<in> set (b_pending_sends b')"
  using assms by (auto simp: send_remote_begin_def Let_def split: option.splits if_splits)

lemma ack_resolves:
  assumes "ed25519_ok (be_ed be)" "req_id \<in> set (b_pending_sends b)" "map_of (b_resolved b) req_id = None"
    and "h = ed_public (be_ed be) k"
  shows "fst (send_remote_end req_id (joiner_send_ack be sid p h req_id ack
      (sign_ack (be_ed be) (be_message be) (be_error be) k sid req_id ack) b)) =
    (case ack of Inr m \<Rightarrow> Inr m | Inl e \<Rightarrow> Inl (BHostRejected e))"
  using assms signed_ack_verifies [OF assms(1)]
  by (auto simp: joiner_send_ack_def send_remote_end_def track_authenticated_peer_def Let_def map_of_append map_add_def
      split: option.splits sum.splits)

subsection \<open>A close replayed across a resume\<close>

lemma beacon_guards:
  assumes "b_attached b" "verify_ctrl (be_ed be) h sid Beacon e sg = Inr ()"
    and "fst (advance_host_epoch_watermark ops sid e ((b_registry b)\<lparr> r_outbox := [] \<rparr>)) = Inr ()"
  shows "guarded sid e (joiner_epoch_beacon be ops sid p h e sg b)"
proof (cases "e \<le> watermark (track_authenticated_peer p b) sid")
  case True
  then show ?thesis using assms(1,2)
    by (simp add: joiner_epoch_beacon_def Let_def guarded_def watermark_def track_authenticated_peer_def)
next
  case False
  let ?x = "with_registry be (advance_host_epoch_watermark ops sid e) (track_authenticated_peer p b)"
  have "fst ?x = Inr ()"
    using assms(3) by (simp add: with_registry_def split_beta Let_def track_authenticated_peer_def)
  then show ?thesis using False assms(1,2)
    by (cases ?x) (auto simp: joiner_epoch_beacon_def Let_def guarded_def watermark_def track_authenticated_peer_def
        update_conv' le_max_iff_disj)
qed

text \<open>A run of inbound frames: the session, the delivering peer, the bytes and the surroundings.\<close>

definition forwards ::
  "'k bridge_env \<Rightarrow> 's store_ops \<Rightarrow> (surroundings \<times> session_id \<times> peer_id \<times> byte list) list
    \<Rightarrow> ('s, 'k) bridge \<Rightarrow> ('s, 'k) bridge" where
  "forwards be ops = fold (\<lambda>(su, sid, p, bytes). forward be ops su sid p bytes)"

lemma guarded_forwards: "guarded sid w b \<Longrightarrow> guarded sid w (forwards be ops xs b)"
  by (induction xs arbitrary: b) (auto simp: forwards_def guarded_forward)

lemma guarded_ignores_close:
  assumes "codec_ok (be_frame be)" "guarded sid w b" "e < w"
  shows "forward be ops su sid p (encode_frame (be_frame be) (GSessionClosed e sg)) b = b"
proof (cases "map_of (b_sessions b) sid")
  case (Some role)
  then show ?thesis using assms(2,3)
    by (cases role) (auto simp: forward_encoded [OF assms(1)] guarded_def joiner_session_closed_def)
qed (simp add: forward_encoded [OF assms(1)])

text \<open>C7: Once a joiner subscribed to a session hears a beacon of epoch \<open>e'\<close> that carries the host's
  signature, and the daemon is running and the mirror's store takes the watermark, a \<open>SessionClosed\<close>
  frame of an earlier epoch is ignored from then on: whatever frames of whatever sessions arrive from
  whatever peers in between, forwarding the close changes nothing, however valid its signature.  A
  close captured before a resume cannot be replayed after it.\<close>

theorem replayed_close_ignored:
  fixes frames su p ops
  assumes "codec_ok (be_frame be)" "map_of (b_sessions b) sid = Some (RoleJoiner h)" "b_attached b"
    and "verify_ctrl (be_ed be) h sid Beacon e' bsig = Inr ()"
    and "fst (advance_host_epoch_watermark ops sid e' ((b_registry b)\<lparr> r_outbox := [] \<rparr>)) = Inr ()" "e < e'"
  defines "b' \<equiv> forwards be ops frames (forward be ops su sid p (encode_frame (be_frame be) (GEpochBeacon e' bsig)) b)"
  shows "forward be ops su' sid q (encode_frame (be_frame be) (GSessionClosed e csig)) b' = b'"
  unfolding b'_def
  by (rule guarded_ignores_close [OF assms(1) guarded_forwards assms(6)])
    (simp add: forward_encoded [OF assms(1)] assms(2) beacon_guards [OF assms(3-5)])

subsection \<open>The outcome of a remote send\<close>

text \<open>C20: A remote send is answered with the outcome of the host's registry.  A joiner subscribed to
  the session publishes its request; the host, subscribed to the same session, receives those bytes
  from the joiner's endpoint; the last frame it publishes while handling them is received by the
  joiner.  Then the joiner's \<open>send_remote\<close> returns the message the host's registry sequenced, or the
  wire form of the error with which it rejected the send, and never times out.\<close>

theorem remote_send_returns_host_outcome:
  fixes ops su
  assumes "codec_ok (be_frame be)" "ed25519_ok (be_ed be)"
    and "map_of (b_sessions hb) sid = Some RoleHost" "b_attached hb"
    and "map_of (b_sessions jb) sid = Some (RoleJoiner (ed_public (be_ed be) (b_signing_key hb)))"
    and "map_of (b_resolved jb) req_id = None"
    and "send_remote_begin be now req_id True sid peer kind action payload jb = (Some (Inr ()), jb')"
  defines "me \<equiv> peer\<lparr> pi_id := b_authenticated_peer_id jb \<rparr>"
  defines "hb' \<equiv> forward be ops su sid (b_authenticated_peer_id jb) (snd (last (b_broadcast jb'))) hb"
  shows "\<exists>sg. sign_body (be_ed be) (b_signing_key jb) sid MESSAGE_FORMAT now me kind action payload = Some sg \<and>
    fst (send_remote_end req_id (forward be jops jsu sid host_endpoint (snd (last (b_broadcast hb'))) jb')) =
      (case fst (send (be_env be) ops (su_now su) sid me kind action payload (ARemote now sg) (su_answer su)
          ((b_registry hb)\<lparr> r_outbox := [] \<rparr>)) of
         Inr m \<Rightarrow> Inr m
       | Inl e \<Rightarrow> Inl (BHostRejected (to_protocol_error e)))"
proof -
  obtain sg where sg: "sign_body (be_ed be) (b_signing_key jb) sid MESSAGE_FORMAT now me kind action payload = Some sg"
    and req: "b_broadcast jb' = b_broadcast jb @ [(sid, encode_frame (be_frame be) (GSendRequest req_id me
      \<lparr> ssp_timestamp_ms = now, ssp_kind = kind, ssp_action = action, ssp_payload = payload, ssp_signature = sg \<rparr>))]"
    and jb': "b_sessions jb' = b_sessions jb" "b_resolved jb' = b_resolved jb" "req_id \<in> set (b_pending_sends jb')"
    using begin_request [OF assms(7)] unfolding me_def by metis
  obtain res r' where res: "send (be_env be) ops (su_now su) sid me kind action payload (ARemote now sg) (su_answer su)
      ((b_registry hb)\<lparr> r_outbox := [] \<rparr>) = (res, r')" by force
  let ?ack = "(case res of Inr m \<Rightarrow> Inr m | Inl e \<Rightarrow> Inl (to_protocol_error e)) :: ack_result"
  have "\<exists>fs. b_broadcast hb' = fs @ [(sid, encode_frame (be_frame be)
    (GSendAck req_id ?ack (sign_ack (be_ed be) (be_message be) (be_error be) (b_signing_key hb) sid req_id ?ack)))]"
    using host_answers [of hb sid me "b_authenticated_peer_id jb" be ops su
        "\<lparr> ssp_timestamp_ms = now, ssp_kind = kind, ssp_action = action, ssp_payload = payload, ssp_signature = sg \<rparr>" res r'] assms(3,4) res
    by (simp add: hb'_def req forward_encoded [OF assms(1)] me_def)
  then have "snd (last (b_broadcast hb')) = encode_frame (be_frame be)
    (GSendAck req_id ?ack (sign_ack (be_ed be) (be_message be) (be_error be) (b_signing_key hb) sid req_id ?ack))" by auto
  then show ?thesis
    using ack_resolves [OF assms(2) jb'(3), of "ed_public (be_ed be) (b_signing_key hb)" "b_signing_key hb"] assms(5,6) sg res jb'
    by (simp add: forward_encoded [OF assms(1)] split: sum.splits)
qed

subsection \<open>Backfill\<close>

lemma inbound_outbox:
  "apply_inbound_mirror_message ev ops sid m (r\<lparr> r_outbox := x \<rparr>) = (apply_inbound_mirror_message ev ops sid m r)\<lparr> r_outbox := x \<rparr>"
  by (auto simp: apply_inbound_mirror_message_def Let_def emit_def put_session_def split: option.splits sum.splits prod.splits)

lemma joiner_message_registry:
  assumes "MIRROR_APPLY_BUDGET_BYTES \<le> su_free su"
  shows "(b_registry (joiner_message be ops su sid p m b))\<lparr> r_outbox := [] \<rparr> =
      (apply_inbound_mirror_message (be_env be) ops sid m (b_registry b))\<lparr> r_outbox := [] \<rparr>
    \<and> b_sessions (joiner_message be ops su sid p m b) = b_sessions b"
proof -
  have "mirror_frame_cost MIRROR_APPLY_BUDGET_BYTES m \<le> su_free su" using assms by (simp add: mirror_frame_cost_def)
  then show ?thesis
    by (auto simp: joiner_message_def mirror_on_message_with_budget_def track_authenticated_peer_def with_registry_def Let_def
        inbound_outbox apply_inbound_mirror_message_def [of _ _ _ _ "b_registry b"] split: option.splits if_splits)
qed

lemma forwarded_messages:
  assumes "codec_ok (be_frame be)" "MIRROR_APPLY_BUDGET_BYTES \<le> su_free su" "map_of (b_sessions b) sid = Some (RoleJoiner h)"
  shows "(b_registry (fold (\<lambda>m. forward be ops su sid p (encode_frame (be_frame be) (GMessage m))) ms b))\<lparr> r_outbox := [] \<rparr> =
    (feed (be_env be) ops sid ms (b_registry b))\<lparr> r_outbox := [] \<rparr>"
  using assms(3)
proof (induction ms arbitrary: b)
  case (Cons m ms)
  note j = joiner_message_registry [OF assms(2), of be ops sid p m b]
  have swap: "(feed (be_env be) ops sid ms r)\<lparr> r_outbox := [] \<rparr> = feed (be_env be) ops sid ms (r\<lparr> r_outbox := [] \<rparr>)"
    for r and ms
    by (induction ms arbitrary: r) (simp_all add: feed_def inbound_outbox)
  have "feed (be_env be) ops sid (m # ms) r = feed (be_env be) ops sid ms (apply_inbound_mirror_message (be_env be) ops sid m r)" for r
    by (simp add: feed_def)
  with Cons.IH [of "joiner_message be ops su sid p m b"] Cons.prems j show ?case
    by (simp add: forward_encoded [OF assms(1)] swap inbound_outbox)
qed (simp add: feed_def)

lemma replay_broadcasts:
  assumes "map_of (b_sessions b) sid = Some role" "b_attached b" "log_since (b_registry b) sid since = Inr ms"
  shows "b_broadcast (run_host_replay be sid since b) =
    b_broadcast b @ map (\<lambda>m. (sid, encode_frame (be_frame be) (GMessage m))) ms"
proof -
  have "map_of (b_sessions b) sid = Some role \<Longrightarrow> b_broadcast (fold (publish_message be sid) ms b) =
      b_broadcast b @ map (\<lambda>m. (sid, encode_frame (be_frame be) (GMessage m))) ms" for b :: "('a, 'b) bridge"
    by (induction ms arbitrary: b) (simp_all add: publish_message_def publish_def)
  with assms show ?thesis by (simp add: run_host_replay_def)
qed

text \<open>C21: A replay completes a mirror.  A member asks the host for everything after \<open>since\<close>; the host,
  subscribed and running, publishes exactly its replayable messages after \<open>since\<close>; when the mirror of a
  joiner receives those frames while its apply budget is free, its log then holds what it held and all
  of those messages, each once, in sequence order.  The messages carry their author's and the host's
  signatures, and the mirror holds no other message under their numbers.\<close>

theorem replay_completes_mirror:
  fixes since p su ops
  assumes "codec_ok (be_frame be)"
    and "map_of (b_sessions hb) sid = Some RoleHost" "b_attached hb" "is_member (b_registry hb) sid p = Some True"
    and "log_since (b_registry hb) sid since = Inr ms"
    and "map_of (b_sessions jb) sid = Some (RoleJoiner h)" "MIRROR_APPLY_BUDGET_BYTES \<le> su_free jsu"
    and "reachable (be_env be) memory_ops memory_new (b_registry jb)"
    and "get_session (b_registry jb) sid = Some s" "s_kind s = Remote"
    and "\<forall>m\<in>set ms. genuine (be_env be) sid (s_host s) m" "inj_on m_seq (set (s_log s) \<union> set ms)"
  defines "hb' \<equiv> forward be ops su sid p (encode_frame (be_frame be) (GReplay since)) hb"
  shows "\<exists>frames s'. b_broadcast hb' = b_broadcast hb @ frames
    \<and> get_session (b_registry (fold (\<lambda>(i, bytes). forward be memory_ops jsu i q bytes) frames jb)) sid = Some s'
    \<and> set (s_log s') = set (s_log s) \<union> set ms \<and> sorted_wrt (<) (map m_seq (s_log s'))"
proof -
  let ?frames = "map (\<lambda>m. (sid, encode_frame (be_frame be) (GMessage m))) ms"
  have hb': "b_broadcast hb' = b_broadcast hb @ ?frames"
    using assms(2-5) replay_broadcasts [of "track_authenticated_peer p hb" sid RoleHost since ms be]
    by (simp add: hb'_def forward_encoded [OF assms(1)] host_replay_def track_authenticated_peer_def)
  have agr: "agrees mem_rec (b_registry jb)" by (rule mem.reachable_agrees [OF assms(8)]) (simp add: mem_rec_def memory_new_def)
  have log: "log_ok (s_log s) (s_head s)"
    using registry_okD [OF reachable_ok [OF assms(8)] assms(9)] by (simp add: session_ok_def)
  obtain s' where s': "get_session (feed (be_env be) memory_ops sid ms (b_registry jb)) sid = Some s'" "log_ok (s_log s') (s_head s')"
      "set (s_log s') = set (s_log s) \<union> set ms"
    using mem.feed_spec [OF agr assms(9,10) log assms(11,12)] by blast
  have "get_session (b_registry (fold (\<lambda>(i, bytes). forward be memory_ops jsu i q bytes) ?frames jb)) sid = Some s'"
    using arg_cong [OF forwarded_messages [OF assms(1,7,6), of memory_ops q ms], of r_sessions] s'(1)
    by (simp add: fold_map comp_def)
  then show ?thesis using hb' s' by (auto simp: log_ok_def)
qed

subsection \<open>Sample bridges\<close>

definition sample_bridge_env :: "peer_id bridge_env" where
  "sample_bridge_env = \<lparr> be_env = sample_env, be_frame = to_codec sd_frame, be_message = to_codec sd_message,
    be_error = to_codec sd_error \<rparr>"

definition sample_bridge :: "session_role \<Rightarrow> peer_id \<Rightarrow> (memory_store, peer_id) registry \<Rightarrow> (memory_store, peer_id) bridge" where
  "sample_bridge role p r = \<lparr> b_registry = r, b_attached = True, b_sessions = [(SessionId 9, role)], b_watermarks = [],
    b_pending_sends = [], b_resolved = [], b_tracked_peer_ids = {}, b_authenticated_peer_id = p, b_signing_key = p,
    b_addr_hint = [], b_broadcast = [] \<rparr>"

definition calm :: surroundings where
  "calm = \<lparr> su_now = 9, su_answer = Inl BSendTimeout, su_locked = True, su_free = MIRROR_APPLY_BUDGET_BYTES \<rparr>"

lemma sample_bridge_env_ok: "codec_ok (be_frame sample_bridge_env)" "ed25519_ok (be_ed sample_bridge_env)"
  by (simp_all add: sample_bridge_env_def be_ed_def sample_env_def to_codec_ok sd_frame open_ed_ok)

theorem replayed_close_ignored_witness:
  "\<exists>b' :: (memory_store, peer_id) bridge.
    b' = forward sample_bridge_env memory_ops calm (SessionId 9) (PeerId 7)
      (encode_frame (to_codec sd_frame) (GEpochBeacon 2 1)) (sample_bridge (RoleJoiner (PeerId 7)) (PeerId 5) mirror_run)
    \<and> forward sample_bridge_env memory_ops calm (SessionId 9) (PeerId 7) (encode_frame (to_codec sd_frame) (GSessionClosed 1 1)) b' = b'"
proof -
  let ?b = "sample_bridge (RoleJoiner (PeerId 7)) (PeerId 5) mirror_run"
  have "fst (advance_host_epoch_watermark memory_ops (SessionId 9) 2 (r\<lparr> r_outbox := [] \<rparr>)) = Inr ()"
    for r :: "(memory_store, peer_id) registry"
    using mem.bump_ok
    by (auto simp: advance_host_epoch_watermark_def store_try_def prod_eq_iff split: option.splits sum.splits prod.splits)
  from replayed_close_ignored [OF sample_bridge_env_ok(1), where b = ?b and sid = "SessionId 9" and h = "PeerId 7" and e' = 2
      and bsig = 1 and e = 1 and csig = 1 and frames = "[]" and su = calm and su' = calm and p = "PeerId 7" and q = "PeerId 7", OF _ _ _ this]
  show ?thesis
    by (simp add: sample_bridge_def sample_bridge_env_def be_ed_def sample_env_def verify_ctrl_def strict_check_def open_ed_def
        SIGNATURE_UNSIGNED_def forwards_def)
qed

definition admitted_run :: "(memory_store, peer_id) registry" where
  "admitted_run = snd (ensure_member sample_env memory_ops 8 (SessionId 9) \<lparr> pi_id = PeerId 5, pi_display_name = ''bob'' \<rparr>
    (Some sample_claim) sample_run)"

lemma sample_remote_sent:
  "\<exists>m. fst (send sample_env memory_ops 9 (SessionId 9) \<lparr> pi_id = PeerId 5, pi_display_name = ''bob'' \<rparr> Chat ''chat.message'' [105]
    (ARemote 8 1) (Inl BSendTimeout) (admitted_run\<lparr> r_outbox := [] \<rparr>)) = Inr m"
  by (simp add: admitted_run_def sample_defs host_eval)
    (simp add: send_eval store_try_def ensure_member_def check_claim_def verify_ticket_cap_def sample_claim_def
      strict_check_def open_ed_def SIGNATURE_UNSIGNED_def ticket_admissible_def ledger_entry_def admit_peer_def
      auto_grant_on_join_def host_author_def apply_capability_def sample_grant_length ACTION_GRANT_def author_remote_def verify_message_def
      apply_capability_to_def decode_encode_cap_action [OF to_codec_ok [OF sd_cap_action]])

lemma admitted_replay:
  "\<exists>m. log_since admitted_run (SessionId 9) Seq_ZERO = Inr [m] \<and> genuine sample_env (SessionId 9) (PeerId 7) m
    \<and> is_member admitted_run (SessionId 9) (PeerId 5) = Some True"
  by (simp add: admitted_run_def sample_defs host_eval)
    (simp add: send_eval store_try_def ensure_member_def check_claim_def verify_ticket_cap_def sample_claim_def
      strict_check_def open_ed_def SIGNATURE_UNSIGNED_def ticket_admissible_def ledger_entry_def admit_peer_def
      auto_grant_on_join_def host_author_def apply_capability_def sample_grant_length ACTION_GRANT_def log_since_def
      genuine_def verify_message_def verify_seq_def sign_seq_for_def sign_seq_def is_member_def less_seq_def)

lemma joined_reachable:
  "reachable sample_env memory_ops memory_new (reg_step sample_env memory_ops (hd mirror_steps) mirror_registry)"
proof -
  have "reachable sample_env memory_ops memory_new mirror_registry"
    by (rule reachable.start) (simp_all add: mirror_registry_def sample_registry_def)
  then show ?thesis by (rule reachable.step) (simp add: mirror_steps_def)
qed

theorem replay_completes_mirror_witness:
  "\<exists>(jr :: (memory_store, peer_id) registry) frames s' m. log_since admitted_run (SessionId 9) Seq_ZERO = Inr [m]
    \<and> b_broadcast (forward sample_bridge_env memory_ops calm (SessionId 9) (PeerId 5)
        (encode_frame (to_codec sd_frame) (GReplay Seq_ZERO)) (sample_bridge RoleHost (PeerId 7) admitted_run)) = frames
    \<and> get_session (b_registry (fold (\<lambda>(i, bytes). forward sample_bridge_env memory_ops calm i (PeerId 7) bytes) frames
        (sample_bridge (RoleJoiner (PeerId 7)) (PeerId 5) jr))) (SessionId 9) = Some s'
    \<and> set (s_log s') = {m}"
proof -
  obtain m where m: "log_since admitted_run (SessionId 9) Seq_ZERO = Inr [m]" "genuine sample_env (SessionId 9) (PeerId 7) m"
      "is_member admitted_run (SessionId 9) (PeerId 5) = Some True" using admitted_replay by blast
  obtain s r where r: "r = reg_step sample_env memory_ops (hd mirror_steps) mirror_registry" "get_session r (SessionId 9) = Some s"
      "s_host s = PeerId 7" "s_log s = []" "s_kind s = Remote" using sample_joined by blast
  show ?thesis
    using replay_completes_mirror [OF sample_bridge_env_ok(1), where hb = "sample_bridge RoleHost (PeerId 7) admitted_run"
        and jb = "sample_bridge (RoleJoiner (PeerId 7)) (PeerId 5) r" and sid = "SessionId 9" and since = Seq_ZERO
        and p = "PeerId 5" and q = "PeerId 7" and su = calm and jsu = calm and ops = memory_ops and ms = "[m]" and s = s
        and h = "PeerId 7"] m r joined_reachable
    by (auto simp: sample_bridge_def sample_bridge_env_def calm_def)
qed

theorem remote_send_returns_host_outcome_witness:
  "\<exists>jb' (hb' :: (memory_store, peer_id) bridge) m.
    send_remote_begin sample_bridge_env 8 4 True (SessionId 9) \<lparr> pi_id = PeerId 6, pi_display_name = ''bob'' \<rparr> Chat
      ''chat.message'' [105] (sample_bridge (RoleJoiner (PeerId 7)) (PeerId 5) mirror_run) = (Some (Inr ()), jb')
    \<and> hb' = forward sample_bridge_env memory_ops calm (SessionId 9) (PeerId 5) (snd (last (b_broadcast jb')))
        (sample_bridge RoleHost (PeerId 7) admitted_run)
    \<and> fst (send_remote_end 4 (forward sample_bridge_env memory_ops calm (SessionId 9) (PeerId 7)
        (snd (last (b_broadcast hb'))) jb')) = Inr m"
proof -
  let ?jb = "sample_bridge (RoleJoiner (PeerId 7)) (PeerId 5) mirror_run"
  let ?peer = "\<lparr> pi_id = PeerId 6, pi_display_name = ''bob'' \<rparr>"
  obtain jb' where jb': "send_remote_begin sample_bridge_env 8 4 True (SessionId 9) ?peer Chat ''chat.message'' [105] ?jb
      = (Some (Inr ()), jb')"
    by (simp add: send_remote_begin_def sample_bridge_def sample_bridge_env_def be_ed_def sample_env_def send_eval open_ed_def
        encode_frame_def to_codec_def sd_frame_def sd_iso_def sd_sum_def sd_pair_def sd_word_def
        sd_peer_info_def sd_send_payload_def sd_string_def sd_bytes_def sd_kind_def del: be_bytes.simps)
  show ?thesis
    using remote_send_returns_host_outcome [OF sample_bridge_env_ok, where hb = "sample_bridge RoleHost (PeerId 7) admitted_run"
        and sid = "SessionId 9" and ops = memory_ops and su = calm and jops = memory_ops and jsu = calm
        and host_endpoint = "PeerId 7", OF _ _ _ _ jb'] sample_remote_sent jb'
    by (auto simp: sample_bridge_def sample_bridge_env_def be_ed_def sample_env_def open_ed_def calm_def sign_body_def split: sum.splits)
qed

end
