(* ===== verification/Rotation_Guarantees.thy ===== *)
theory Rotation_Guarantees
  imports Rotation Listener_Guarantees Bridge_Guarantees
begin

text \<open>
  What the rotation of a namespace guarantees: which entries are carried forward, that a burst of rotations
  may be coalesced, that a replayed revocation does not rotate again, what makes a host rotate, and how a
  host recovers when its namespace is gone.
\<close>

subsection \<open>Files\<close>

lemma namespace_file_round_trip: "sd f = Some (namespace_bytes ns) \<Longrightarrow> read_namespace_file sd f = Inr (Some ns)"
proof -
  assume "sd f = Some (namespace_bytes ns)"
  moreover have "unat ns < 256 ^ 32" by (rule unat_bound_bytes) simp
  ultimately show ?thesis by (simp add: read_namespace_file_def namespace_bytes_def from_be_be_bytes del: be_bytes.simps)
qed

lemma u64_file_round_trip: "sd f = Some (to_le_bytes v) \<Longrightarrow> read_u64_file sd f = Inr v"
proof -
  assume "sd f = Some (to_le_bytes v)"
  moreover have "unat v < 256 ^ 8" by (rule unat_bound_bytes) simp
  ultimately show ?thesis by (simp add: read_u64_file_def to_le_bytes_def from_be_be_bytes del: be_bytes.simps)
qed

subsection \<open>The snapshot\<close>

definition carries :: "peer_map \<Rightarrow> (256 word \<Rightarrow> endpoint_id option) \<Rightarrow> endpoint_id \<Rightarrow> 'h snapshot_entry \<Rightarrow> bool" where
  "carries m endpoint own e \<longleftrightarrow> (case endpoint (se_author e) of None \<Rightarrow> False | Some a \<Rightarrow> a = own \<or> classify_author m a = Rw)"

lemma count_drop_total [simp]: "d \<noteq> Rw \<Longrightarrow> drop_total (count_drop d c) = Suc (drop_total c)"
  by (cases d) (simp_all add: drop_total_def)

lemma collect_loop_exact:
  assumes "collect_loop (\<lambda>_. Some m) endpoint own i (map Inr es) sv dc = Inr (survivors, drops)"
  shows "survivors = sv @ map (\<lambda>e. (se_key e, se_hash e, se_len e)) (filter (carries m endpoint own) es)
    \<and> drop_total drops + length survivors = drop_total dc + length sv + length es"
  using assms
proof (induction es arbitrary: i sv dc)
  case (Cons e es)
  then obtain a where a: "endpoint (se_author e) = Some a" by (auto split: option.splits)
  show ?case
  proof (cases "a = own \<or> classify_author m a = Rw")
    case True
    with Cons.prems a have "collect_loop (\<lambda>_. Some m) endpoint own (Suc i) (map Inr es) (sv @ [(se_key e, se_hash e, se_len e)]) dc = Inr (survivors, drops)"
      by simp
    from Cons.IH [OF this] show ?thesis using True a by (auto simp: carries_def)
  next
    case False
    with Cons.prems a have "collect_loop (\<lambda>_. Some m) endpoint own (Suc i) (map Inr es) sv (count_drop (classify_author m a) dc) = Inr (survivors, drops)"
      by simp
    from Cons.IH [OF this] show ?thesis using False a by (auto simp: carries_def)
  qed
qed simp

lemma carry_all_ok: "carry_all fail ss = (None, ws) \<Longrightarrow> ws = map carry_forward ss"
  by (induction ss arbitrary: ws) (auto split: option.splits prod.splits)

lemma record_namespace_ok:
  assumes "record_namespace en ns epoch st = (None, st')"
  shows "st' = st\<lparr> ro_files := (ro_files st)(CURRENT_NAMESPACE_FILE \<mapsto> namespace_bytes ns, NAMESPACE_EPOCH_FILE \<mapsto> to_le_bytes epoch) \<rparr>"
  using assms by (auto simp: record_namespace_def persist_u64_def write_file_def split: option.splits prod.splits)

text \<open>C15: a rotation carries forward exactly what writers wrote.  When a rotation succeeds, the fresh namespace
  gets the entries of the host and of the authors whose endpoint is bound to a peer that may write, in
  order, deletions as deletions; every other entry is counted as dropped; the epoch grows by one, namespace and
  epoch are recorded, and the genesis that names the session is untouched.\<close>

theorem rotation_carries_writers:
  assumes "rotate_namespace en prev st = (Inr oc, st')" "rx_maps en = (\<lambda>_. Some m)" "rx_snapshot en = Inr (map Inr es)"
  shows "ro_docs st' = ro_docs st @ map (\<lambda>e. (oc_new_namespace oc, carry_forward (se_key e, se_hash e, se_len e))) (filter (carries m (rx_endpoint en) (rx_own en)) es)
    \<and> oc_survivor_entries oc + oc_dropped_entries oc = length es \<and> oc_new_epoch oc = prev + 1
    \<and> read_namespace_file (ro_files st') CURRENT_NAMESPACE_FILE = Inr (Some (oc_new_namespace oc))
    \<and> read_u64_file (ro_files st') NAMESPACE_EPOCH_FILE = Inr (prev + 1) \<and> ro_files st' DOC_ID_FILE = ro_files st DOC_ID_FILE"
proof -
  obtain survivors drops where c: "collect_loop (\<lambda>_. Some m) (rx_endpoint en) (rx_own en) 0 (map Inr es) [] no_drops = Inr (survivors, drops)"
    using assms by (auto simp: rotate_namespace_def collect_rotation_survivors_def split: if_splits sum.splits)
  let ?st = "if dc_unresolvable drops > 0 then ro_emit (EvError ''rotation dropped entries with an unresolvable author'') st else st"
  obtain ns secret ws wt rt where
      w: "carry_all (rx_write en) survivors = (None, ws)"
      and r: "record_namespace en ns (prev + 1) (?st\<lparr> ro_docs := ro_docs ?st @ map (Pair ns) ws \<rparr>) = (None, st')"
      and oc: "oc = \<lparr> oc_new_secret = secret, oc_write_ticket = wt, oc_read_ticket = rt, oc_new_namespace = ns,
        oc_new_epoch = prev + 1, oc_survivor_entries = length survivors, oc_dropped_entries = drop_total drops \<rparr>"
    using assms c
    by (auto simp: rotate_namespace_def collect_rotation_survivors_def Let_def split: if_splits sum.splits prod.splits option.splits)
  have docs: "ro_docs ?st = ro_docs st" "ro_files ?st = ro_files st" by (simp_all add: ro_emit_def)
  note st' = record_namespace_ok [OF r]
  have "ro_docs st' = ro_docs st @ map (Pair ns) (map carry_forward survivors)" using st' docs carry_all_ok [OF w] by simp
  moreover have "survivors = map (\<lambda>e. (se_key e, se_hash e, se_len e)) (filter (carries m (rx_endpoint en) (rx_own en)) es)"
      "drop_total drops + length survivors = length es"
    using collect_loop_exact [OF c] by (auto simp: no_drops_def drop_total_def)
  ultimately show ?thesis
    using oc st' docs(2) by (simp add: namespace_file_round_trip u64_file_round_trip)
qed

subsection \<open>Bursts\<close>

text \<open>Imports succeed: the node is up, tickets parse, namespaces import and files can be written.\<close>

definition imports_succeed :: "'h rot_env \<Rightarrow> bool" where
  "imports_succeed en \<longleftrightarrow> rx_up en \<and> (\<forall>t. \<exists>ns. rx_parse en t = Inr ns) \<and> (\<forall>ns. rx_import en ns = None) \<and> (\<forall>f. rx_fail en f = None)"

lemma survivor_rotate:
  assumes "imports_succeed en" "rx_parse en t = Inr ns"
  shows "handle_rotation_signal en (SurvivorRotate e t) st =
    (if e \<le> ro_epoch st then st
     else st\<lparr> ro_files := (ro_files st)(CURRENT_NAMESPACE_FILE \<mapsto> namespace_bytes ns, NAMESPACE_EPOCH_FILE \<mapsto> to_le_bytes e),
       ro_doc := ns, ro_guard := forget_all_published (ro_guard st), ro_epoch := e \<rparr>)"
  using assms
  by (simp add: handle_rotation_signal_def reimport_namespace_def record_namespace_def persist_u64_def write_file_def imports_succeed_def)

lemma forget_all_idem [simp]: "forget_all_published (forget_all_published g) = forget_all_published g"
  by (simp add: forget_all_published_def)

lemma survivor_absorb:
  assumes "imports_succeed en" "imports_succeed en'"
  shows "handle_rotation_signal en' (SurvivorRotate e' t') (handle_rotation_signal en (SurvivorRotate e t) st) =
    (if e' > e then handle_rotation_signal en' (SurvivorRotate e' t') st else handle_rotation_signal en (SurvivorRotate e t) st)"
proof -
  obtain ns ns' where ns: "rx_parse en t = Inr ns" "rx_parse en' t' = Inr ns'" using assms by (metis imports_succeed_def)
  have "fun_upd (fun_upd (fun_upd f a x) b y) a z = fun_upd (fun_upd f a z) b y" if "a \<noteq> b" for f :: state_dir and a b x y z
    using that by auto
  then show ?thesis
    using survivor_rotate [OF assms(1) ns(1)] survivor_rotate [OF assms(2) ns(2)] by (auto simp: not_less fun_upd_twist)
qed

definition opt_list :: "'a option \<Rightarrow> 'a list" where
  "opt_list x = (case x of None \<Rightarrow> [] | Some a \<Rightarrow> [a])"

lemma queue_absorb:
  assumes "\<And>s. imports_succeed (en s)" "\<forall>r. pending = Some r \<longrightarrow> epoch_of r \<noteq> None" "queue_signal sig (pending, out) = (pending', out')"
  shows "fold (\<lambda>s. handle_rotation_signal (en s) s) (out' @ opt_list pending') st =
      handle_rotation_signal (en sig) sig (fold (\<lambda>s. handle_rotation_signal (en s) s) (out @ opt_list pending) st)"
    "\<forall>r. pending' = Some r \<longrightarrow> epoch_of r \<noteq> None"
proof -
  have "(fold (\<lambda>s. handle_rotation_signal (en s) s) (out' @ opt_list pending') st =
      handle_rotation_signal (en sig) sig (fold (\<lambda>s. handle_rotation_signal (en s) s) (out @ opt_list pending) st))
    \<and> (\<forall>r. pending' = Some r \<longrightarrow> epoch_of r \<noteq> None)"
  proof (cases sig)
    case (HostEvict p s)
    then show ?thesis using assms(3) by (auto simp: queue_signal_def opt_list_def split: option.splits)
  next
    case (SurvivorRotate e' t')
    show ?thesis
    proof (cases pending)
      case None
      then show ?thesis using assms(3) SurvivorRotate by (auto simp: queue_signal_def opt_list_def)
    next
      case (Some r)
      then obtain e t where r: "r = SurvivorRotate e t" using assms(2) by (cases r) auto
      then show ?thesis
        using assms(3) SurvivorRotate Some survivor_absorb [OF assms(1) assms(1), of sig e' t' r e t]
        by (auto simp: queue_signal_def opt_list_def split: if_splits)
    qed
  qed
  then show "fold (\<lambda>s. handle_rotation_signal (en s) s) (out' @ opt_list pending') st =
      handle_rotation_signal (en sig) sig (fold (\<lambda>s. handle_rotation_signal (en s) s) (out @ opt_list pending) st)"
    "\<forall>r. pending' = Some r \<longrightarrow> epoch_of r \<noteq> None" by blast+
qed

lemma coalesce_fold:
  assumes "\<And>s. imports_succeed (en s)" "\<forall>r. pending = Some r \<longrightarrow> epoch_of r \<noteq> None" "fold queue_signal sigs (pending, out) = (pending', out')"
  shows "fold (\<lambda>s. handle_rotation_signal (en s) s) (out' @ opt_list pending') st =
      fold (\<lambda>s. handle_rotation_signal (en s) s) sigs (fold (\<lambda>s. handle_rotation_signal (en s) s) (out @ opt_list pending) st)"
  using assms(2,3)
proof (induction sigs arbitrary: pending out)
  case (Cons sig sigs)
  obtain p1 o1 where q: "queue_signal sig (pending, out) = (p1, o1)" by force
  note a = queue_absorb [OF assms(1) Cons.prems(1) q]
  show ?case using Cons.IH [OF a(2), of o1] Cons.prems(2) q a(1) by simp
qed simp


subsection \<open>Evictions\<close>

text \<open>The part of the state that decides which signals are stale.\<close>

definition durable :: "'h rotation \<Rightarrow> u64 \<times> u64 \<times> state_dir" where
  "durable st = (ro_watermark st, ro_epoch st, ro_files st)"

lemma durable_ops [simp]:
  "durable (ro_emit ev st) = durable st" "durable (st\<lparr> ro_ipc := x \<rparr>) = durable st"
  "durable (st\<lparr> ro_secret := k, ro_ticket := t \<rparr>) = durable st"
  by (simp_all add: durable_def ro_emit_def)

lemma durable_call: "ro_call en c st = (b, st') \<Longrightarrow> durable st' = durable st"
  by (auto simp: ro_call_def)

lemma durable_drop: "drop_members en ps st = (b, st') \<Longrightarrow> durable st' = durable st"
proof (induction ps arbitrary: st)
  case (Cons p ps)
  obtain c s where c: "ro_call en (CallRemoveMember p) st = (c, s)" by force
  with Cons durable_call [OF c] show ?case by (cases c) auto
qed simp

lemma durable_refresh [simp]: "durable (refresh_distribution_state en oc st) = durable st"
  by (auto simp: refresh_distribution_state_def Let_def split: option.splits prod.splits bool.splits sum.splits
      dest!: durable_call durable_drop)

lemma durable_distribute [simp]: "durable (distribute en oc i ps st) = durable st"
  by (induction ps arbitrary: i st) (auto simp: ro_call_def split: option.splits)

lemma durable_reimport_local:
  assumes "reimport_namespace en (HostLocal ns e) st = (r, st')" "ro_epoch st = e"
  shows "ro_watermark st' = ro_watermark st" "ro_epoch st' = e"
    "ro_files st' ROTATED_REVOKE_SEQ_FILE = ro_files st ROTATED_REVOKE_SEQ_FILE"
  using assms
  by (auto simp: reimport_namespace_def record_namespace_def persist_u64_def write_file_def split: if_splits option.splits prod.splits)

lemma evict_effect:
  assumes "\<not> seq_get s \<le> ro_watermark st" "rx_up en" "rx_wait en 0 \<noteq> None" "rotate_namespace en (ro_epoch st) st = (Inr oc, st1)"
  shows "ro_watermark (handle_host_evict en p s st) = seq_get s" "ro_epoch (handle_host_evict en p s st) = oc_new_epoch oc"
    "rx_fail en ROTATED_REVOKE_SEQ_FILE = None \<Longrightarrow>
      read_u64_file (ro_files (handle_host_evict en p s st)) ROTATED_REVOKE_SEQ_FILE = Inr (seq_get s)"
proof -
  let ?st = "st1\<lparr> ro_epoch := oc_new_epoch oc, ro_watermark := seq_get s,
    ro_files := snd (persist_u64 (rx_fail en) ROTATED_REVOKE_SEQ_FILE (seq_get s) (ro_files st1)) \<rparr>"
  obtain r st2 where re: "reimport_namespace en (HostLocal (oc_new_namespace oc) (oc_new_epoch oc)) ?st = (r, st2)" by force
  note d = durable_reimport_local [OF re]
  have "durable (handle_host_evict en p s st) = durable st2"
    using assms re by (auto simp: handle_host_evict_def Let_def split: option.splits)
  then show "ro_watermark (handle_host_evict en p s st) = seq_get s" "ro_epoch (handle_host_evict en p s st) = oc_new_epoch oc"
    "rx_fail en ROTATED_REVOKE_SEQ_FILE = None \<Longrightarrow>
      read_u64_file (ro_files (handle_host_evict en p s st)) ROTATED_REVOKE_SEQ_FILE = Inr (seq_get s)"
    using d by (auto simp: durable_def persist_u64_def write_file_def intro!: u64_file_round_trip)
qed

text \<open>C18: a revocation rotates the namespace once.  After the host rotated for a revocation, handling that revocation
  or any earlier one of the log again changes nothing, however often the log is replayed; and when the mark was
  written, a restarted host recovers it.\<close>

theorem replayed_revocation_inert:
  assumes "\<not> seq_get s \<le> ro_watermark st" "rx_up en" "rx_wait en 0 \<noteq> None" "rotate_namespace en (ro_epoch st) st = (Inr oc, st1)"
    "\<forall>(q, t)\<in>set revokes. t \<le> s"
  shows "let st' = handle_host_evict en p s st in
    fold (\<lambda>(q, t). handle_host_evict (en' q t) q t) revokes st' = st'
    \<and> (rx_fail en ROTATED_REVOKE_SEQ_FILE = None \<longrightarrow> fst (recover_revoke_seq fail True (ro_files st')) = Inr (seq_get s))"
proof -
  let ?st' = "handle_host_evict en p s st"
  note w = evict_effect [OF assms(1-4), of p]
  have "fold (\<lambda>(q, t). handle_host_evict (en' q t) q t) revokes ?st' = ?st'"
    using assms(5)
  proof (induction revokes)
    case (Cons x xs)
    then show ?case using w(1) by (cases x) (simp add: handle_host_evict_def less_eq_seq_def)
  qed simp
  with w(3) show ?thesis by (simp add: Let_def recover_revoke_seq_def)
qed

lemma rotate_epoch: "rotate_namespace en prev st = (Inr oc, st') \<Longrightarrow> oc_new_epoch oc = prev + 1"
  by (auto simp: rotate_namespace_def Let_def split: if_splits sum.splits prod.splits option.splits)

text \<open>C25: any writer can make the host rotate.  The daemon accepts a capability message of every member that may write and hands it
  to the workspace.  When it carries a revocation and its author is not the host, no capability changes
  anywhere, but the listener of the host still signals an eviction, and handling the signal moves the
  workspace to a fresh namespace.\<close>

theorem member_forces_rotation:
  assumes "send ev ops now sid peer CapabilityKind action payload au ans r = (Inr m, r')" "get_session r sid = Some s" "s_kind s = Local"
    "decode_cap_action (e_cap_action ev) payload = Inr (Revoke q)" "pi_id peer \<noteq> s_host s"
    "ce_host en" "ce_session en = sid" "ce_cap_action en = e_cap_action ev" "pm_host (cl_map st) = s_host s"
    "\<not> seq_get (m_seq m) \<le> ro_watermark ro" "rx_up rx" "rx_wait rx 0 \<noteq> None" "rotate_namespace rx (ro_epoch ro) ro = (Inr oc, ro1)"
  shows "r_events r' = r_events r @ [EvMessage sid m] \<and> map_option s_caps (get_session r' sid) = Some (s_caps s)
    \<and> cl_map (snd (handle_cap_event en (EvMessage sid m) st)) = cl_map st
    \<and> cl_signals (snd (handle_cap_event en (EvMessage sid m) st)) = cl_signals st @ [HostEvict q (m_seq m)]
    \<and> ro_epoch (handle_rotation_signal rx (HostEvict q (m_seq m)) ro) = ro_epoch ro + 1"
proof -
  obtain ts sg n st' where acc: "m = session_message_new n ts peer CapabilityKind action payload sg (sign_seq_for ev r sid n sg)"
      "r' = emit (EvMessage sid m) (put_session sid (commit (e_cap_action ev) s m) (r\<lparr> r_store := st' \<rparr>))"
    by (rule send_Inr [OF assms(1-3)]) auto
  have m: "m_kind m = CapabilityKind" "m_peer m = peer" "m_payload m = payload" by (simp_all add: acc(1) session_message_new_def)
  have "s_caps (commit (e_cap_action ev) s m) = s_caps s"
    using assms(5) m by (simp add: commit_eq project_step_def apply_capability_to_def)
  then have "r_events r' = r_events r @ [EvMessage sid m]" "map_option s_caps (get_session r' sid) = Some (s_caps s)"
    by (simp_all add: acc(2) emit_def put_session_def update_conv')
  moreover have "cl_map (snd (handle_cap_event en (EvMessage sid m) st)) = cl_map st"
      "cl_signals (snd (handle_cap_event en (EvMessage sid m) st)) = cl_signals st @ [HostEvict q (m_seq m)]"
    using assms(4-9) m by (simp_all add: handle_capability_message_def pm_apply_capability_def Let_def cl_spawn_def cl_signal_def)
  moreover have "ro_epoch (handle_rotation_signal rx (HostEvict q (m_seq m)) ro) = ro_epoch ro + 1"
    using evict_effect(2) [OF assms(10-13), of q] rotate_epoch [OF assms(13)] by (simp add: handle_rotation_signal_def)
  ultimately show ?thesis by blast
qed

subsection \<open>Recreating a lost namespace\<close>

text \<open>C40: after a rotation a lost namespace is recreated at every start.  When the recorded current namespace is gone from the
  document store, a start creates a fresh genesis but leaves the record of the lost namespace, so that the next
  start, which could open the fresh one, again finds the lost one, and creates yet another genesis.\<close>

theorem recreated_namespace_not_kept:
  assumes "sd DOC_ID_FILE = Some (namespace_bytes g)" "sd CURRENT_NAMESPACE_FILE = Some (namespace_bytes gone)" "\<forall>f. fail f = None"
    "\<not> opens gone" "\<not> opens' gone"
  shows "\<exists>sd1 sd2. open_or_create_doc opens (Inr ns1) fail sd = (Inr \<lparr> od_doc = ns1, od_genesis = ns1, od_returning = False, od_epoch = 0 \<rparr>, sd1)
    \<and> read_namespace_file sd1 DOC_ID_FILE = Inr (Some ns1)
    \<and> open_or_create_doc opens' (Inr ns2) fail sd1 = (Inr \<lparr> od_doc = ns2, od_genesis = ns2, od_returning = False, od_epoch = 0 \<rparr>, sd2)"
proof -
  have r: "read_namespace_file sd DOC_ID_FILE = Inr (Some g)" "read_namespace_file sd CURRENT_NAMESPACE_FILE = Inr (Some gone)"
    using assms(1,2) by (simp_all add: namespace_file_round_trip)
  let ?sd = "sd(DOC_ID_FILE \<mapsto> namespace_bytes ns1, NAMESPACE_EPOCH_FILE := None)"
  have r1: "read_namespace_file ?sd DOC_ID_FILE = Inr (Some ns1)" "read_namespace_file ?sd CURRENT_NAMESPACE_FILE = Inr (Some gone)"
    using assms(2) by (simp_all add: namespace_file_round_trip)
  show ?thesis
    by (rule exI [of _ ?sd], rule exI [of _ "?sd(DOC_ID_FILE \<mapsto> namespace_bytes ns2, NAMESPACE_EPOCH_FILE := None)"])
      (use assms(3-5) r r1 in \<open>simp add: open_or_create_doc_def create_and_persist_def write_file_def\<close>)
qed

subsection \<open>Concrete rotations\<close>

definition sample_rotation :: "nat rotation" where
  "sample_rotation = \<lparr> ro_files = Map.empty, ro_epoch = 0, ro_watermark = 0, ro_doc = 1, ro_guard = echo_guard_new, ro_secret = 42,
    ro_ticket = (''t'', 0), ro_docs = [], ro_scans = [], ro_ipc = [], ro_events = [] \<rparr>"

text \<open>Endpoint 3 belongs to a writer, endpoint 4 to nobody known; endpoint 2 is the own one.\<close>

definition sample_rot_map :: peer_map where
  "sample_rot_map = \<lparr> pm_id_map = [(EndpointId 3, PeerId 5)], pm_caps = [(PeerId 7, ReadWrite), (PeerId 5, ReadWrite)], pm_revoked = [],
    pm_host = PeerId 7, pm_readiness = Ready \<rparr>"

definition sample_entries :: "nat snapshot_entry list" where
  "sample_entries = [\<lparr> se_author = 3, se_key = ''a'', se_hash = 10, se_len = 5 \<rparr>, \<lparr> se_author = 4, se_key = ''b'', se_hash = 11, se_len = 5 \<rparr>,
    \<lparr> se_author = 2, se_key = ''c'', se_hash = 12, se_len = 0 \<rparr>]"

definition sample_rot_env :: "nat rot_env" where
  "sample_rot_env = \<lparr> rx_up = True, rx_own = EndpointId 2, rx_endpoint = (\<lambda>a. Some (EndpointId a)), rx_snapshot = Inr (map Inr sample_entries),
    rx_maps = (\<lambda>_. Some sample_rot_map), rx_wait = (\<lambda>_. Some sample_rot_map), rx_create = Inr (77, 88), rx_write = (\<lambda>_. None),
    rx_share_write = Inr ''w'', rx_share_read = Inr ''r'', rx_fail = (\<lambda>_. None), rx_import = (\<lambda>_. None), rx_parse = (\<lambda>_. Inr 77),
    rx_ctx = True, rx_encode = (\<lambda>_ _. Inr []), rx_ipc = (\<lambda>_. None) \<rparr>"

lemma sample_rotated:
  "\<exists>oc st. rotate_namespace sample_rot_env 0 sample_rotation = (Inr oc, st) \<and> oc_new_namespace oc = 77"
  by (simp add: rotate_namespace_def collect_rotation_survivors_def sample_rot_env_def sample_entries_def classify_author_def has_rw_def sample_rot_map_def
      record_namespace_def persist_u64_def write_file_def Let_def)

theorem rotation_carries_writers_witness:
  "ro_docs (snd (rotate_namespace sample_rot_env 0 sample_rotation)) = [(77, DocSet ''a'' 10), (77, DocDel ''c'')]"
proof -
  obtain oc st where r: "rotate_namespace sample_rot_env 0 sample_rotation = (Inr oc, st)" "oc_new_namespace oc = 77" using sample_rotated by blast
  have "rx_maps sample_rot_env = (\<lambda>_. Some sample_rot_map)" "rx_snapshot sample_rot_env = Inr (map Inr sample_entries)"
    by (simp_all add: sample_rot_env_def)
  from rotation_carries_writers [OF r(1) this] r show ?thesis
    by (simp add: sample_rotation_def sample_rot_env_def sample_entries_def carries_def classify_author_def has_rw_def sample_rot_map_def carry_forward_def)
qed


theorem replayed_revocation_inert_witness:
  "let st' = handle_host_evict sample_rot_env (PeerId 5) (Seq 4) sample_rotation
   in handle_host_evict sample_rot_env (PeerId 6) (Seq 3) st' = st' \<and> fst (recover_revoke_seq (\<lambda>_. None) True (ro_files st')) = Inr 4"
proof -
  obtain oc st where r: "rotate_namespace sample_rot_env (ro_epoch sample_rotation) sample_rotation = (Inr oc, st)"
    using sample_rotated by (auto simp: sample_rotation_def)
  have "\<not> seq_get (Seq 4) \<le> ro_watermark sample_rotation" "rx_up sample_rot_env" "rx_wait sample_rot_env 0 \<noteq> None"
      "\<forall>(q, t)\<in>set [(PeerId 6, Seq 3)]. t \<le> Seq 4" "rx_fail sample_rot_env ROTATED_REVOKE_SEQ_FILE = None"
    by (simp_all add: sample_rot_env_def sample_rotation_def less_eq_seq_def)
  with replayed_revocation_inert [OF _ _ _ r, of "Seq 4" "[(PeerId 6, Seq 3)]" "PeerId 5" "\<lambda>_ _. sample_rot_env" "\<lambda>_. None"] show ?thesis
    by (simp add: Let_def)
qed

theorem recreated_namespace_not_kept_witness:
  "\<exists>sd1 sd2. open_or_create_doc (\<lambda>ns. ns = 5) (Inr 6) (\<lambda>_. None) [DOC_ID_FILE \<mapsto> namespace_bytes 5, CURRENT_NAMESPACE_FILE \<mapsto> namespace_bytes 9]
      = (Inr \<lparr> od_doc = 6, od_genesis = 6, od_returning = False, od_epoch = 0 \<rparr>, sd1)
    \<and> open_or_create_doc (\<lambda>ns. ns \<in> {5, 6}) (Inr 7) (\<lambda>_. None) sd1 = (Inr \<lparr> od_doc = 7, od_genesis = 7, od_returning = False, od_epoch = 0 \<rparr>, sd2)"
  using recreated_namespace_not_kept [of "[DOC_ID_FILE \<mapsto> namespace_bytes 5, CURRENT_NAMESPACE_FILE \<mapsto> namespace_bytes 9]" 5 9 "\<lambda>_. None"
      "\<lambda>ns. ns = 5" "\<lambda>ns. ns \<in> {5, 6}" 6 7]
  by (simp, blast)

text \<open>A writer that is not the host sends a revocation of another peer.\<close>

definition revoke_payload :: "byte list" where
  "revoke_payload = encode_cap_action (to_codec sd_cap_action) (Revoke (PeerId 6))"

lemma revoke_payload_facts: "length revoke_payload = 33" "decode_cap_action (to_codec sd_cap_action) revoke_payload = Inr (Revoke (PeerId 6))"
  by (simp add: revoke_payload_def encode_cap_action_def to_codec_def sd_cap_action_def sd_iso_def sd_sum_def sd_pair_def sd_word_def
      sd_cap_def sd_unit_def del: be_bytes.simps)
    (simp add: revoke_payload_def decode_encode_cap_action [OF to_codec_ok [OF sd_cap_action]])

lemma sample_revoke_sent:
  "\<exists>m. fst (send sample_env memory_ops 9 (SessionId 9) \<lparr> pi_id = PeerId 5, pi_display_name = ''bob'' \<rparr> CapabilityKind ACTION_REVOKE revoke_payload
    (ARemote 8 1) (Inl BSendTimeout) (admitted_run\<lparr> r_outbox := [] \<rparr>)) = Inr m \<and> seq_get (m_seq m) = 3"
  by (simp add: admitted_run_def sample_defs host_eval)
    (simp add: send_eval store_try_def ensure_member_def check_claim_def verify_ticket_cap_def sample_claim_def
      strict_check_def open_ed_def SIGNATURE_UNSIGNED_def ticket_admissible_def ledger_entry_def admit_peer_def
      auto_grant_on_join_def host_author_def apply_capability_def sample_grant_length ACTION_GRANT_def ACTION_REVOKE_def author_remote_def verify_message_def
      apply_capability_to_def revoke_payload_facts decode_encode_cap_action [OF to_codec_ok [OF sd_cap_action]])

lemma admitted_session:
  "\<exists>s. get_session (admitted_run\<lparr> r_outbox := [] \<rparr>) (SessionId 9) = Some s \<and> s_kind s = Local \<and> s_host s = PeerId 7"
  by (simp add: admitted_run_def sample_defs host_eval)
    (simp add: send_eval store_try_def ensure_member_def check_claim_def verify_ticket_cap_def sample_claim_def
      strict_check_def open_ed_def SIGNATURE_UNSIGNED_def ticket_admissible_def ledger_entry_def admit_peer_def
      auto_grant_on_join_def host_author_def apply_capability_def sample_grant_length ACTION_GRANT_def)

theorem member_forces_rotation_witness:
  "\<exists>m. ro_epoch sample_rotation = 0 \<and> ro_epoch (handle_rotation_signal sample_rot_env (HostEvict (PeerId 6) (m_seq m)) sample_rotation) = 1
    \<and> pi_id (m_peer m) = PeerId 5 \<and> pm_host (cl_map sample_listener) = PeerId 7
    \<and> HostEvict (PeerId 6) (m_seq m) \<in> set (cl_signals (snd (handle_cap_event sample_cl_env (EvMessage (SessionId 9) m) sample_listener)))"
proof -
  let ?bob = "\<lparr> pi_id = PeerId 5, pi_display_name = ''bob'' \<rparr>"
  let ?send = "send sample_env memory_ops 9 (SessionId 9) ?bob CapabilityKind ACTION_REVOKE revoke_payload
    (ARemote 8 1) (Inl BSendTimeout) (admitted_run\<lparr> r_outbox := [] \<rparr>)"
  obtain m r' where m: "?send = (Inr m, r')" "seq_get (m_seq m) = 3" using sample_revoke_sent by (metis prod.collapse)
  obtain s where s: "get_session (admitted_run\<lparr> r_outbox := [] \<rparr>) (SessionId 9) = Some s" "s_kind s = Local" "s_host s = PeerId 7"
    using admitted_session by blast
  obtain oc st where r: "rotate_namespace sample_rot_env (ro_epoch sample_rotation) sample_rotation = (Inr oc, st)"
    using sample_rotated by (auto simp: sample_rotation_def)
  have p: "m_peer m = ?bob" by (rule send_Inr [OF m(1) s(1,2)]) (simp add: session_message_new_def)
  have c: "e_cap_action sample_env = to_codec sd_cap_action" "ce_cap_action sample_cl_env = to_codec sd_cap_action"
    by (simp_all add: sample_env_def sample_cl_env_def)
  have "ro_epoch (handle_rotation_signal sample_rot_env (HostEvict (PeerId 6) (m_seq m)) sample_rotation) = ro_epoch sample_rotation + 1
    \<and> cl_signals (snd (handle_cap_event sample_cl_env (EvMessage (SessionId 9) m) sample_listener)) = cl_signals sample_listener @ [HostEvict (PeerId 6) (m_seq m)]"
    using member_forces_rotation [OF m(1) s(1,2), of "PeerId 6" sample_cl_env sample_listener sample_rotation sample_rot_env oc st] r m(2) s(3) c
    by (simp add: revoke_payload_facts sample_cl_env_def sample_listener_def sample_rotation_def sample_rot_env_def replaying_def with_state_def del: handle_cap_event.simps)
  then show ?thesis using p by (intro exI [of _ m]) (simp add: sample_rotation_def sample_listener_def replaying_def with_state_def del: handle_cap_event.simps)
qed

end
