(* ===== verification/Delivery.thy ===== *)
theory Delivery
  imports Mirror
begin

text \<open>
  Deliveries from host to peer over a stream of their own: the frames of \<open>artel-protocol/src/upgrade.rs\<close>, the
  sender \<open>deliver_frame\<close> of \<open>artel-daemon/src/server.rs\<close> and the receiver of \<open>upgrade_protocol.rs\<close>.  The
  QUIC stream is the list of bytes written to it; connecting and each read and write may fail.
\<close>

subsection \<open>Frames\<close>

definition UPGRADE_ALPN :: "byte list" where
  "UPGRADE_ALPN = map of_char ''artel/upgrade/2''"

definition UPGRADE_ACK :: byte where
  "UPGRADE_ACK = 1"

record upgrade_frame =
  uf_session_id :: session_id
  uf_namespace_secret :: "256 word"

datatype delivery_frame =
    Secret upgrade_frame
  | WorkspaceTicket session_id "byte list"
  | Downgrade session_id
  | Rotate session_id u64 string

definition to_le_bytes_u32 :: "nat \<Rightarrow> byte list" where
  "to_le_bytes_u32 n = rev (be_bytes 4 n)"

definition from_le_bytes :: "byte list \<Rightarrow> nat" where
  "from_le_bytes bs = from_be (rev bs)"

lemma from_le_to_le: "n < 2 ^ 32 \<Longrightarrow> from_le_bytes (to_le_bytes_u32 n) = n"
  by (simp add: from_le_bytes_def to_le_bytes_u32_def from_be_be_bytes del: be_bytes.simps)

lemma length_to_le [simp]: "length (to_le_bytes_u32 n) = 4"
  by (simp add: to_le_bytes_u32_def del: be_bytes.simps)

subsection \<open>The sender\<close>

text \<open>What the network does during one delivery: every failure is the text of its error, and the answer of the
  peer depends on the bytes it was sent.\<close>

record deliver_env =
  dv_endpoint_id :: "byte list \<Rightarrow> string option"
  dv_connect :: "string option"
  dv_open_bi :: "string option"
  dv_write_length :: "string option"
  dv_write_body :: "string option"
  dv_finish :: "string option"
  dv_answer :: "byte list \<Rightarrow> string + byte"
  dv_in_time :: bool

definition deliver_frame_inner :: "delivery_frame codec \<Rightarrow> deliver_env \<Rightarrow> peer_id \<Rightarrow> delivery_frame \<Rightarrow> string + unit" where
  "deliver_frame_inner pc dv target frame =
    (case dv_endpoint_id dv (pid_as_bytes target) of
       Some e \<Rightarrow> Inl (''target peer id is not a valid endpoint id: '' @ e)
     | None \<Rightarrow>
    (case dv_connect dv of
       Some e \<Rightarrow> Inl (''connect to target peer failed: '' @ e)
     | None \<Rightarrow>
    (case dv_open_bi dv of
       Some e \<Rightarrow> Inl (''open_bi failed: '' @ e)
     | None \<Rightarrow>
         let frame_bytes = enc pc frame in
         if length frame_bytes \<ge> 2 ^ 32 then Inl ''delivery frame too large''
         else
    (case dv_write_length dv of
       Some e \<Rightarrow> Inl (''write frame length failed: '' @ e)
     | None \<Rightarrow>
    (case dv_write_body dv of
       Some e \<Rightarrow> Inl (''write frame failed: '' @ e)
     | None \<Rightarrow>
    (case dv_finish dv of
       Some e \<Rightarrow> Inl (''stream finish failed: '' @ e)
     | None \<Rightarrow>
    (case dv_answer dv (to_le_bytes_u32 (length frame_bytes) @ frame_bytes) of
       Inl e \<Rightarrow> Inl (''read ACK failed: '' @ e)
     | Inr ack \<Rightarrow> if ack = UPGRADE_ACK then Inr () else Inl ''unexpected ACK byte from target'')))))))"

definition deliver_frame :: "delivery_frame codec \<Rightarrow> deliver_env \<Rightarrow> peer_id \<Rightarrow> delivery_frame \<Rightarrow> string + unit" where
  "deliver_frame pc dv target frame = (if dv_in_time dv then deliver_frame_inner pc dv target frame else Inl ''delivery timed out'')"

subsection \<open>The receiver\<close>

datatype accept_kind = AcWouldBlock | AcTimedOut | AcInvalidData | AcPermissionDenied | AcOther

datatype accept_error = AcceptError accept_kind string

definition MAX_CONCURRENT_ACCEPTS :: nat where
  "MAX_CONCURRENT_ACCEPTS = 32"

text \<open>The semaphore is the number of free permits.\<close>

definition try_begin_accept :: "nat \<Rightarrow> nat option" where
  "try_begin_accept permits = (if permits = 0 then None else Some (permits - 1))"

text \<open>\<open>RecvStream::read_exact\<close> fails when the stream ends early.\<close>

definition read_exact :: "nat \<Rightarrow> byte list \<Rightarrow> (string + byte list) \<times> byte list" where
  "read_exact n bs = (if n \<le> length bs then (Inr (take n bs), drop n bs) else (Inl ''stream finished early'', []))"

text \<open>Postcard on the frame and on the payloads of the injected messages.\<close>

record delivery_codecs =
  dl_frame :: "delivery_frame codec"
  dl_upgrade :: "upgrade_payload codec"
  dl_downgrade :: "downgrade_payload codec"
  dl_rotate :: "rotate_payload codec"

fun dispatch_delivery ::
  "delivery_codecs \<Rightarrow> 's store_ops \<Rightarrow> peer_id \<Rightarrow> delivery_frame \<Rightarrow> ('s, 'k) registry \<Rightarrow> (session_error + unit) \<times> ('s, 'k) registry" where
  "dispatch_delivery dl ops remote (Secret u) r = emit_upgrade (enc (dl_upgrade dl)) (uf_session_id u) remote (uf_namespace_secret u) r"
| "dispatch_delivery dl ops remote (WorkspaceTicket sid envelope) r = emit_workspace_ticket ops sid remote envelope r"
| "dispatch_delivery dl ops remote (Downgrade sid) r = emit_downgrade (enc (dl_downgrade dl)) sid remote r"
| "dispatch_delivery dl ops remote (Rotate sid epoch doc_ticket) r = emit_rotate (enc (dl_rotate dl)) sid remote epoch doc_ticket r"

text \<open>The result is the byte sent back.  \<open>acked\<close> is the error of writing it, if any.\<close>

definition handle_accept ::
  "delivery_codecs \<Rightarrow> 's store_ops \<Rightarrow> string option \<Rightarrow> string option \<Rightarrow> peer_id \<Rightarrow> byte list \<Rightarrow> ('s, 'k) registry
    \<Rightarrow> (accept_error + byte) \<times> ('s, 'k) registry" where
  "handle_accept dl ops accept_bi acked remote stream r =
    (case accept_bi of
       Some e \<Rightarrow> (Inl (AcceptError AcOther e), r)
     | None \<Rightarrow>
    (case read_exact 4 stream of
       (Inl e, _) \<Rightarrow> (Inl (AcceptError AcOther e), r)
     | (Inr len_buf, stream) \<Rightarrow>
         let len = from_le_bytes len_buf in
         if len > MAX_DELIVERY_FRAME then (Inl (AcceptError AcInvalidData ''delivery frame too large''), r)
         else
    (case read_exact len stream of
       (Inl e, _) \<Rightarrow> (Inl (AcceptError AcOther e), r)
     | (Inr buf, stream) \<Rightarrow>
    (case dec (dl_frame dl) buf of
       Inl e \<Rightarrow> (Inl (AcceptError AcInvalidData e), r)
     | Inr frame \<Rightarrow>
    (case dispatch_delivery dl ops remote frame r of
       (Inl e, r) \<Rightarrow> (Inl (AcceptError AcPermissionDenied ''delivery rejected''), r)
     | (Inr _, r) \<Rightarrow>
    (case acked of
       Some e \<Rightarrow> (Inl (AcceptError AcOther e), r)
     | None \<Rightarrow> (Inr UPGRADE_ACK, r)))))))"

text \<open>The deadline cuts the handshake before the dispatch (\<open>Some False\<close>) or after it (\<open>Some True\<close>).\<close>

definition accept ::
  "delivery_codecs \<Rightarrow> 's store_ops \<Rightarrow> nat \<Rightarrow> bool option \<Rightarrow> string option \<Rightarrow> string option \<Rightarrow> peer_id \<Rightarrow> byte list \<Rightarrow> ('s, 'k) registry
    \<Rightarrow> (accept_error + byte) \<times> ('s, 'k) registry" where
  "accept dl ops permits deadline accept_bi acked remote stream r =
    (if try_begin_accept permits = None then (Inl (AcceptError AcWouldBlock ''upgrade accept cap reached''), r)
     else case deadline of
         None \<Rightarrow> handle_accept dl ops accept_bi acked remote stream r
       | Some dispatched \<Rightarrow>
           (Inl (AcceptError AcTimedOut ''upgrade handshake timed out''),
            if dispatched then snd (handle_accept dl ops accept_bi acked remote stream r) else r))"

subsection \<open>Lemmas\<close>

lemma handle_accept_frame:
  assumes "codec_ok (dl_frame dl)" "length (enc (dl_frame dl) frame) \<le> MAX_DELIVERY_FRAME"
  shows "handle_accept dl ops None None remote (to_le_bytes_u32 (length (enc (dl_frame dl) frame)) @ enc (dl_frame dl) frame) r =
    (case dispatch_delivery dl ops remote frame r of
       (Inl e, r) \<Rightarrow> (Inl (AcceptError AcPermissionDenied ''delivery rejected''), r) | (Inr _, r) \<Rightarrow> (Inr UPGRADE_ACK, r))"
proof -
  have "from_le_bytes (to_le_bytes_u32 (length (enc (dl_frame dl) frame))) = length (enc (dl_frame dl) frame)"
    by (rule from_le_to_le) (use assms(2) in \<open>simp add: MAX_DELIVERY_FRAME_def\<close>)
  with assms show ?thesis
    by (simp add: handle_accept_def read_exact_def codec_okD Let_def split: prod.splits sum.splits)
qed

end
