(* ===== verification/Server.thy ===== *)
theory Server
  imports Delivery
begin

text \<open>
  The IPC surface of the daemon: the requests and responses of \<open>artel-protocol/src/rpc.rs\<close> and the connections of
  \<open>artel-daemon/src/server.rs\<close>.  A connection is a state that each incoming frame changes, with its responses
  as a trace; other connections and the bridge change the registry between two frames.  A subscription forwarder
  is the list of events it writes.
\<close>

subsection \<open>Requests and responses\<close>

datatype request_id = RequestId (rid_get: u64)

definition rid_next :: "request_id \<Rightarrow> request_id option" where
  "rid_next i = map_option RequestId (checked_add_1 (rid_get i))"

datatype request =
    RqHello protocol_version
  | RqHostSession string "session_id option"
  | RqJoinSession string ustring
  | RqListSessions
  | RqSubscribe session_id "seq option"
  | RqSend session_id message_kind string "byte list"
  | RqLeaveSession session_id
  | RqRegisterAttachment session_id string "byte list"
  | RqListAttachments "string option"
  | RqForgetAttachment session_id string
  | RqIssueTicket session_id capability u64
  | RqRevokeTicket session_id ticket_id
  | RqListTickets session_id
  | RqDeliverUpgrade session_id peer_id "256 word"
  | RqPublishWorkspaceTicket session_id "byte list"
  | RqDeliverDowngrade session_id peer_id
  | RqDeliverRotate session_id peer_id u64 string
  | RqRemoveSessionMember session_id peer_id

datatype response =
    RsHello protocol_version peer_id
  | RsHostSession session_id ustring ticket_id
  | RsJoinSession session_id "seq option"
  | RsListSessions "session_summary list"
  | RsSubscribed session_id
  | RsSent session_id seq
  | RsLeft session_id
  | RsAttachmentRegistered
  | RsAttachments "stored_attachment list"
  | RsAttachmentForgotten
  | RsIssuedTicket ustring ticket_id
  | RsUpgradeDelivered
  | RsError protocol_error
  | RsTicketRevoked
  | RsTickets "ticket_entry list"
  | RsWorkspaceTicketPublished
  | RsDowngradeDelivered
  | RsRotateDelivered
  | RsMemberRemoved

datatype wire_message =
    WRequest request_id request
  | WResponse request_id response
  | WEvent event

subsection \<open>Subscription forwarders\<close>

text \<open>What \<open>recv\<close> of the broadcast channel returns.\<close>

datatype received = Received event | Lagged nat | ChannelClosed

fun forward_live :: "session_id \<Rightarrow> received list \<Rightarrow> event list" where
  "forward_live sid [] = []"
| "forward_live sid (Received ev # rs) = ev # forward_live sid rs"
| "forward_live sid (Lagged n # rs) = EvGap sid # forward_live sid rs"
| "forward_live sid (ChannelClosed # rs) = []"

text \<open>The events a forwarder writes until a write fails or it is stopped, which is after \<open>k\<close> of them.\<close>

definition subscription_forwarder :: "nat \<Rightarrow> session_id \<Rightarrow> session_message list \<Rightarrow> received list \<Rightarrow> event list" where
  "subscription_forwarder k sid replay live =
    take k (map (EvMessage sid) replay @ [EvReplayComplete sid] @ forward_live sid live)"

text \<open>The set of forwarders of a connection.  A handle stands for a task; inserting returns the one to abort.\<close>

type_synonym forwarder_set = "(session_id \<times> nat) list"

definition forwarders_insert :: "session_id \<Rightarrow> nat \<Rightarrow> forwarder_set \<Rightarrow> nat option \<times> forwarder_set" where
  "forwarders_insert sid h fs = (map_of fs sid, AList.update sid h fs)"

definition forwarders_drop :: "forwarder_set \<Rightarrow> nat list" where
  "forwarders_drop fs = map snd (AList.clearjunk fs)"

subsection \<open>Connections\<close>

datatype conn_phase = AwaitHello | Serving | ConnEnded

record connection =
  cn_phase :: conn_phase
  cn_memberships :: "(session_id \<times> peer_info) list"
  cn_forwarders :: forwarder_set
  cn_spawned :: "(nat \<times> session_id \<times> session_message list) list"
  cn_aborted :: "nat list"
  cn_sent :: "wire_message list"

definition connection_new :: connection where
  "connection_new = \<lparr> cn_phase = AwaitHello, cn_memberships = [], cn_forwarders = [], cn_spawned = [], cn_aborted = [], cn_sent = [] \<rparr>"

text \<open>The surroundings of one request: the clock, drawn ids, the answers of the bridge, and the network.\<close>

record request_env =
  rq_now :: u64
  rq_draws :: "session_id list"
  rq_ticket_id :: ticket_id
  rq_subscribed :: "bridge_error + unit"
  rq_answer :: "nat \<Rightarrow> bridge_error + session_message"
  rq_resubscribed :: "bridge_error + unit"
  rq_deliver :: deliver_env
  rq_written :: bool

definition error_response :: "session_error \<Rightarrow> response" where
  "error_response e = RsError (to_protocol_error e)"

definition handle_hello :: "protocol_version \<Rightarrow> protocol_error + unit" where
  "handle_hello v = (if v \<noteq> PROTOCOL_VERSION then Inl (PVersionMismatch \<lparr> vm_client = v, vm_daemon = PROTOCOL_VERSION \<rparr>) else Inr ())"

definition dispatch_host ::
  "'k env \<Rightarrow> 's store_ops \<Rightarrow> request_env \<Rightarrow> string \<Rightarrow> session_id option \<Rightarrow> connection \<Rightarrow> ('s, 'k) registry
    \<Rightarrow> response \<times> connection \<times> ('s, 'k) registry" where
  "dispatch_host ev ops rq display_name session c r =
    (let peer = \<lparr> pi_id = r_daemon_peer_id r, pi_display_name = display_name \<rparr> in
     case registry_host ev ops (rq_now rq) (rq_draws rq) (rq_ticket_id rq) peer session ReadWrite 0 r of
       (Inr (sid, ticket, tid), r) \<Rightarrow>
         (RsHostSession sid ticket tid, c\<lparr> cn_memberships := AList.update sid peer (cn_memberships c) \<rparr>, r)
     | (Inl e, r) \<Rightarrow> (error_response e, c, r))"

definition dispatch_join ::
  "'k env \<Rightarrow> 's store_ops \<Rightarrow> request_env \<Rightarrow> string \<Rightarrow> ustring \<Rightarrow> connection \<Rightarrow> ('s, 'k) registry
    \<Rightarrow> response \<times> connection \<times> ('s, 'k) registry" where
  "dispatch_join ev ops rq display_name ticket c r =
    (let peer = \<lparr> pi_id = r_daemon_peer_id r, pi_display_name = display_name \<rparr> in
     case join ev ops (rq_subscribed rq) ticket peer r of
       (Inr (sid, head), r) \<Rightarrow> (RsJoinSession sid head, c\<lparr> cn_memberships := AList.update sid peer (cn_memberships c) \<rparr>, r)
     | (Inl e, r) \<Rightarrow> (error_response e, c, r))"

text \<open>\<open>Registry::resubscribe_remote_mirror\<close>; the bridge subscribes and its outcome is given.\<close>

definition resubscribe_remote_mirror ::
  "'k env \<Rightarrow> bridge_error + unit \<Rightarrow> session_id \<Rightarrow> ('s, 'k) registry \<Rightarrow> session_error + unit" where
  "resubscribe_remote_mirror ev answer sid r =
    (case get_session r sid of
       None \<Rightarrow> Inl (UnknownSession sid)
     | Some s \<Rightarrow>
         if \<not> r_bridge r then Inl (Internal ''remote re-subscribe requires gossip bridge'')
         else case answer of
             Inr _ \<Rightarrow> Inr ()
           | Inl (BInvalidAddr msg) \<Rightarrow> Inl (InvalidAddr msg)
           | Inl other \<Rightarrow> Inl (Internal (e_bridge_text ev other)))"

definition sent_response :: "session_id \<Rightarrow> session_error + session_message \<Rightarrow> response" where
  "sent_response sid res = (case res of Inr m \<Rightarrow> RsSent sid (m_seq m) | Inl e \<Rightarrow> error_response e)"

definition dispatch_send ::
  "'k env \<Rightarrow> 's store_ops \<Rightarrow> request_env \<Rightarrow> session_id \<Rightarrow> peer_info \<Rightarrow> message_kind \<Rightarrow> string \<Rightarrow> byte list \<Rightarrow> ('s, 'k) registry
    \<Rightarrow> response \<times> ('s, 'k) registry" where
  "dispatch_send ev ops rq sid peer kind action payload r =
    (case send ev ops (rq_now rq) sid peer kind action payload ALocal (rq_answer rq 0) r of
       (Inl (RemoteTopicMissing s), r) \<Rightarrow>
         (case resubscribe_remote_mirror ev (rq_resubscribed rq) sid r of
            Inl e \<Rightarrow> (error_response e, r)
          | Inr _ \<Rightarrow>
              (case send ev ops (rq_now rq) sid peer kind action payload ALocal (rq_answer rq 1) r of
                 (res, r) \<Rightarrow> (sent_response sid res, r)))
     | (res, r) \<Rightarrow> (sent_response sid res, r))"

text \<open>The shared body of the three delivery requests: only the host of the session may deliver.\<close>

definition dispatch_deliver ::
  "delivery_codecs \<Rightarrow> request_env \<Rightarrow> session_id \<Rightarrow> peer_id \<Rightarrow> delivery_frame \<Rightarrow> response \<Rightarrow> ('s, 'k) registry \<Rightarrow> response" where
  "dispatch_deliver dl rq sid target frame ok r =
    (case is_local_session r sid of
       Some False \<Rightarrow> RsError PNotHost
     | None \<Rightarrow> RsError (PUnknownSession sid)
     | Some True \<Rightarrow>
         if \<not> r_endpoint r then RsError (PInternal ''no iroh endpoint available'')
         else case deliver_frame (dl_frame dl) (rq_deliver rq) target frame of
             Inr _ \<Rightarrow> ok
           | Inl e \<Rightarrow> RsError (PInternal e))"

definition dispatch_deliver_upgrade ::
  "delivery_codecs \<Rightarrow> request_env \<Rightarrow> session_id \<Rightarrow> peer_id \<Rightarrow> 256 word \<Rightarrow> ('s, 'k) registry \<Rightarrow> response" where
  "dispatch_deliver_upgrade dl rq sid target secret r =
    dispatch_deliver dl rq sid target (Secret \<lparr> uf_session_id = sid, uf_namespace_secret = secret \<rparr>) RsUpgradeDelivered r"

definition dispatch_deliver_downgrade ::
  "delivery_codecs \<Rightarrow> request_env \<Rightarrow> session_id \<Rightarrow> peer_id \<Rightarrow> ('s, 'k) registry \<Rightarrow> response" where
  "dispatch_deliver_downgrade dl rq sid target r = dispatch_deliver dl rq sid target (Downgrade sid) RsDowngradeDelivered r"

definition dispatch_deliver_rotate ::
  "delivery_codecs \<Rightarrow> request_env \<Rightarrow> session_id \<Rightarrow> peer_id \<Rightarrow> u64 \<Rightarrow> string \<Rightarrow> ('s, 'k) registry \<Rightarrow> response" where
  "dispatch_deliver_rotate dl rq sid target epoch doc_ticket r =
    dispatch_deliver dl rq sid target (Rotate sid epoch doc_ticket) RsRotateDelivered r"

fun dispatch_attachment :: "'s store_ops \<Rightarrow> request \<Rightarrow> ('s, 'k) registry \<Rightarrow> response \<times> ('s, 'k) registry" where
  "dispatch_attachment ops (RqRegisterAttachment sid kind payload) r =
    (case register_attachment ops sid kind payload r of
       (Inr _, r) \<Rightarrow> (RsAttachmentRegistered, r) | (Inl e, r) \<Rightarrow> (error_response e, r))"
| "dispatch_attachment ops (RqListAttachments kind) r =
    (case list_attachments ops kind r of (Inr stored, r) \<Rightarrow> (RsAttachments stored, r) | (Inl e, r) \<Rightarrow> (error_response e, r))"
| "dispatch_attachment ops (RqForgetAttachment sid kind) r =
    (case forget_attachment ops sid kind r of (Inr _, r) \<Rightarrow> (RsAttachmentForgotten, r) | (Inl e, r) \<Rightarrow> (error_response e, r))"
| "dispatch_attachment ops _ r = (RsError (PInternal ''dispatch_attachment called with non-attachment variant''), r)"

text \<open>A request that needs membership of its session on this connection.\<close>

definition as_member ::
  "session_id \<Rightarrow> connection \<Rightarrow> ('s, 'k) registry \<Rightarrow> (peer_info \<Rightarrow> response \<times> connection \<times> ('s, 'k) registry)
    \<Rightarrow> response \<times> connection \<times> ('s, 'k) registry" where
  "as_member sid c r k = (case map_of (cn_memberships c) sid of None \<Rightarrow> (RsError (PNotSubscribed sid), c, r) | Some peer \<Rightarrow> k peer)"

definition unit_response :: "response \<Rightarrow> connection \<Rightarrow> (session_error + unit) \<times> ('s, 'k) registry \<Rightarrow> response \<times> connection \<times> ('s, 'k) registry" where
  "unit_response ok c x = (case x of (Inr _, r) \<Rightarrow> (ok, c, r) | (Inl e, r) \<Rightarrow> (error_response e, c, r))"

fun dispatch ::
  "'k env \<Rightarrow> delivery_codecs \<Rightarrow> 's store_ops \<Rightarrow> request_env \<Rightarrow> request \<Rightarrow> connection \<Rightarrow> ('s, 'k) registry
    \<Rightarrow> response \<times> connection \<times> ('s, 'k) registry" where
  "dispatch ev dl ops rq (RqHello v) c r = (RsError (PInternal ''Hello sent twice on one connection''), c, r)"
| "dispatch ev dl ops rq (RqHostSession name session) c r = dispatch_host ev ops rq name session c r"
| "dispatch ev dl ops rq (RqJoinSession name ticket) c r = dispatch_join ev ops rq name ticket c r"
| "dispatch ev dl ops rq RqListSessions c r = (RsListSessions (list_sessions r), c, r)"
| "dispatch ev dl ops rq (RqSubscribe sid since) c r =
    (case subscribe r sid since of
       Inl e \<Rightarrow> (error_response e, c, r)
     | Inr replay \<Rightarrow>
         let h = length (cn_spawned c);
             (prev, fs) = forwarders_insert sid h (cn_forwarders c)
         in (RsSubscribed sid, c\<lparr> cn_forwarders := fs, cn_spawned := cn_spawned c @ [(h, sid, replay)],
               cn_aborted := cn_aborted c @ (case prev of None \<Rightarrow> [] | Some p \<Rightarrow> [p]) \<rparr>, r))"
| "dispatch ev dl ops rq (RqSend sid kind action payload) c r =
    as_member sid c r (\<lambda>peer. case dispatch_send ev ops rq sid peer kind action payload r of (res, r) \<Rightarrow> (res, c, r))"
| "dispatch ev dl ops rq (RqLeaveSession sid) c r =
    as_member sid c r (\<lambda>peer.
      case leave ops sid (pi_id peer) r of
        (Inr _, r) \<Rightarrow> (RsLeft sid, c\<lparr> cn_memberships := AList.delete sid (cn_memberships c) \<rparr>, r)
      | (Inl e, r) \<Rightarrow> (error_response e, c, r))"
| "dispatch ev dl ops rq (RqRegisterAttachment sid kind payload) c r =
    (case dispatch_attachment ops (RqRegisterAttachment sid kind payload) r of (res, r) \<Rightarrow> (res, c, r))"
| "dispatch ev dl ops rq (RqListAttachments kind) c r = (case dispatch_attachment ops (RqListAttachments kind) r of (res, r) \<Rightarrow> (res, c, r))"
| "dispatch ev dl ops rq (RqForgetAttachment sid kind) c r = (case dispatch_attachment ops (RqForgetAttachment sid kind) r of (res, r) \<Rightarrow> (res, c, r))"
| "dispatch ev dl ops rq (RqIssueTicket sid cap expiry_ms) c r =
    as_member sid c r (\<lambda>_. case issue_ticket ev ops (rq_now rq) (rq_ticket_id rq) sid cap expiry_ms r of
        (Inr (ticket, tid), r) \<Rightarrow> (RsIssuedTicket ticket tid, c, r)
      | (Inl e, r) \<Rightarrow> (error_response e, c, r))"
| "dispatch ev dl ops rq (RqRevokeTicket sid tid) c r = as_member sid c r (\<lambda>_. unit_response RsTicketRevoked c (revoke_ticket ops sid tid r))"
| "dispatch ev dl ops rq (RqListTickets sid) c r =
    as_member sid c r (\<lambda>_. case list_tickets r sid of Inr entries \<Rightarrow> (RsTickets entries, c, r) | Inl e \<Rightarrow> (error_response e, c, r))"
| "dispatch ev dl ops rq (RqRemoveSessionMember sid target) c r = as_member sid c r (\<lambda>_. unit_response RsMemberRemoved c (remove_member ops sid target r))"
| "dispatch ev dl ops rq (RqDeliverUpgrade sid target secret) c r = as_member sid c r (\<lambda>_. (dispatch_deliver_upgrade dl rq sid target secret r, c, r))"
| "dispatch ev dl ops rq (RqPublishWorkspaceTicket sid envelope) c r =
    as_member sid c r (\<lambda>_. unit_response RsWorkspaceTicketPublished c (publish_workspace_ticket ops sid envelope r))"
| "dispatch ev dl ops rq (RqDeliverDowngrade sid target) c r = as_member sid c r (\<lambda>_. (dispatch_deliver_downgrade dl rq sid target r, c, r))"
| "dispatch ev dl ops rq (RqDeliverRotate sid target epoch doc_ticket) c r =
    as_member sid c r (\<lambda>_. (dispatch_deliver_rotate dl rq sid target epoch doc_ticket r, c, r))"

text \<open>What the stream of a connection yields: a frame, a frame that does not decode, or its end (or the shutdown).
  The connection ends by dropping its forwarders.\<close>

datatype incoming = Frame wire_message | BrokenFrame | EndOfStream

definition conn_end :: "connection \<Rightarrow> connection" where
  "conn_end c = c\<lparr> cn_phase := ConnEnded, cn_forwarders := [], cn_aborted := cn_aborted c @ forwarders_drop (cn_forwarders c) \<rparr>"

text \<open>A response that cannot be written ends the connection.\<close>

definition respond :: "request_env \<Rightarrow> request_id \<Rightarrow> response \<Rightarrow> connection \<Rightarrow> connection" where
  "respond rq i res c = (if rq_written rq then c\<lparr> cn_sent := cn_sent c @ [WResponse i res] \<rparr> else conn_end c)"

definition serve_hello :: "request_env \<Rightarrow> wire_message \<Rightarrow> connection \<Rightarrow> ('s, 'k) registry \<Rightarrow> connection" where
  "serve_hello rq w c r =
    (case w of
       WRequest i (RqHello v) \<Rightarrow>
         (case handle_hello v of
            Inr _ \<Rightarrow> respond rq i (RsHello PROTOCOL_VERSION (r_daemon_peer_id r)) (c\<lparr> cn_phase := Serving \<rparr>)
          | Inl e \<Rightarrow> conn_end (respond rq i (RsError e) c))
     | WRequest i _ \<Rightarrow> conn_end (respond rq i (RsError (PInternal ''expected Hello as first request'')) c)
     | _ \<Rightarrow> conn_end c)"

definition serve_request ::
  "'k env \<Rightarrow> delivery_codecs \<Rightarrow> 's store_ops \<Rightarrow> request_env \<Rightarrow> wire_message \<Rightarrow> connection \<Rightarrow> ('s, 'k) registry \<Rightarrow> connection \<times> ('s, 'k) registry" where
  "serve_request ev dl ops rq w c r =
    (case w of
       WRequest i req \<Rightarrow> (case dispatch ev dl ops rq req c r of (res, c, r) \<Rightarrow> (respond rq i res c, r))
     | _ \<Rightarrow> (c, r))"

definition serve_connection ::
  "'k env \<Rightarrow> delivery_codecs \<Rightarrow> 's store_ops \<Rightarrow> request_env \<Rightarrow> incoming \<Rightarrow> connection \<Rightarrow> ('s, 'k) registry \<Rightarrow> connection \<times> ('s, 'k) registry" where
  "serve_connection ev dl ops rq x c r =
    (case cn_phase c of
       ConnEnded \<Rightarrow> (c, r)
     | AwaitHello \<Rightarrow> (case x of Frame w \<Rightarrow> (serve_hello rq w c r, r) | _ \<Rightarrow> (conn_end c, r))
     | Serving \<Rightarrow> (case x of Frame w \<Rightarrow> serve_request ev dl ops rq w c r | _ \<Rightarrow> (conn_end c, r)))"

end
