(* ===== verification/Client.thy ===== *)
theory Client
  imports Server
begin

text \<open>
  The client library: the codec of \<open>artel-protocol/src/transport/codec.rs\<close> and the client of
  \<open>artel-client/src/client.rs\<close>.  A client is a state changed by its caller, by the reader task and by the consumer of
  its events, whose steps interleave.  Request ids name the waiting futures, so they are distinct until the
  counter wraps.
\<close>

subsection \<open>Frames on the socket\<close>

datatype socket_error = SkInvalidData string | SkOther string

datatype transport_error = TIo socket_error | TFrameTooLarge nat | TMalformed string

definition MAX_WIRE_FRAME :: nat where
  "MAX_WIRE_FRAME = 16 * 1024 * 1024"

text \<open>\<open>LengthDelimitedCodec\<close> of another package: decoding needs more bytes (\<^const>\<open>None\<close>), or yields a frame and what
  follows it.\<close>

record length_delimited =
  ld_encode :: "byte list \<Rightarrow> byte list \<Rightarrow> socket_error + byte list"
  ld_decode :: "byte list \<Rightarrow> socket_error + (byte list \<times> byte list) option"

definition translate_length_error :: "socket_error \<Rightarrow> transport_error" where
  "translate_length_error e = (case e of SkInvalidData t \<Rightarrow> TFrameTooLarge 0 | SkOther t \<Rightarrow> TIo e)"

definition wire_decode ::
  "length_delimited \<Rightarrow> wire_message codec \<Rightarrow> byte list \<Rightarrow> transport_error + (wire_message \<times> byte list) option" where
  "wire_decode ld pc src =
    (case ld_decode ld src of
       Inr (Some (frame, rest)) \<Rightarrow> (case dec pc frame of Inl e \<Rightarrow> Inl (TMalformed e) | Inr msg \<Rightarrow> Inr (Some (msg, rest)))
     | Inr None \<Rightarrow> Inr None
     | Inl e \<Rightarrow> Inl (translate_length_error e))"

definition wire_encode ::
  "length_delimited \<Rightarrow> wire_message codec \<Rightarrow> wire_message \<Rightarrow> byte list \<Rightarrow> transport_error + byte list" where
  "wire_encode ld pc item dst =
    (let bytes = enc pc item in
     if length bytes > MAX_WIRE_FRAME then Inl (TFrameTooLarge (length bytes))
     else case ld_encode ld bytes dst of Inl e \<Rightarrow> Inl (translate_length_error e) | Inr dst' \<Rightarrow> Inr dst')"

subsection \<open>The client\<close>

datatype spawn_error = Launch string socket_error | SpawnTimeout string nat

datatype client_error =
    CeTransport transport_error
  | CeProtocol protocol_error
  | CeConnectionClosed
  | CeUnexpectedResponse response
  | CeShutdown
  | CeSpawn spawn_error

definition EVENTS_QUEUE_CAPACITY :: nat where
  "EVENTS_QUEUE_CAPACITY = 256"

text \<open>
  The pending map is the set of its keys, and an answer is the response waiting in the channel of a request.
  The gaps are an ordered set, kept as a sorted list.  \<open>cc_taken\<close> is what the consumer has received.
\<close>

record client =
  cc_next_id :: u64
  cc_pending :: "request_id set"
  cc_answers :: "(request_id \<times> response) list"
  cc_closed :: bool
  cc_writer :: bool
  cc_out :: "wire_message list"
  cc_gaps :: "session_id list"
  cc_queue :: "event list"
  cc_events_open :: bool
  cc_handed :: bool
  cc_taken :: "event list"
  cc_daemon_version :: protocol_version
  cc_daemon_peer_id :: peer_id

definition client_spawn :: "protocol_version \<Rightarrow> peer_id \<Rightarrow> client" where
  "client_spawn v p = \<lparr> cc_next_id = 1, cc_pending = {}, cc_answers = [], cc_closed = False, cc_writer = True, cc_out = [],
    cc_gaps = [], cc_queue = [], cc_events_open = True, cc_handed = False, cc_taken = [], cc_daemon_version = v, cc_daemon_peer_id = p \<rparr>"

definition unexpected :: "wire_message \<Rightarrow> client_error" where
  "unexpected w = (case w of WResponse i res \<Rightarrow> CeUnexpectedResponse res | _ \<Rightarrow> CeConnectionClosed)"

definition hello_frame :: wire_message where
  "hello_frame = WRequest (RequestId 0) (RqHello PROTOCOL_VERSION)"

text \<open>\<open>sent\<close> is the error of sending the hello, \<open>frame\<close> what the stream yields next.\<close>

definition handshake :: "transport_error option \<Rightarrow> (transport_error + wire_message) option \<Rightarrow> client_error + client" where
  "handshake sent frame =
    (case sent of
       Some e \<Rightarrow> Inl (CeTransport e)
     | None \<Rightarrow>
    (case frame of
       None \<Rightarrow> Inl CeConnectionClosed
     | Some (Inl e) \<Rightarrow> Inl (CeTransport e)
     | Some (Inr (WResponse i (RsHello v p))) \<Rightarrow>
         if i = RequestId 0 then Inr (client_spawn v p) else Inl (unexpected (WResponse i (RsHello v p)))
     | Some (Inr (WResponse i (RsError e))) \<Rightarrow>
         if i = RequestId 0 then Inl (CeProtocol e) else Inl (unexpected (WResponse i (RsError e)))
     | Some (Inr other) \<Rightarrow> Inl (unexpected other)))"

definition alloc_id :: "client \<Rightarrow> request_id \<times> client" where
  "alloc_id c = (RequestId (cc_next_id c), c\<lparr> cc_next_id := cc_next_id c + 1 \<rparr>)"

text \<open>The guard of a request: dropping it ends the channel of the request too.\<close>

definition pending_insert :: "request_id \<Rightarrow> client \<Rightarrow> client" where
  "pending_insert i c = c\<lparr> cc_pending := insert i (cc_pending c) \<rparr>"

definition pending_drop :: "request_id \<Rightarrow> client \<Rightarrow> client" where
  "pending_drop i c = c\<lparr> cc_pending := cc_pending c - {i}, cc_answers := filter (\<lambda>(j, res). j \<noteq> i) (cc_answers c) \<rparr>"

text \<open>A request up to its wait, and one look at what it waits for: \<^const>\<open>None\<close> while there is neither.\<close>

definition request_begin :: "request \<Rightarrow> client \<Rightarrow> (client_error + request_id) \<times> client" where
  "request_begin req c =
    (if cc_closed c then (Inl CeConnectionClosed, c)
     else
       let (i, c) = alloc_id c; c = pending_insert i c in
       if cc_writer c then (Inr i, c\<lparr> cc_out := cc_out c @ [WRequest i req] \<rparr>)
       else (Inl CeConnectionClosed, pending_drop i c))"

definition response_outcome :: "response \<Rightarrow> client_error + response" where
  "response_outcome res = (case res of RsError e \<Rightarrow> Inl (CeProtocol e) | other \<Rightarrow> Inr other)"

definition request_poll :: "request_id \<Rightarrow> client \<Rightarrow> (client_error + response) option \<times> client" where
  "request_poll i c =
    (case map_of (cc_answers c) i of
       Some res \<Rightarrow> (Some (response_outcome res), pending_drop i c)
     | None \<Rightarrow> if i \<notin> cc_pending c \<or> cc_closed c then (Some (Inl CeConnectionClosed), pending_drop i c) else (None, c))"

definition take_events :: "client \<Rightarrow> bool \<times> client" where
  "take_events c = (\<not> cc_handed c, c\<lparr> cc_handed := True \<rparr>)"

subsection \<open>The reader\<close>

fun event_session :: "event \<Rightarrow> session_id" where
  "event_session (EvMessage i m) = i"
| "event_session (EvPeerJoined i p) = i"
| "event_session (EvPeerLeft i p) = i"
| "event_session (EvSessionClosed i) = i"
| "event_session (EvGap i) = i"
| "event_session (EvReplayComplete i) = i"

text \<open>The derived order of session ids, which orders the gaps.\<close>

instantiation session_id :: linorder
begin
definition less_eq_session_id :: "session_id \<Rightarrow> session_id \<Rightarrow> bool" where
  "i \<le> j \<longleftrightarrow> sid_uuid i \<le> sid_uuid j"
definition less_session_id :: "session_id \<Rightarrow> session_id \<Rightarrow> bool" where
  "i < j \<longleftrightarrow> sid_uuid i < sid_uuid j"
instance
  by standard (auto simp: less_eq_session_id_def less_session_id_def intro: session_id.expand)
end

definition reader_response :: "request_id \<Rightarrow> response \<Rightarrow> client \<Rightarrow> client" where
  "reader_response i res c =
    (if i \<in> cc_pending c then c\<lparr> cc_pending := cc_pending c - {i}, cc_answers := cc_answers c @ [(i, res)] \<rparr> else c)"

definition reader_event :: "event \<Rightarrow> client \<Rightarrow> client" where
  "reader_event ev c =
    (if event_session ev \<in> set (cc_gaps c) then c
     else if \<not> cc_events_open c then c
     else if length (cc_queue c) < EVENTS_QUEUE_CAPACITY then c\<lparr> cc_queue := cc_queue c @ [ev] \<rparr>
     else c\<lparr> cc_gaps := insort_insert (event_session ev) (cc_gaps c) \<rparr>)"

fun reader_frame :: "wire_message \<Rightarrow> client \<Rightarrow> client" where
  "reader_frame (WResponse i res) c = reader_response i res c"
| "reader_frame (WEvent ev) c = reader_event ev c"
| "reader_frame (WRequest i req) c = c"

text \<open>The branch that reports the first gap once the queue has room.\<close>

definition reader_gap :: "client \<Rightarrow> client" where
  "reader_gap c =
    (case cc_gaps c of
       [] \<Rightarrow> c
     | s # gs \<Rightarrow>
         if \<not> cc_events_open c then c\<lparr> cc_gaps := [] \<rparr>
         else if length (cc_queue c) < EVENTS_QUEUE_CAPACITY then c\<lparr> cc_gaps := gs, cc_queue := cc_queue c @ [EvGap s] \<rparr>
         else c)"

definition reader_exit :: "client \<Rightarrow> client" where
  "reader_exit c = c\<lparr> cc_closed := True, cc_pending := {} \<rparr>"

text \<open>The consumer receives an event, or drops the stream.  The writer may stop.\<close>

definition events_recv :: "client \<Rightarrow> client" where
  "events_recv c = (case cc_queue c of [] \<Rightarrow> c | e # es \<Rightarrow> c\<lparr> cc_queue := es, cc_taken := cc_taken c @ [e] \<rparr>)"

definition events_drop :: "client \<Rightarrow> client" where
  "events_drop c = c\<lparr> cc_events_open := False, cc_queue := [] \<rparr>"

definition writer_exit :: "client \<Rightarrow> client" where
  "writer_exit c = c\<lparr> cc_writer := False \<rparr>"

subsection \<open>Runs of a client\<close>

text \<open>The steps of the tasks of a client in any order.  The list has the frames read so far.\<close>

inductive client_run :: "wire_message list \<Rightarrow> client \<Rightarrow> bool" where
  cr_spawn: "client_run [] (client_spawn v p)"
| cr_frame: "\<lbrakk>client_run ws c; \<not> cc_closed c\<rbrakk> \<Longrightarrow> client_run (ws @ [w]) (reader_frame w c)"
| cr_gap: "\<lbrakk>client_run ws c; \<not> cc_closed c\<rbrakk> \<Longrightarrow> client_run ws (reader_gap c)"
| cr_exit: "client_run ws c \<Longrightarrow> client_run ws (reader_exit c)"
| cr_writer: "client_run ws c \<Longrightarrow> client_run ws (writer_exit c)"
| cr_recv: "client_run ws c \<Longrightarrow> client_run ws (events_recv c)"
| cr_drop: "client_run ws c \<Longrightarrow> client_run ws (events_drop c)"
| cr_take: "client_run ws c \<Longrightarrow> client_run ws (snd (take_events c))"
| cr_begin: "client_run ws c \<Longrightarrow> client_run ws (snd (request_begin req c))"
| cr_poll: "client_run ws c \<Longrightarrow> client_run ws (snd (request_poll i c))"
| cr_cancel: "client_run ws c \<Longrightarrow> client_run ws (pending_drop i c)"

fun wire_events :: "wire_message list \<Rightarrow> event list" where
  "wire_events [] = []"
| "wire_events (WEvent e # ws) = e # wire_events ws"
| "wire_events (w # ws) = wire_events ws"

text \<open>The events \<open>seen\<close> of a session among the events \<open>es\<close> that were sent: each run of lost events is followed by a gap
  before anything else of the session.  The last argument says that a gap is still to come.\<close>

inductive lossy :: "session_id \<Rightarrow> event list \<Rightarrow> event list \<Rightarrow> bool \<Rightarrow> bool" for sid where
  lossy_none: "lossy sid [] [] False"
| lossy_keep: "lossy sid es seen False \<Longrightarrow> lossy sid (es @ [e]) (seen @ [e]) False"
| lossy_lose: "lossy sid es seen b \<Longrightarrow> lossy sid (es @ [e]) seen True"
| lossy_gap: "lossy sid es seen True \<Longrightarrow> lossy sid es (seen @ [EvGap sid]) False"

text \<open>The events of one session.\<close>

definition channel :: "session_id \<Rightarrow> event list \<Rightarrow> event list" where
  "channel sid es = filter (\<lambda>e. event_session e = sid) es"

lemma channel_simps [simp]:
  "channel sid [] = []" "channel sid (xs @ ys) = channel sid xs @ channel sid ys"
  "channel sid (e # es) = (if event_session e = sid then [e] else []) @ channel sid es"
  by (simp_all add: channel_def)

lemma wire_events_append [simp]: "wire_events (xs @ ys) = wire_events xs @ wire_events ys"
  by (induction xs rule: wire_events.induct) simp_all

definition client_events_ok :: "session_id \<Rightarrow> event list \<Rightarrow> client \<Rightarrow> bool" where
  "client_events_ok sid es c \<longleftrightarrow> sorted (cc_gaps c) \<and> distinct (cc_gaps c)
    \<and> (cc_events_open c \<longrightarrow> lossy sid (channel sid es) (channel sid (cc_taken c @ cc_queue c)) (sid \<in> set (cc_gaps c)))"

lemma client_frames [simp]:
  "cc_gaps (snd (take_events c)) = cc_gaps c" "cc_gaps (snd (request_begin req c)) = cc_gaps c" "cc_gaps (snd (request_poll i c)) = cc_gaps c"
  "cc_gaps (pending_drop i c) = cc_gaps c" "cc_queue (snd (take_events c)) = cc_queue c" "cc_queue (snd (request_begin req c)) = cc_queue c"
  "cc_queue (snd (request_poll i c)) = cc_queue c" "cc_queue (pending_drop i c) = cc_queue c"
  "cc_taken (snd (take_events c)) = cc_taken c" "cc_taken (snd (request_begin req c)) = cc_taken c"
  "cc_taken (snd (request_poll i c)) = cc_taken c" "cc_taken (pending_drop i c) = cc_taken c"
  "cc_events_open (snd (take_events c)) = cc_events_open c" "cc_events_open (snd (request_begin req c)) = cc_events_open c"
  "cc_events_open (snd (request_poll i c)) = cc_events_open c" "cc_events_open (pending_drop i c) = cc_events_open c"
  by (simp_all add: Let_def take_events_def request_begin_def request_poll_def pending_drop_def pending_insert_def alloc_id_def Let_def split: option.splits)

lemma client_run_events: "client_run ws c \<Longrightarrow> client_events_ok sid (wire_events ws) c"
proof (induction rule: client_run.induct)
  case (cr_frame ws c w)
  then show ?case
    by (cases w) (auto simp: client_events_ok_def reader_event_def reader_response_def sorted_insort_insert distinct_insort_insert set_insort_insert
        append_assoc [symmetric] simp del: append_assoc intro: lossy_keep lossy_lose)
next
  case (cr_gap ws c)
  then show ?case
    by (auto simp: client_events_ok_def reader_gap_def append_assoc [symmetric] simp del: append_assoc split: list.splits intro: lossy_gap)
next
  case (cr_recv ws c)
  then show ?case by (auto simp: client_events_ok_def events_recv_def split: list.splits)
qed (auto simp: client_events_ok_def client_spawn_def reader_exit_def writer_exit_def events_drop_def intro: lossy_none)

end
