(* ===== verification/Host_Events.thy ===== *)
theory Host_Events
  imports Client Listener_Guarantees Bridge_Guarantees
begin

text \<open>
  The events of a hosted session are its log: whatever operation runs, the messages it emits for the session are
  exactly those it appends to the log, in order, until the session closes.  Hence a subscription carries the log,
  and the listener of a workspace at the host follows the capabilities of the daemon.
\<close>

subsection \<open>Events and log in step\<close>

definition grown :: "session_id \<Rightarrow> session \<Rightarrow> event list \<Rightarrow> session \<Rightarrow> bool" where
  "grown sid s evs s' \<longleftrightarrow> s_kind s' = Local \<and> s_host s' = s_host s \<and> s_log s' = s_log s @ numbered sid evs
    \<and> made_up_ok sid evs \<and> EvGap sid \<notin> set evs"

definition tracks :: "session_id \<Rightarrow> ('s, 'k) registry \<Rightarrow> ('s, 'k) registry \<Rightarrow> bool" where
  "tracks sid r r' \<longleftrightarrow> (\<exists>evs. r_events r' = r_events r @ evs \<and> (\<forall>s. get_session r sid = Some s \<and> s_kind s = Local
    \<longrightarrow> EvSessionClosed sid \<in> set evs \<or> (\<exists>s'. get_session r' sid = Some s' \<and> grown sid s evs s')))"

text \<open>An event that is no message and no gap of the session.\<close>

definition calm_event :: "session_id \<Rightarrow> event \<Rightarrow> bool" where
  "calm_event sid ev \<longleftrightarrow> event_message sid ev = None \<and> ev \<noteq> EvGap sid"

lemma calm_event_simps [simp]:
  "calm_event sid (EvPeerJoined i p)" "calm_event sid (EvPeerLeft i q)" "calm_event sid (EvSessionClosed i)"
  by (simp_all add: calm_event_def event_message_def)

lemma grown_refl: "s_kind s = Local \<Longrightarrow> grown sid s [] s"
  by (simp add: grown_def numbered_def made_up_ok_def)

lemma grown_calm: "\<lbrakk>grown sid s evs s'; calm_event sid ev\<rbrakk> \<Longrightarrow> grown sid s (evs @ [ev]) s'"
  by (auto simp: grown_def numbered_def made_up_ok_def calm_event_def)

lemma grown_trans: "\<lbrakk>grown sid a evs b; grown sid b evs' c\<rbrakk> \<Longrightarrow> grown sid a (evs @ evs') c"
  by (auto simp: grown_def numbered_def made_up_ok_def)

lemma tracks_refl [simp]: "tracks sid r r"
  by (auto simp: tracks_def intro: grown_refl)

lemma tracks_trans:
  assumes "tracks sid a b" "tracks sid b c"
  shows "tracks sid a c"
proof -
  obtain e1 where e1: "r_events b = r_events a @ e1" "\<And>s. \<lbrakk>get_session a sid = Some s; s_kind s = Local\<rbrakk>
      \<Longrightarrow> EvSessionClosed sid \<in> set e1 \<or> (\<exists>s'. get_session b sid = Some s' \<and> grown sid s e1 s')"
    using assms(1) unfolding tracks_def by blast
  obtain e2 where e2: "r_events c = r_events b @ e2" "\<And>s. \<lbrakk>get_session b sid = Some s; s_kind s = Local\<rbrakk>
      \<Longrightarrow> EvSessionClosed sid \<in> set e2 \<or> (\<exists>s'. get_session c sid = Some s' \<and> grown sid s e2 s')"
    using assms(2) unfolding tracks_def by blast
  have "EvSessionClosed sid \<in> set (e1 @ e2) \<or> (\<exists>s'. get_session c sid = Some s' \<and> grown sid s (e1 @ e2) s')"
    if s: "get_session a sid = Some s" "s_kind s = Local" for s
    using e1(2) [OF s]
  proof
    assume "\<exists>s'. get_session b sid = Some s' \<and> grown sid s e1 s'"
    then obtain s' where s': "get_session b sid = Some s'" "grown sid s e1 s'" by blast
    then have "s_kind s' = Local" by (simp add: grown_def)
    from e2(2) [OF s'(1) this] show ?thesis using grown_trans [OF s'(2)] by auto
  qed auto
  then show ?thesis using e1(1) e2(1) unfolding tracks_def by (intro exI [of _ "e1 @ e2"]) simp
qed

lemma tracks_emit: "\<lbrakk>tracks sid r r'; calm_event sid ev\<rbrakk> \<Longrightarrow> tracks sid r (emit ev r')"
  unfolding tracks_def emit_def by (elim exE conjE, rule_tac x = "evs @ [ev]" in exI) (auto intro: grown_calm)

lemma tracks_frame [simp]:
  "tracks sid r (bridge_do c r') = tracks sid r r'" "tracks sid r (r'\<lparr> r_store := st \<rparr>) = tracks sid r r'"
  "tracks sid r (deliver_workspace_ticket_to i t en r') = tracks sid r r'"
  by (simp_all add: tracks_def bridge_do_def deliver_workspace_ticket_to_def split: option.splits)

lemma tracks_deliver_all [simp]: "tracks sid r (fold (\<lambda>m. deliver_workspace_ticket_to i m en) ms r') = tracks sid r r'"
  by (induction ms arbitrary: r') simp_all

subsection \<open>Quiet changes\<close>

definition quiet :: "session_id \<Rightarrow> ('s, 'k) registry \<Rightarrow> ('s, 'k) registry \<Rightarrow> bool" where
  "quiet sid r r' \<longleftrightarrow> r_events r' = r_events r \<and> (\<forall>s. get_session r sid = Some s \<and> s_kind s = Local
    \<longrightarrow> (\<exists>s'. get_session r' sid = Some s' \<and> s_kind s' = Local \<and> s_host s' = s_host s \<and> s_log s' = s_log s))"

lemma quiet_refl [simp]: "quiet sid r r"
  by (auto simp: quiet_def)

lemma quiet_frame [simp]:
  "quiet sid r (bridge_do c r') = quiet sid r r'" "quiet sid r (r'\<lparr> r_store := st \<rparr>) = quiet sid r r'"
  by (simp_all add: quiet_def bridge_do_def)

lemma quiet_put:
  "\<lbrakk>quiet sid r r'; get_session r i = Some s; s_kind s' = s_kind s; s_host s' = s_host s; s_log s' = s_log s\<rbrakk> \<Longrightarrow> quiet sid r (put_session i s' r')"
  by (auto simp: quiet_def put_session_def update_conv')

lemma quiet_other: "\<lbrakk>quiet sid r r'; \<And>s. get_session r i = Some s \<Longrightarrow> s_kind s \<noteq> Local\<rbrakk> \<Longrightarrow> quiet sid r (put_session i s' r')"
  "\<lbrakk>quiet sid r r'; \<And>s. get_session r i = Some s \<Longrightarrow> s_kind s \<noteq> Local\<rbrakk> \<Longrightarrow> quiet sid r (remove_session i r')"
  by (auto simp: quiet_def put_session_def remove_session_def update_conv' delete_conv')

lemma quiet_tracks: "quiet sid r r' \<Longrightarrow> tracks sid r r'"
  unfolding quiet_def tracks_def
  by (intro exI [of _ "[]"]) (fastforce simp: grown_def numbered_def made_up_ok_def)

lemma tracks_store_try:
  "\<lbrakk>tracks sid r r'; \<And>v st. tracks sid r (snd (k v (r'\<lparr> r_store := st \<rparr>)))\<rbrakk> \<Longrightarrow> tracks sid r (snd (store_try io r' k))"
  by (auto simp: store_try_def Let_def split: prod.splits sum.splits)

lemma tracks_remote:
  assumes "\<And>s. get_session r i = Some s \<Longrightarrow> s_kind s \<noteq> Local" "quiet sid r r'" "\<And>j. j \<noteq> i \<Longrightarrow> calm_event j ev"
  shows "tracks sid r (emit ev r')"
proof (cases "i = sid")
  case True
  then show ?thesis using assms(1,2) by (auto simp: tracks_def emit_def quiet_def)
next
  case False
  then show ?thesis using assms(2,3) by (intro tracks_emit quiet_tracks) auto
qed

lemmas tracks_put = quiet_tracks [OF quiet_put]

lemmas tracks_other = quiet_tracks [OF quiet_other(1)] quiet_tracks [OF quiet_other(2)]

lemmas tracks_intros = tracks_store_try tracks_emit tracks_put

subsection \<open>Every operation keeps events and log in step\<close>

lemma issue_ticket_tracks: "tracks sid r (snd (issue_ticket ev ops now tid i cap ex r))"
  unfolding issue_ticket_def lock_local_session_def
  by (auto split: option.splits intro!: tracks_intros simp: Let_def)

lemma revoke_ticket_tracks: "tracks sid r (snd (revoke_ticket ops i tid r))"
  unfolding revoke_ticket_def lock_local_session_def
  by (auto split: option.splits intro!: tracks_intros simp: Let_def)

lemma remove_member_tracks: "tracks sid r (snd (remove_member ops i p r))"
  unfolding remove_member_def lock_local_session_def
  by (auto split: option.splits intro!: tracks_intros simp: Let_def)

lemma publish_workspace_ticket_tracks: "tracks sid r (snd (publish_workspace_ticket ops i en r))"
  unfolding publish_workspace_ticket_def lock_local_session_def
  by (auto split: option.splits intro!: tracks_intros simp: Let_def)

lemma attachment_tracks:
  "tracks sid r (snd (register_attachment ops i k pl r))" "tracks sid r (snd (forget_attachment ops i k r))"
  by (auto simp: register_attachment_def forget_attachment_def split: option.splits intro!: tracks_intros)

lemma closed_tracks: "quiet sid r r' \<Longrightarrow> tracks sid r (remove_session i (emit (EvSessionClosed i) r'))"
  by (auto simp: tracks_def quiet_def emit_def remove_session_def delete_conv' grown_def numbered_def made_up_ok_def event_message_def)

lemma leave_tracks: "tracks sid r (snd (leave ops i p r))"
  unfolding leave_def by (auto split: option.splits intro!: tracks_intros closed_tracks simp: Let_def)

lemma host_closed_session_tracks: "tracks sid r (snd (host_closed_session ops i r))"
  unfolding host_closed_session_def
  by (auto split: option.splits intro!: tracks_store_try tracks_remote [of r i] quiet_other)

lemma advance_host_epoch_watermark_tracks: "tracks sid r (snd (advance_host_epoch_watermark ops i e r))"
  unfolding advance_host_epoch_watermark_def by (auto split: option.splits intro!: tracks_intros)

lemma emit_workspace_ticket_tracks: "tracks sid r (snd (emit_workspace_ticket ops i p en r))"
  unfolding emit_workspace_ticket_def lock_remote_session_from_host_def
  by (auto split: option.splits intro!: tracks_store_try tracks_remote [of r i] quiet_other simp: calm_event_def event_message_def)

lemma apply_inbound_tracks:
  assumes "\<And>s. get_session r i = Some s \<Longrightarrow> s_kind s = Remote"
  shows "tracks sid r (apply_inbound_mirror_message ev ops i m r)"
  using assms unfolding apply_inbound_mirror_message_def
  by (auto simp: Let_def calm_event_def event_message_def split: option.splits prod.splits sum.splits
      intro!: tracks_remote [of r i] tracks_other quiet_other)

lemma sequence_message_tracks:
  assumes "get_session r i = Some s" "\<And>n. seq_next (s_head s) = Some n \<Longrightarrow> n \<noteq> Seq_ZERO"
  shows "tracks sid r (snd (sequence_message ev ops now i s peer kind action payload au r))"
proof -
  have put: "tracks sid r (emit (EvMessage i m) (put_session i s' (r\<lparr> r_store := st \<rparr>)))"
    if "s_log s' = s_log s @ [m]" "s_kind s' = s_kind s" "s_host s' = s_host s" "m_seq m \<noteq> Seq_ZERO" for m s' st
    using assms(1) that
    by (auto simp: tracks_def emit_def put_session_def update_conv' grown_def numbered_def made_up_ok_def event_message_def)
  show ?thesis
    unfolding sequence_message_def using assms(2)
    by (auto simp: Let_def session_message_new_def apply_capability_def split: sum.splits prod.splits option.splits intro!: tracks_store_try put)
qed

lemma seq_next_nonzero: "seq_next h = Some n \<Longrightarrow> n \<noteq> Seq_ZERO"
  by (metis leD zero_least(1) seq_next_less)

lemma send_tracks: "tracks sid r (snd (send ev ops now i peer kind action payload au ans r))"
  unfolding send_def forward_remote_send_def
  by (auto simp: Let_def split: option.splits sum.splits bridge_error.splits intro!: sequence_message_tracks dest: seq_next_nonzero)

lemma admit_peer_tracks: "get_session r i = Some s \<Longrightarrow> tracks sid r (snd (admit_peer ops i s peer c r))"
  unfolding admit_peer_def by (auto split: option.splits prod.splits intro!: tracks_intros simp: Let_def)

lemma ensure_member_tracks: "tracks sid r (snd (ensure_member ev ops now i peer c r))"
  using admit_peer_tracks [of r i _ sid ops peer c] unfolding ensure_member_def auto_grant_on_join_def
  by (auto split: option.splits prod.splits sum.splits simp: Let_def intro: tracks_trans [OF _ send_tracks] send_tracks)

lemma host_resume_tracks: "get_session r i = Some s \<Longrightarrow> tracks sid r (snd (host_resume ev ops now tid p i s cap ex r))"
  unfolding host_resume_def by (auto split: prod.splits intro!: tracks_intros simp: Let_def)

lemma host_create_tracks: "get_session r i = None \<Longrightarrow> tracks sid r (snd (host_create ev ops now tid p i cap ex r))"
  unfolding host_create_def by (auto split: prod.splits intro!: tracks_store_try tracks_other simp: Let_def)

lemma registry_host_tracks: "tracks sid r (snd (registry_host ev ops now dr tid p rq cap ex r))"
  unfolding registry_host_def
  by (auto split: option.splits intro!: host_create_tracks host_resume_tracks dest: find_Some_set)

lemma join_member_tracks: "get_session r i = Some s \<Longrightarrow> tracks sid r (snd (join_member ops i s peer r))"
  unfolding join_member_def by (auto intro!: tracks_intros simp: Let_def)

lemma rollback_quiet: "\<lbrakk>quiet sid r r'; get_session r i = None\<rbrakk> \<Longrightarrow> quiet sid r (rollback_remote_mirror ops i r')"
  by (auto simp: rollback_remote_mirror_def Let_def intro!: quiet_other split: prod.splits)

lemma materialise_tracks:
  "get_session r (st_session_id t) = None \<Longrightarrow> tracks sid r (snd (materialise_remote_session ev ops sub t peer r))"
  unfolding materialise_remote_session_def
  by (auto simp: Let_def split: sum.splits intro!: tracks_store_try tracks_other quiet_tracks [OF rollback_quiet] quiet_other)

lemma join_tracks: "tracks sid r (snd (join ev ops sub raw peer r))"
proof (cases "parse_ticket ev raw")
  case (Inr t)
  have "tracks sid r (case x of Inl e \<Rightarrow> r1 | Inr s \<Rightarrow> snd (join_member ops (st_session_id t) s peer r1))"
    if m: "materialise_remote_session ev ops sub t peer r = (x, r1)" "get_session r (st_session_id t) = None" for x r1
  proof (cases x)
    case (Inl e)
    then show ?thesis using materialise_tracks [OF m(2), of sid ev ops sub peer] m(1) by simp
  next
    case (Inr s)
    then have "get_session r1 (st_session_id t) = Some s"
      using m(1) by (auto simp: materialise_remote_session_def Let_def store_try_def put_session_def update_conv' bridge_do_def
          split: sum.splits if_splits prod.splits)
    then show ?thesis
      using Inr materialise_tracks [OF m(2), of sid ev ops sub peer] m(1) by (auto intro: tracks_trans [OF _ join_member_tracks])
  qed
  then show ?thesis
    using Inr by (fastforce simp: join_def Let_def split: option.splits prod.splits sum.splits intro: join_member_tracks)
qed (simp add: join_def)

lemma reg_step_tracks:
  assumes "enabled op r"
  shows "tracks sid r (reg_step ev ops op r)"
  using assms
  by (cases op) (simp_all del: enabled.simps(1) add: registry_host_tracks issue_ticket_tracks revoke_ticket_tracks join_tracks
      leave_tracks remove_member_tracks ensure_member_tracks send_tracks publish_workspace_ticket_tracks
      host_closed_session_tracks advance_host_epoch_watermark_tracks emit_workspace_ticket_tracks
      attachment_tracks apply_inbound_tracks enabled_inbound)

lemma reg_run_tracks: "reg_run ev ops cs r = Some r' \<Longrightarrow> tracks sid r r'"
proof (induction cs arbitrary: r)
  case (Cons op cs)
  then have "enabled op r" "reg_run ev ops cs (reg_step ev ops op r) = Some r'" by (auto split: if_splits)
  then show ?case using tracks_trans [OF reg_step_tracks Cons.IH] by blast
qed simp

subsection \<open>Subscriptions carry the log\<close>

text \<open>The broadcast channel of a session, and what a receiver may get of it: every value sent since it was made,
  in order, except that a receiver that fell behind is told how many of the oldest it lost.\<close>

fun delivers :: "event list \<Rightarrow> received list \<Rightarrow> bool" where
  "delivers evs [] \<longleftrightarrow> True"
| "delivers evs (Received e # rs) \<longleftrightarrow> (case evs of [] \<Rightarrow> False | x # xs \<Rightarrow> x = e \<and> delivers xs rs)"
| "delivers evs (Lagged n # rs) \<longleftrightarrow> 0 < n \<and> n \<le> length evs \<and> delivers (drop n evs) rs"
| "delivers evs (ChannelClosed # rs) \<longleftrightarrow> evs = [] \<and> rs = []"

lemma numbered_append [simp]: "numbered sid (xs @ ys) = numbered sid xs @ numbered sid ys"
  by (simp add: numbered_def)

lemma numbered_prefix: "prefix xs ys \<Longrightarrow> prefix (numbered sid xs) (numbered sid ys)"
  by (auto simp: prefix_def)

lemma made_up_prefix: "prefix xs ys \<Longrightarrow> made_up_ok sid ys \<Longrightarrow> made_up_ok sid xs"
  by (auto simp: made_up_ok_def prefix_def)

lemma stream_messages_channel [simp]: "stream_messages sid (channel sid evs) = stream_messages sid evs"
proof (induction evs)
  case (Cons ev evs)
  then show ?case by (cases ev) (auto simp: channel_def event_message_def)
qed (simp add: channel_def)

lemma delivered_prefix: "\<lbrakk>delivers evs live; EvGap sid \<notin> set evs\<rbrakk> \<Longrightarrow> prefix (before_gap sid (forward_live sid live)) evs"
  by (induction evs live rule: delivers.induct) (auto split: list.splits)

lemma before_gap_take: "prefix (before_gap sid (take k xs)) (before_gap sid xs)"
proof (induction xs arbitrary: k)
  case (Cons x xs)
  then show ?case by (cases k; cases "x = EvGap sid") simp_all
qed simp

text \<open>The stream of a subscription at a registry, with what its receiver got until the next one.\<close>

definition host_stream :: "('s, 'k) registry \<Rightarrow> session_id \<Rightarrow> nat \<Rightarrow> received list \<Rightarrow> seq option \<Rightarrow> event list" where
  "host_stream r sid k live since =
    (case subscribe r sid since of Inl _ \<Rightarrow> [] | Inr replay \<Rightarrow> subscription_forwarder k sid replay live)"

definition log_of :: "('s, 'k) registry \<Rightarrow> session_id \<Rightarrow> session_message list" where
  "log_of r sid = (case get_session r sid of None \<Rightarrow> [] | Some s \<Rightarrow> s_log s)"

lemma reachable_log:
  assumes "reachable ev ops st r" "get_session r sid = Some s" "s_kind s = Local"
  shows "proper_log (s_log s)" "\<forall>m\<in>set (s_log s). \<not> (m_kind m = System \<and> reserved_system_action (m_action m) \<noteq> None)"
proof -
  have h: "gapless (s_log s) (s_head s)" "\<forall>m\<in>set (s_log s). entry_ok ev m"
    using hosted.invD [OF hosted.reachable_inv [OF assms(1)] assms(2)] assms(3) by (auto simp: host_log_ok_def)
  then show "\<forall>m\<in>set (s_log s). \<not> (m_kind m = System \<and> reserved_system_action (m_action m) \<noteq> None)" by (auto simp: entry_ok_def)
  have "log_ok (s_log s) (s_head s)"
    using reachable_ok [OF assms(1)] assms(2) by (auto simp: registry_ok_def session_ok_def)
  moreover have "Seq_ZERO < m_seq m" if m: "m \<in> set (s_log s)" for m
  proof -
    obtain i where i: "i < length (s_log s)" "m_seq m = Seq (of_nat (Suc i))" using m h(1) by (auto simp: gapless_def in_set_conv_nth)
    then have "Suc i < 2 ^ 64" using h(1) by (simp add: gapless_def)
    then have "unat (of_nat (Suc i) :: u64) = Suc i" by (simp add: unat_of_nat take_bit_nat_eq_self del: of_nat_Suc)
    then show ?thesis unfolding i(2) less_seq_def Seq_ZERO_def by (simp add: word_less_nat_alt del: of_nat_Suc)
  qed
  ultimately show "proper_log (s_log s)" by (simp add: proper_log_def log_ok_def)
qed

lemma subscribed_numbers:
  assumes "proper_log (s_log s)" "\<forall>m\<in>set (s_log s). \<not> (m_kind m = System \<and> reserved_system_action (m_action m) \<noteq> None)"
    "get_session r sid = Some s" "subscribe r sid since = Inr replay"
  shows "numbered sid (map (EvMessage sid) replay) = later since (s_log s)" "made_up_ok sid (map (EvMessage sid) replay)"
    "length replay \<le> Suc (length (s_log s))"
proof -
  define cut where "cut = (case since of None \<Rightarrow> Seq_ZERO | Some q \<Rightarrow> q)"
  define ticket where "ticket = (case s_workspace_ticket s of None \<Rightarrow> [] | Some envelope \<Rightarrow> [synthetic_ticket_message (s_host s) envelope])"
  have "replay = ticket @ filter (\<lambda>m. m_seq m > cut \<and> \<not> (m_kind m = System \<and> reserved_system_action (m_action m) \<noteq> None)) (s_log s)"
    using assms(3,4) by (auto simp: subscribe_def cut_def ticket_def Let_def)
  also have "filter (\<lambda>m. m_seq m > cut \<and> \<not> (m_kind m = System \<and> reserved_system_action (m_action m) \<noteq> None)) (s_log s) = filter (\<lambda>m. m_seq m > cut) (s_log s)"
    using assms(2) by (intro filter_cong) auto
  also have "\<dots> = later since (s_log s)"
    using assms(1) by (auto simp: later_def cut_def proper_log_def filter_id_conv split: option.splits)
  finally have replay: "replay = ticket @ later since (s_log s)" .
  have t: "\<forall>m\<in>set ticket. m_seq m = Seq_ZERO \<and> m_kind m = System" "length ticket \<le> 1"
    by (auto simp: ticket_def synthetic_ticket_message_def synthetic_system_message_def session_message_new_def split: option.splits)
  have nz: "\<forall>m\<in>set (later since (s_log s)). m_seq m \<noteq> Seq_ZERO" "length (later since (s_log s)) \<le> length (s_log s)"
    using assms(1) by (auto simp: later_def proper_log_def split: option.splits)
  show "numbered sid (map (EvMessage sid) replay) = later since (s_log s)"
    using t(1) nz(1) by (auto simp: numbered_def replay filter_empty_conv filter_id_conv)
  show "made_up_ok sid (map (EvMessage sid) replay)" using t(1) nz(1) by (auto simp: made_up_ok_def replay)
  show "length replay \<le> Suc (length (s_log s))" using t(2) nz(2) by (simp add: replay)
qed

lemma numbered_channel [simp]: "numbered sid (channel sid evs) = numbered sid evs"
  by (simp add: numbered_def)

lemma made_up_channel [simp]: "made_up_ok sid (channel sid evs) = made_up_ok sid evs"
  by (simp add: made_up_ok_def)

lemma set_channel [simp]: "x \<in> set (channel sid evs) \<longleftrightarrow> x \<in> set evs \<and> event_session x = sid"
  by (auto simp: channel_def)

lemma forward_all: "forward_live sid (map Received evs) = evs"
  by (induction evs) simp_all

lemma segment_stream:
  assumes "reachable ev ops st r" "get_session r sid = Some s" "s_kind s = Local" "grown sid s evs s'" "prefix ds (s_log s)" "seen_ok since ds"
  shows "delivers (channel sid evs) live \<Longrightarrow> prefix (ds @ numbered sid (before_gap sid (host_stream r sid k live since))) (s_log s')
      \<and> made_up_ok sid (before_gap sid (host_stream r sid k live since))"
    "\<lbrakk>live = map Received (channel sid evs); Suc (Suc (length (s_log s))) + length live \<le> k\<rbrakk> \<Longrightarrow>
      ds @ numbered sid (host_stream r sid k live since) = s_log s' \<and> EvGap sid \<notin> set (host_stream r sid k live since)"
proof -
  obtain replay where rp: "subscribe r sid since = Inr replay" using assms(2) by (auto simp: subscribe_def)
  note lg = reachable_log [OF assms(1-3)]
  note n = subscribed_numbers [OF lg assms(2) rp]
  have l: "ds @ later since (s_log s) = s_log s" by (rule later_prefix [OF lg(1) assms(5,6)])
  have g: "s_log s' = s_log s @ numbered sid evs" "made_up_ok sid evs" "EvGap sid \<notin> set evs" using assms(4) by (simp_all add: grown_def)
  let ?full = "map (EvMessage sid) replay @ [EvReplayComplete sid] @ channel sid evs"
  have full: "numbered sid ?full = later since (s_log s) @ numbered sid evs" "made_up_ok sid ?full" "EvGap sid \<notin> set ?full"
    using n(1,2) g(2,3) by (auto simp: numbered_def made_up_ok_def event_message_def)
  have "ds @ numbered sid ?full = (ds @ later since (s_log s)) @ numbered sid evs" unfolding full(1) by simp
  then have whole: "ds @ numbered sid ?full = s_log s'" unfolding l g(1) .
  show "prefix (ds @ numbered sid (before_gap sid (host_stream r sid k live since))) (s_log s')
      \<and> made_up_ok sid (before_gap sid (host_stream r sid k live since))" if d: "delivers (channel sid evs) live"
  proof -
    have "EvGap sid \<notin> set (channel sid evs)" using g(3) by simp
    let ?all = "map (EvMessage sid) replay @ [EvReplayComplete sid] @ forward_live sid live"
    have "host_stream r sid k live since = take k ?all" using rp by (simp add: host_stream_def subscription_forwarder_def)
    then have "prefix (before_gap sid (host_stream r sid k live since)) (before_gap sid ?all)" using before_gap_take [of sid k ?all] by simp
    also have "prefix (before_gap sid ?all) ?full" using delivered_prefix [OF d \<open>EvGap sid \<notin> set (channel sid evs)\<close>] by simp
    finally (prefix_order.trans) have p: "prefix (before_gap sid (host_stream r sid k live since)) ?full" .
    have "prefix (ds @ numbered sid (before_gap sid (host_stream r sid k live since))) (ds @ numbered sid ?full)"
      using numbered_prefix [OF p] by simp
    also note whole
    finally show ?thesis using made_up_prefix [OF p full(2)] by blast
  qed
  show "ds @ numbered sid (host_stream r sid k live since) = s_log s' \<and> EvGap sid \<notin> set (host_stream r sid k live since)"
    if u: "live = map Received (channel sid evs)" "Suc (Suc (length (s_log s))) + length live \<le> k"
  proof -
    have "host_stream r sid k live since = ?full" using n(3) u rp by (simp add: host_stream_def subscription_forwarder_def forward_all)
    then show ?thesis using whole full(3) by (simp del: numbered_append)
  qed
qed

text \<open>The daemon while a listener subscribes again and again: \<open>rs n\<close> is the registry at the \<open>n\<close>-th subscription, and the session stays hosted.\<close>

definition new_events :: "(nat \<Rightarrow> ('s, 'k) registry) \<Rightarrow> nat \<Rightarrow> event list" where
  "new_events rs n = drop (length (r_events (rs n))) (r_events (rs (Suc n)))"

definition hosted_run ::
  "'k env \<Rightarrow> 's store_ops \<Rightarrow> session_id \<Rightarrow> (nat \<Rightarrow> ('s, 'k) registry) \<Rightarrow> (nat \<Rightarrow> received list) \<Rightarrow> bool" where
  "hosted_run ev ops sid rs live \<longleftrightarrow> (\<forall>n. (\<exists>cs. reg_run ev ops cs (rs n) = Some (rs (Suc n)))
    \<and> EvSessionClosed sid \<notin> set (new_events rs n) \<and> delivers (channel sid (new_events rs n)) (live n))"

lemma hosted_segment:
  assumes "hosted_run ev ops sid rs live" "get_session (rs n) sid = Some s" "s_kind s = Local"
  obtains s' where "get_session (rs (Suc n)) sid = Some s'" "grown sid s (new_events rs n) s'"
proof -
  obtain cs where "reg_run ev ops cs (rs n) = Some (rs (Suc n))" using assms(1) unfolding hosted_run_def by blast
  from reg_run_tracks [OF this, of sid] obtain evs where evs: "r_events (rs (Suc n)) = r_events (rs n) @ evs"
      "EvSessionClosed sid \<in> set evs \<or> (\<exists>s'. get_session (rs (Suc n)) sid = Some s' \<and> grown sid s evs s')"
    using assms(2,3) unfolding tracks_def by blast
  moreover have "EvSessionClosed sid \<notin> set (new_events rs n)" using assms(1) unfolding hosted_run_def by blast
  ultimately show thesis using that by (auto simp: new_events_def)
qed

lemma hosted_sessions:
  assumes "hosted_run ev ops sid rs live" "reachable ev ops st (rs 0)" "get_session (rs 0) sid = Some s0" "s_kind s0 = Local"
  shows "\<exists>s. get_session (rs n) sid = Some s \<and> s_kind s = Local \<and> s_host s = s_host s0 \<and> reachable ev ops st (rs n)"
proof (induction n)
  case (Suc n)
  then obtain s where s: "get_session (rs n) sid = Some s" "s_kind s = Local" "s_host s = s_host s0" "reachable ev ops st (rs n)" by blast
  obtain s' where s': "get_session (rs (Suc n)) sid = Some s'" "grown sid s (new_events rs n) s'"
    by (rule hosted_segment [OF assms(1) s(1,2)])
  obtain cs where "reg_run ev ops cs (rs n) = Some (rs (Suc n))" using assms(1) unfolding hosted_run_def by blast
  from reg_run_reachable [OF this s(4)] s' s(3) show ?case by (auto simp: grown_def)
qed (use assms in auto)

lemma hosted_serves:
  assumes "hosted_run ev ops sid rs live" "reachable ev ops st (rs 0)" "get_session (rs 0) sid = Some s0" "s_kind s0 = Local"
  shows "proper_log (log_of (rs n) sid)" "serves sid (\<lambda>n. log_of (rs n) sid) (\<lambda>n. host_stream (rs n) sid (k n) (live n))"
    "\<lbrakk>live n = map Received (channel sid (new_events rs n)); Suc (Suc (length (log_of (rs n) sid))) + length (live n) \<le> k n\<rbrakk>
      \<Longrightarrow> complete_stream sid (\<lambda>n. log_of (rs n) sid) (\<lambda>n. host_stream (rs n) sid (k n) (live n)) n"
proof -
  note hs = hosted_sessions [OF assms]
  show "proper_log (log_of (rs n) sid)" using hs [of n] reachable_log(1) by (fastforce simp: log_of_def)
  show "serves sid (\<lambda>n. log_of (rs n) sid) (\<lambda>n. host_stream (rs n) sid (k n) (live n))"
    unfolding serves_def
  proof (intro allI impI, elim conjE)
    fix n since ds assume ds: "prefix ds (log_of (rs n) sid)" "seen_ok since ds"
    obtain s where s: "get_session (rs n) sid = Some s" "s_kind s = Local" "reachable ev ops st (rs n)" using hs [of n] by blast
    obtain s' where s': "get_session (rs (Suc n)) sid = Some s'" "grown sid s (new_events rs n) s'" by (rule hosted_segment [OF assms(1) s(1,2)])
    have "delivers (channel sid (new_events rs n)) (live n)" using assms(1) unfolding hosted_run_def by blast
    then show "prefix (ds @ numbered sid (before_gap sid (host_stream (rs n) sid (k n) (live n) since))) (log_of (rs (Suc n)) sid)
        \<and> made_up_ok sid (before_gap sid (host_stream (rs n) sid (k n) (live n) since))"
      using segment_stream(1) [OF s(3,1,2) s'(2) _ ds(2)] ds(1) s(1) s'(1) by (simp add: log_of_def)
  qed
  show "complete_stream sid (\<lambda>n. log_of (rs n) sid) (\<lambda>n. host_stream (rs n) sid (k n) (live n)) n"
    if u: "live n = map Received (channel sid (new_events rs n))" "Suc (Suc (length (log_of (rs n) sid))) + length (live n) \<le> k n"
    unfolding complete_stream_def
  proof (intro allI impI, elim conjE)
    fix since ds assume ds: "prefix ds (log_of (rs n) sid)" "seen_ok since ds"
    obtain s where s: "get_session (rs n) sid = Some s" "s_kind s = Local" "reachable ev ops st (rs n)" using hs [of n] by blast
    obtain s' where s': "get_session (rs (Suc n)) sid = Some s'" "grown sid s (new_events rs n) s'" by (rule hosted_segment [OF assms(1) s(1,2)])
    show "ds @ numbered sid (host_stream (rs n) sid (k n) (live n) since) = log_of (rs (Suc n)) sid
        \<and> EvGap sid \<notin> set (host_stream (rs n) sid (k n) (live n) since)"
      using segment_stream(2) [OF s(3,1,2) s'(2) _ ds(2) u(1)] u(2) ds(1) s(1) s'(1) by (simp add: log_of_def)
  qed
qed

subsection \<open>Through the client\<close>

text \<open>A subscription on a client connection of its own: what the consumer has received of the events sent.\<close>

definition client_stream :: "event list \<Rightarrow> event list \<Rightarrow> bool" where
  "client_stream wire seen \<longleftrightarrow> (\<exists>ws c. client_run ws c \<and> cc_events_open c \<and> prefix (wire_events ws) wire \<and> seen = cc_taken c)"

lemma before_gap_append: "before_gap sid (xs @ ys) = (if EvGap sid \<in> set xs then before_gap sid xs else xs @ before_gap sid ys)"
  by (auto simp: before_gap_def takeWhile_append)

lemma before_gap_mono: "prefix xs ys \<Longrightarrow> prefix (before_gap sid xs) (before_gap sid ys)"
  by (auto simp: prefix_def before_gap_append before_gap_id)

lemma lossy_prefix:
  "lossy sid es seen b \<Longrightarrow> prefix (before_gap sid seen) (before_gap sid es) \<and> (EvGap sid \<notin> set seen \<longrightarrow> prefix seen es \<and> (\<not> b \<longrightarrow> seen = es))"
proof (induction rule: lossy.induct)
  case (lossy_lose es seen b e)
  moreover have "prefix (before_gap sid es) (before_gap sid (es @ [e]))" by (rule before_gap_mono) simp
  ultimately show ?case by (auto intro: prefix_order.trans)
qed (auto simp: before_gap_append before_gap_id)

lemma lossy_nothing: "lossy sid es seen b \<Longrightarrow> es = [] \<Longrightarrow> seen = [] \<and> \<not> b"
  by (induction rule: lossy.induct) auto

lemma client_stream_prefix:
  assumes "client_stream wire seen" "\<forall>e\<in>set wire. event_session e = sid"
  shows "prefix (before_gap sid seen) (before_gap sid wire)"
proof -
  obtain ws c where c: "client_run ws c" "cc_events_open c" "prefix (wire_events ws) wire" "seen = cc_taken c"
    using assms(1) unfolding client_stream_def by blast
  have l: "lossy i (channel i (wire_events ws)) (channel i (cc_taken c @ cc_queue c)) (i \<in> set (cc_gaps c))" for i
    using client_run_events [OF c(1)] c(2) unfolding client_events_ok_def by blast
  have ws: "\<forall>e\<in>set (wire_events ws). event_session e = sid" using c(3) assms(2) by (auto simp: prefix_def)
  have "event_session e = sid" if "e \<in> set (cc_taken c @ cc_queue c)" for e
  proof (rule ccontr)
    assume n: "event_session e \<noteq> sid"
    then have "channel (event_session e) (wire_events ws) = []" using ws by (auto simp: channel_def filter_empty_conv)
    then have "channel (event_session e) (cc_taken c @ cc_queue c) = []" using lossy_nothing [OF l] by blast
    with that show False by (auto simp: channel_def filter_empty_conv)
  qed
  then have "channel sid (cc_taken c @ cc_queue c) = cc_taken c @ cc_queue c" "channel sid (wire_events ws) = wire_events ws"
    using ws by (simp_all add: channel_def filter_id_conv del: channel_simps)
  then have "prefix (before_gap sid (cc_taken c @ cc_queue c)) (before_gap sid (wire_events ws))" using lossy_prefix [OF l [of sid]] by simp
  moreover have "prefix (before_gap sid seen) (before_gap sid (cc_taken c @ cc_queue c))" using c(4) by (intro before_gap_mono) simp
  ultimately show ?thesis using before_gap_mono [OF c(3), of sid] by (meson prefix_order.trans)
qed

text \<open>A consumer that keeps up gets everything.\<close>

lemma client_stream_all: "client_stream wire wire"
proof -
  have "\<exists>c. client_run (map WEvent wire) c \<and> \<not> cc_closed c \<and> cc_events_open c \<and> cc_gaps c = [] \<and> cc_queue c = [] \<and> cc_taken c = wire"
  proof (induction wire rule: rev_induct)
    case Nil
    show ?case using cr_spawn [of PROTOCOL_VERSION "PeerId 0"] by (auto simp: client_spawn_def)
  next
    case (snoc e es)
    then obtain c where c: "client_run (map WEvent es) c" "\<not> cc_closed c" "cc_events_open c" "cc_gaps c = []" "cc_queue c = []" "cc_taken c = es" by blast
    have "client_run (map WEvent (es @ [e])) (events_recv (reader_frame (WEvent e) c))" using cr_recv [OF cr_frame [OF c(1,2), of "WEvent e"]] by simp
    moreover have "events_recv (reader_frame (WEvent e) c) = c\<lparr> cc_queue := [], cc_taken := es @ [e] \<rparr>"
      using c(3-) by (simp add: reader_event_def events_recv_def EVENTS_QUEUE_CAPACITY_def)
    ultimately show ?case using c(2-) by (intro exI [of _ "c\<lparr> cc_queue := [], cc_taken := es @ [e] \<rparr>"]) simp
  qed
  moreover have "wire_events (map WEvent wire) = wire" by (induction wire) simp_all
  ultimately show ?thesis unfolding client_stream_def by (metis prefix_order.refl)
qed

lemma delivered_session: "\<lbrakk>delivers evs live; \<forall>e\<in>set evs. event_session e = sid; e \<in> set (forward_live sid live)\<rbrakk> \<Longrightarrow> event_session e = sid"
  by (induction evs live rule: delivers.induct) (auto split: list.splits dest: in_set_dropD)

lemma host_stream_session: "delivers (channel sid evs) live \<Longrightarrow> \<forall>e\<in>set (host_stream r sid k live since). event_session e = sid"
  using delivered_session [of "channel sid evs" live sid]
  by (auto simp: host_stream_def subscription_forwarder_def split: sum.splits dest!: in_set_takeD)

lemma client_serves:
  assumes "serves sid logs wire" "\<forall>n since. client_stream (wire n since) (stream n since)" "\<forall>n since. \<forall>e\<in>set (wire n since). event_session e = sid"
  shows "serves sid logs stream"
  unfolding serves_def
proof (intro allI impI)
  fix n since ds assume ds: "prefix ds (logs n) \<and> seen_ok since ds"
  have p: "prefix (before_gap sid (stream n since)) (before_gap sid (wire n since))" using client_stream_prefix assms(2,3) by blast
  have "prefix (ds @ numbered sid (before_gap sid (wire n since))) (logs (Suc n))" "made_up_ok sid (before_gap sid (wire n since))"
    using assms(1) ds unfolding serves_def by blast+
  moreover have "prefix (ds @ numbered sid (before_gap sid (stream n since))) (ds @ numbered sid (before_gap sid (wire n since)))"
    using numbered_prefix [OF p] by simp
  ultimately show "prefix (ds @ numbered sid (before_gap sid (stream n since))) (logs (Suc n)) \<and> made_up_ok sid (before_gap sid (stream n since))"
    using made_up_prefix [OF p] by (meson prefix_order.trans)
qed

text \<open>C11: the workspace of a host follows the capabilities of its daemon.  Over any run of the registry that keeps the
  session hosted, and however often the stream of the listener breaks, the daemon falls behind or the queue of the client
  overflows, once the daemon has come to rest and one subscription got through, the peer map of the workspace gives every
  peer but the host exactly the capability that the daemon enforces.\<close>

theorem listener_follows_daemon:
  assumes "hosted_run ev ops sid rs live" "reachable ev ops st (rs 0)" "get_session (rs 0) sid = Some s0" "s_kind s0 = Local"
    "ce_session en = sid" "ce_cap_action en = e_cap_action ev" "cl_map cl = replaying (s_host s0)"
    "\<forall>n since. client_stream (host_stream (rs n) sid (k n) (live n) since) (stream n since)"
    "\<forall>i. ok i 0 \<and> \<not> cancelled i 0" "m < fuel" "\<forall>i\<ge>m. rs (Suc i) = rs (Suc m)"
    "live m = map Received (channel sid (new_events rs m))" "Suc (Suc (length (log_of (rs m) sid))) + length (live m) \<le> k m"
    "\<forall>since. stream m since = host_stream (rs m) sid (k m) (live m) since"
    "get_session (rs (Suc m)) sid = Some s" "p \<noteq> s_host s"
  shows "map_of (pm_caps (cl_map (cap_listener fuel en stream ok cancelled 0 None cl))) p = s_caps s p"
proof -
  let ?logs = "\<lambda>n. log_of (rs n) sid" and ?wire = "\<lambda>n. host_stream (rs n) sid (k n) (live n)"
  note h = hosted_serves [OF assms(1-4)]
  have "\<forall>n since. \<forall>e\<in>set (?wire n since). event_session e = sid" using assms(1) host_stream_session unfolding hosted_run_def by blast
  then have sv: "serves sid ?logs stream" by (rule client_serves [OF h(2) assms(8)])
  have cs: "complete_stream sid ?logs stream m"
    using h(3) [of m k, OF assms(12,13)] assms(14) by (simp add: complete_stream_def)
  obtain s' where "get_session (rs (Suc m)) sid = Some s'" "s_kind s' = Local" "s_host s' = s_host s0" and r: "reachable ev ops st (rs (Suc m))"
    using hosted_sessions [OF assms(1-4), of "Suc m"] by blast
  then have s: "s_kind s = Local" "s_host s = s_host s0" using assms(15) by auto
  have "settled ?logs m" unfolding settled_def
  proof (intro allI impI)
    fix i assume "m \<le> i"
    then have "rs (Suc i) = rs (Suc m)" using assms(11) by blast
    then show "log_of (rs (Suc i)) sid = log_of (rs (Suc m)) sid" by (rule arg_cong)
  qed
  then have "caps_view (cl_map (cap_listener fuel en stream ok cancelled 0 None cl)) = caps_view (pm_replay (ce_cap_action en) (?logs (Suc m)) (replaying (s_host s0)))"
    using listener_complete [of ?logs en stream ok cancelled 0 m fuel "[]" "replaying (s_host s0)" None cl]
      h(1) sv cs assms(5,7,9,10) by (simp add: drained_def seen_ok_def)
  then have "map_of (pm_caps (cl_map (cap_listener fuel en stream ok cancelled 0 None cl))) p
      = map_of (pm_caps (pm_replay (e_cap_action ev) (s_log s) (replaying (s_host s0)))) p"
    using assms(6,15) by (simp add: caps_view_def log_of_def)
  also have "\<dots> = project_caps (e_cap_action ev) (s_host s0) (s_log s) p"
    using pm_replay_caps [of "e_cap_action ev" "s_log s" "s_host s0" Initializing p] project_caps_word [of "s_log s" p "s_host s0" "e_cap_action ev"]
      reachable_log(1) [OF r assms(15) s(1)] assms(16) s(2)
    by (auto simp: replaying_def proper_log_def strict_sorted_iff split: option.splits)
  also have "\<dots> = s_caps s p" using reachable_ok [OF r] assms(15) s by (auto simp: registry_ok_def session_ok_def)
  finally show ?thesis .
qed

text \<open>A peer is admitted with a read-write ticket while the listener is subscribed.\<close>

definition sample_registries :: "nat \<Rightarrow> (memory_store, peer_id) registry" where
  "sample_registries n = (if n = 0 then sample_run else admitted_run)"

definition sample_live :: "nat \<Rightarrow> received list" where
  "sample_live n = (if n = 0 then map Received (channel (SessionId 9) (new_events sample_registries 0)) else [])"

lemma delivers_all: "delivers evs (map Received evs)"
  by (induction evs) simp_all

lemma admitted_not_closed: "EvSessionClosed (SessionId 9) \<notin> set (r_events admitted_run)"
  by (simp add: admitted_run_def sample_defs host_eval)
    (simp add: send_eval store_try_def ensure_member_def check_claim_def verify_ticket_cap_def sample_claim_def
      strict_check_def open_ed_def SIGNATURE_UNSIGNED_def ticket_admissible_def ledger_entry_def admit_peer_def
      auto_grant_on_join_def host_author_def apply_capability_def sample_grant_length ACTION_GRANT_def)

lemma admitted_caps:
  "\<exists>s. get_session admitted_run (SessionId 9) = Some s \<and> s_host s = PeerId 7 \<and> s_caps s (PeerId 5) = Some ReadWrite"
  by (simp add: admitted_run_def sample_defs host_eval)
    (simp add: send_eval store_try_def ensure_member_def check_claim_def verify_ticket_cap_def sample_claim_def
      strict_check_def open_ed_def SIGNATURE_UNSIGNED_def ticket_admissible_def ledger_entry_def admit_peer_def
      auto_grant_on_join_def host_author_def apply_capability_def sample_grant_length ACTION_GRANT_def
      apply_capability_to_def decode_encode_cap_action [OF to_codec_ok [OF sd_cap_action]])

lemma sample_session_hosted: "\<exists>s. get_session sample_run (SessionId 9) = Some s \<and> s_kind s = Local \<and> s_host s = PeerId 7"
  by (simp add: sample_defs host_eval) (simp add: send_eval)

lemma sample_hosted_run: "hosted_run sample_env memory_ops (SessionId 9) sample_registries sample_live"
proof -
  have "reg_run sample_env memory_ops [OpEnsureMember 8 (SessionId 9) \<lparr> pi_id = PeerId 5, pi_display_name = ''bob'' \<rparr> (Some sample_claim)] sample_run
      = Some admitted_run" by (simp add: admitted_run_def)
  then have "\<exists>cs. reg_run sample_env memory_ops cs (sample_registries n) = Some (sample_registries (Suc n))" for n
    by (cases n) (simp add: sample_registries_def del: reg_run.simps, blast, simp add: sample_registries_def exI [of _ "[]"])
  moreover have "EvSessionClosed (SessionId 9) \<notin> set (new_events sample_registries n)" for n
    using admitted_not_closed by (auto simp: new_events_def sample_registries_def dest: in_set_dropD)
  moreover have "delivers (channel (SessionId 9) (new_events sample_registries n)) (sample_live n)" for n
    by (simp add: sample_live_def delivers_all)
  ultimately show ?thesis unfolding hosted_run_def by blast
qed

theorem listener_follows_daemon_witness:
  "map_of (pm_caps (cl_map (cap_listener 1 sample_cl_env
      (\<lambda>n. host_stream (sample_registries n) (SessionId 9) (length (log_of (sample_registries n) (SessionId 9)) + length (sample_live n) + 2) (sample_live n))
      (\<lambda>_ _. True) (\<lambda>_ _. False) 0 None sample_listener))) (PeerId 5) = Some ReadWrite"
proof -
  obtain s where s: "get_session admitted_run (SessionId 9) = Some s" "s_host s = PeerId 7" "s_caps s (PeerId 5) = Some ReadWrite"
    using admitted_caps by blast
  obtain s0 where s0: "get_session sample_run (SessionId 9) = Some s0" "s_kind s0 = Local" "s_host s0 = PeerId 7" using sample_session_hosted by blast
  let ?k = "\<lambda>n. length (log_of (sample_registries n) (SessionId 9)) + length (sample_live n) + 2"
  have r: "reachable sample_env memory_ops memory_new (sample_registries 0)" using sample_run_reachable by (simp add: sample_registries_def)
  have reg: "sample_registries 0 = sample_run" "\<And>n. sample_registries (Suc n) = admitted_run"
      "sample_live 0 = map Received (channel (SessionId 9) (new_events sample_registries 0))"
    by (simp_all add: sample_registries_def sample_live_def)
  have "map_of (pm_caps (cl_map (cap_listener 1 sample_cl_env (\<lambda>n. host_stream (sample_registries n) (SessionId 9) (?k n) (sample_live n))
      (\<lambda>_ _. True) (\<lambda>_ _. False) 0 None sample_listener))) (PeerId 5) = s_caps s (PeerId 5)"
    by (rule listener_follows_daemon [OF sample_hosted_run r, where ?s0.0 = s0 and m = 0 and k = ?k])
      (use s s0 in \<open>simp_all add: reg sample_listener_def sample_cl_env_def sample_env_def client_stream_all\<close>)
  then show ?thesis using s(3) by (rule trans)
qed

end
