(* ===== verification/Server_Guarantees.thy ===== *)
theory Server_Guarantees
  imports Host_Events
begin

text \<open>
  What the IPC surface guarantees: a client acts as its daemon and gets one response to every request, and a
  key handed to the daemon of the host ends in the workspace of the peer, and nowhere else.
\<close>

subsection \<open>The identity of the daemon\<close>

lemma daemon_frame [simp]:
  "r_daemon_peer_id (emit e r) = r_daemon_peer_id r" "r_daemon_peer_id (put_session sid s r) = r_daemon_peer_id r"
  "r_daemon_peer_id (remove_session sid r) = r_daemon_peer_id r" "r_daemon_peer_id (bridge_do c r) = r_daemon_peer_id r"
  "r_daemon_peer_id (deliver_workspace_ticket_to sid t en r) = r_daemon_peer_id r"
  by (simp_all add: emit_def put_session_def remove_session_def bridge_do_def deliver_workspace_ticket_to_def split: option.splits)

lemma daemon_deliver_all [simp]:
  "r_daemon_peer_id (fold (\<lambda>m. deliver_workspace_ticket_to sid m en) ms r) = r_daemon_peer_id r"
  by (induction ms arbitrary: r) simp_all

lemma daemon_store_try:
  "\<lbrakk>r_daemon_peer_id r = d; \<And>v st. r_daemon_peer_id (snd (k v (r\<lparr> r_store := st \<rparr>))) = d\<rbrakk> \<Longrightarrow> r_daemon_peer_id (snd (store_try io r k)) = d"
  by (auto simp: store_try_def Let_def split: prod.splits sum.splits)

lemma daemon_ops [simp]:
  "r_daemon_peer_id (snd (issue_ticket ev ops now tid sid cap ex r)) = r_daemon_peer_id r"
  "r_daemon_peer_id (snd (revoke_ticket ops sid tid r)) = r_daemon_peer_id r"
  "r_daemon_peer_id (snd (leave ops sid p r)) = r_daemon_peer_id r"
  "r_daemon_peer_id (snd (remove_member ops sid p r)) = r_daemon_peer_id r"
  "r_daemon_peer_id (snd (publish_workspace_ticket ops sid en r)) = r_daemon_peer_id r"
  "r_daemon_peer_id (snd (register_attachment ops sid k pl r)) = r_daemon_peer_id r"
  "r_daemon_peer_id (snd (list_attachments ops kf r)) = r_daemon_peer_id r"
  "r_daemon_peer_id (snd (forget_attachment ops sid k r)) = r_daemon_peer_id r"
  by (auto simp: issue_ticket_def revoke_ticket_def leave_def remove_member_def publish_workspace_ticket_def register_attachment_def
      list_attachments_def forget_attachment_def Let_def split: sum.splits option.splits intro!: daemon_store_try)

lemma daemon_send [simp]: "r_daemon_peer_id (snd (send ev ops now sid peer kind action payload au ans r)) = r_daemon_peer_id r"
  unfolding send_def sequence_message_def forward_remote_send_def
  by (auto simp: Let_def split: option.splits sum.splits bridge_error.splits prod.splits intro!: daemon_store_try)

lemma daemon_host [simp]: "r_daemon_peer_id (snd (registry_host ev ops now dr tid p rq cap ex r)) = r_daemon_peer_id r"
  unfolding registry_host_def host_create_def host_resume_def
  by (auto simp: Let_def split: option.splits prod.splits intro!: daemon_store_try)

lemma daemon_join_member: "r_daemon_peer_id (snd (join_member ops sid s peer r)) = r_daemon_peer_id r"
  unfolding join_member_def by (auto simp: Let_def intro!: daemon_store_try)

lemma daemon_materialise: "r_daemon_peer_id (snd (materialise_remote_session ev ops sub t peer r)) = r_daemon_peer_id r"
  unfolding materialise_remote_session_def rollback_remote_mirror_def
  by (auto simp: Let_def split: sum.splits prod.splits intro!: daemon_store_try)

lemma daemon_join [simp]: "r_daemon_peer_id (snd (join ev ops sub raw peer r)) = r_daemon_peer_id r"
  using daemon_materialise [of ev ops sub _ peer r] daemon_join_member [of ops _ _ peer]
  by (auto simp: join_def Let_def split: sum.splits option.splits prod.splits) (metis snd_conv)+

lemma daemon_sendD: "send ev ops now sid peer kind action payload au ans r = (x, r') \<Longrightarrow> r_daemon_peer_id r' = r_daemon_peer_id r"
  using daemon_send [of ev ops now sid peer kind action payload au ans r] by simp

lemma daemon_dispatch_send: "r_daemon_peer_id (snd (dispatch_send ev ops rq sid peer kind action payload r)) = r_daemon_peer_id r"
proof -
  obtain x1 r1 where s1: "send ev ops (rq_now rq) sid peer kind action payload ALocal (rq_answer rq 0) r = (x1, r1)" by force
  obtain x2 r2 where s2: "send ev ops (rq_now rq) sid peer kind action payload ALocal (rq_answer rq 1) r1 = (x2, r2)" by force
  show ?thesis
    unfolding dispatch_send_def using s1 s2 daemon_sendD [OF s1] daemon_sendD [OF s2] by (auto split: sum.splits session_error.splits)
qed

lemma daemon_pair: "r_daemon_peer_id (snd x) = d \<Longrightarrow> x = (y, r') \<Longrightarrow> r_daemon_peer_id r' = d"
  by simp

lemmas daemon_pairs = daemon_ops [THEN daemon_pair] daemon_host [THEN daemon_pair] daemon_join [THEN daemon_pair] daemon_dispatch_send [THEN daemon_pair]

lemma daemon_dispatch:
  assumes "dispatch ev dl ops rq req c r = (res, c', r')"
  shows "r_daemon_peer_id r' = r_daemon_peer_id r"
  using assms
  by (cases req)
    (auto simp: Let_def dispatch_host_def dispatch_join_def as_member_def unit_response_def split: option.splits prod.splits sum.splits dest!: daemon_pairs)

subsection \<open>The life of a connection\<close>

text \<open>A connection serves its frames one by one; between two of them other connections and the bridge may change
  the registry in any way that keeps the identity of the daemon.\<close>

inductive conn_run ::
  "'k env \<Rightarrow> delivery_codecs \<Rightarrow> 's store_ops \<Rightarrow> peer_id \<Rightarrow> incoming list \<Rightarrow> connection \<Rightarrow> ('s, 'k) registry \<Rightarrow> bool"
  for ev dl ops d where
  conn_open: "r_daemon_peer_id r = d \<Longrightarrow> conn_run ev dl ops d [] connection_new r"
| conn_frame: "\<lbrakk>conn_run ev dl ops d xs c r; serve_connection ev dl ops rq x c r = (c', r')\<rbrakk> \<Longrightarrow> conn_run ev dl ops d (xs @ [x]) c' r'"
| conn_other: "\<lbrakk>conn_run ev dl ops d xs c r; r_daemon_peer_id r' = d\<rbrakk> \<Longrightarrow> conn_run ev dl ops d xs c r'"

fun request_ids :: "incoming list \<Rightarrow> request_id list" where
  "request_ids [] = []"
| "request_ids (Frame (WRequest i req) # xs) = i # request_ids xs"
| "request_ids (x # xs) = request_ids xs"

fun response_id :: "wire_message \<Rightarrow> request_id option" where
  "response_id (WResponse i res) = Some i"
| "response_id w = None"

text \<open>Every task ever spawned is live or was aborted, once; a session has at most one live forwarder.\<close>

definition forwarders_ok :: "connection \<Rightarrow> bool" where
  "forwarders_ok c \<longleftrightarrow> distinct (map fst (cn_forwarders c))
    \<and> mset (cn_aborted c) + mset (map snd (cn_forwarders c)) = mset [0..<length (cn_spawned c)]
    \<and> (cn_phase c = ConnEnded \<longrightarrow> cn_forwarders c = [])"

definition acts_as :: "peer_id \<Rightarrow> connection \<Rightarrow> bool" where
  "acts_as d c \<longleftrightarrow> (\<forall>sid p. map_of (cn_memberships c) sid = Some p \<longrightarrow> pi_id p = d)"

text \<open>The responses answer the requests in order; without an accepted hello there are no memberships and no tasks.\<close>

definition conn_ok :: "peer_id \<Rightarrow> incoming list \<Rightarrow> connection \<Rightarrow> bool" where
  "conn_ok d xs c \<longleftrightarrow> acts_as d c
    \<and> prefix (map response_id (cn_sent c)) (map Some (request_ids xs))
    \<and> (cn_phase c \<noteq> ConnEnded \<longrightarrow> map response_id (cn_sent c) = map Some (request_ids xs))
    \<and> (cn_phase c = AwaitHello \<longrightarrow> c = connection_new \<and> xs = [])
    \<and> (cn_phase c = Serving \<longrightarrow> (\<exists>i ys ws. xs = Frame (WRequest i (RqHello PROTOCOL_VERSION)) # ys \<and> cn_sent c = WResponse i (RsHello PROTOCOL_VERSION d) # ws))
    \<and> forwarders_ok c"

lemma request_ids_append [simp]: "request_ids (xs @ ys) = request_ids xs @ request_ids ys"
  by (induction xs rule: request_ids.induct) simp_all

lemma forwarders_ok_new: "forwarders_ok connection_new"
  by (simp add: forwarders_ok_def connection_new_def)

lemma clearjunk_distinct: "distinct (map fst fs) \<Longrightarrow> AList.clearjunk fs = fs"
  by (induction fs) (auto simp: delete_idem)

lemma forwarders_ok_end: "forwarders_ok c \<Longrightarrow> forwarders_ok (conn_end c)"
  by (auto simp: forwarders_ok_def conn_end_def forwarders_drop_def clearjunk_distinct)

lemma mset_update_fresh:
  "distinct (map fst fs) \<Longrightarrow> mset (map snd (AList.update k h fs)) + (case map_of fs k of None \<Rightarrow> {#} | Some p \<Rightarrow> {#p#}) = mset (map snd fs) + {#h#}"
  by (induction fs) (auto split: option.splits dest: map_of_SomeD simp: image_iff)

lemma forwarders_ok_subscribe:
  assumes "forwarders_ok c" "cn_phase c \<noteq> ConnEnded"
  shows "forwarders_ok (c\<lparr> cn_forwarders := AList.update sid (length (cn_spawned c)) (cn_forwarders c),
    cn_spawned := cn_spawned c @ [(length (cn_spawned c), sid, replay)],
    cn_aborted := cn_aborted c @ (case map_of (cn_forwarders c) sid of None \<Rightarrow> [] | Some p \<Rightarrow> [p]) \<rparr>)"
proof -
  let ?fs = "cn_forwarders c" and ?n = "length (cn_spawned c)"
  let ?new = "image_mset snd (mset (AList.update sid ?n ?fs))" and ?prev = "case map_of ?fs sid of None \<Rightarrow> [] | Some p \<Rightarrow> [p]"
  have fs: "distinct (map fst ?fs)" "mset (cn_aborted c) + image_mset snd (mset ?fs) = mset [0..<?n]"
    using assms(1) by (simp_all add: forwarders_ok_def)
  have "?new + mset ?prev = image_mset snd (mset ?fs) + {#?n#}"
    using mset_update_fresh [OF fs(1), of sid ?n] by (simp split: option.splits)
  then have "mset (cn_aborted c) + mset ?prev + ?new = mset (cn_aborted c) + image_mset snd (mset ?fs) + {#?n#}"
    by (simp add: ac_simps)
  then have "mset (cn_aborted c @ ?prev) + mset (map snd (AList.update sid ?n ?fs)) = mset [0..<Suc ?n]"
    using fs(2) by simp
  then show ?thesis using fs(1) assms(2) by (simp add: forwarders_ok_def distinct_update del: mset_append mset_map upt_Suc)
qed

lemma forwarders_ok_frame [simp]: "forwarders_ok (c\<lparr> cn_memberships := ms \<rparr>) = forwarders_ok c" "forwarders_ok (c\<lparr> cn_sent := ws \<rparr>) = forwarders_ok c"
  by (simp_all add: forwarders_ok_def)

lemma acts_as_change:
  "\<lbrakk>acts_as d c; pi_id p = d\<rbrakk> \<Longrightarrow> acts_as d (c\<lparr> cn_memberships := AList.update sid p (cn_memberships c) \<rparr>)"
  "acts_as d c \<Longrightarrow> acts_as d (c\<lparr> cn_memberships := AList.delete sid (cn_memberships c) \<rparr>)"
  by (auto simp: acts_as_def update_conv' delete_conv' restrict_map_def)

lemma conn_frame_simps [simp]:
  "acts_as d (c\<lparr> cn_sent := ws \<rparr>) = acts_as d c" "acts_as d (c\<lparr> cn_phase := ph \<rparr>) = acts_as d c" "acts_as d (conn_end c) = acts_as d c"
  "acts_as d (c\<lparr> cn_forwarders := fs, cn_spawned := sp, cn_aborted := ab \<rparr>) = acts_as d c"
  "cn_phase (conn_end c) = ConnEnded" "cn_sent (conn_end c) = cn_sent c"
  by (simp_all add: acts_as_def conn_end_def)

text \<open>What a served request leaves of the connection.\<close>

definition conn_kept :: "peer_id \<Rightarrow> connection \<Rightarrow> connection \<Rightarrow> bool" where
  "conn_kept d c c' \<longleftrightarrow> cn_phase c' = cn_phase c \<and> cn_sent c' = cn_sent c \<and> (acts_as d c \<longrightarrow> acts_as d c')
    \<and> (forwarders_ok c \<and> cn_phase c \<noteq> ConnEnded \<longrightarrow> forwarders_ok c')"

lemma conn_kept_same: "conn_kept d c c"
  by (simp add: conn_kept_def)

lemma conn_kept_join: "pi_id p = d \<Longrightarrow> conn_kept d c (c\<lparr> cn_memberships := AList.update sid p (cn_memberships c) \<rparr>)"
  by (simp add: conn_kept_def acts_as_change)

lemma conn_kept_leave: "conn_kept d c (c\<lparr> cn_memberships := AList.delete sid (cn_memberships c) \<rparr>)"
  by (simp add: conn_kept_def acts_as_change)

lemma conn_kept_subscribe:
  "conn_kept d c (c\<lparr> cn_forwarders := AList.update sid (length (cn_spawned c)) (cn_forwarders c),
    cn_spawned := cn_spawned c @ [(length (cn_spawned c), sid, replay)],
    cn_aborted := cn_aborted c @ (case map_of (cn_forwarders c) sid of None \<Rightarrow> [] | Some p \<Rightarrow> [p]) \<rparr>)"
  unfolding conn_kept_def using forwarders_ok_subscribe by simp

lemmas conn_kepts = conn_kept_same conn_kept_join conn_kept_leave conn_kept_subscribe

lemma dispatch_conn:
  assumes "dispatch ev dl ops rq req c r = (res, c', r')"
  shows "conn_kept (r_daemon_peer_id r) c c'"
proof (cases "\<exists>sid since. req = RqSubscribe sid since")
  case True
  then show ?thesis using assms
    by (auto simp: Let_def forwarders_insert_def split: sum.splits intro: conn_kepts)
next
  case False
  then show ?thesis using assms
    by (cases req)
      (auto simp: Let_def dispatch_host_def dispatch_join_def as_member_def unit_response_def
        split: prod.splits sum.splits option.splits intro: conn_kepts)
qed

lemma conn_ok_end:
  assumes "conn_ok d xs c" "cn_phase c \<noteq> ConnEnded" "prefix ys (map Some (request_ids [x]))"
    "map response_id ws = ys"
  shows "conn_ok d (xs @ [x]) (conn_end (c\<lparr> cn_sent := cn_sent c @ ws \<rparr>))"
  using assms forwarders_ok_end [of "c\<lparr> cn_sent := cn_sent c @ ws \<rparr>"]
  by (auto simp: conn_ok_def simp del: request_ids.simps)

lemma conn_ok_ended: "\<lbrakk>conn_ok d xs c; cn_phase c = ConnEnded\<rbrakk> \<Longrightarrow> conn_ok d (xs @ [x]) c"
  by (auto simp: conn_ok_def intro: prefix_order.trans)

lemma conn_ok_serve:
  assumes "conn_ok d xs c" "cn_phase c = Serving" "conn_kept d c c'"
  shows "conn_ok d (xs @ [Frame (WRequest i req)]) (respond rq i res c')"
proof (cases "rq_written rq")
  case True
  with assms show ?thesis by (auto simp: conn_ok_def respond_def conn_kept_def)
next
  case False
  with assms forwarders_ok_end [of c'] show ?thesis by (auto simp: conn_ok_def respond_def conn_kept_def)
qed

lemma conn_ok_hello:
  assumes "conn_ok d xs c" "cn_phase c = AwaitHello" "r_daemon_peer_id r = d"
  shows "conn_ok d (xs @ [Frame w]) (serve_hello rq w c r)"
proof -
  have c: "c = connection_new" "xs = []" using assms(1,2) by (simp_all add: conn_ok_def)
  then show ?thesis using assms(3)
    by (auto simp: conn_ok_def serve_hello_def respond_def handle_hello_def conn_end_def connection_new_def acts_as_def
        forwarders_ok_def forwarders_drop_def split: wire_message.splits request.splits sum.splits)
qed

lemma conn_run_ok:
  assumes "conn_run ev dl ops d xs c r"
  shows "conn_ok d xs c \<and> r_daemon_peer_id r = d"
  using assms
proof induction
  case (conn_frame xs c r rq x c' r')
  consider "cn_phase c = ConnEnded" | "cn_phase c \<noteq> ConnEnded" "\<nexists>w. x = Frame w" | w where "cn_phase c = AwaitHello" "x = Frame w"
    | w where "cn_phase c = Serving" "x = Frame w" by (cases "cn_phase c") auto
  then show ?case
  proof cases
    case 1
    with conn_frame show ?thesis by (auto simp: serve_connection_def intro: conn_ok_ended)
  next
    case 2
    then have "c' = conn_end c" "r' = r" using conn_frame.hyps(2) by (auto simp: serve_connection_def split: conn_phase.splits incoming.splits)
    then show ?thesis using conn_ok_end [of d xs c "[]" x "[]"] conn_frame.IH 2(1) by simp
  next
    case 3
    with conn_frame conn_ok_hello [of d xs c r w rq] show ?thesis by (auto simp: serve_connection_def)
  next
    case 4
    have "conn_ok d (xs @ [x]) c" if "\<nexists>i req. w = WRequest i req"
      using that 4 conn_frame.IH by (cases w) (auto simp: conn_ok_def)
    then show ?thesis using conn_frame 4
      by (cases w) (auto simp: serve_connection_def serve_request_def split: prod.splits
          intro: conn_ok_serve dest: dispatch_conn daemon_dispatch)
  qed
qed (simp_all add: conn_ok_def connection_new_def forwarders_ok_def acts_as_def)

text \<open>C23: the discipline of a connection.  Whatever frames arrive and whatever else happens to the registry in between,
  a client acts only under the identity of its daemon.  Its requests are answered once each and in order, all of them
  as long as the connection is up, and it is served only after a hello of the same version.  A session has at most
  one live forwarder, every forwarder that was replaced is aborted once, and none outlives the connection.\<close>

theorem connection_discipline:
  assumes "conn_run ev dl ops d xs c r"
  shows "(map_of (cn_memberships c) sid = Some p \<longrightarrow> pi_id p = d)
    \<and> prefix (map response_id (cn_sent c)) (map Some (request_ids xs))
    \<and> (cn_phase c \<noteq> ConnEnded \<longrightarrow> map response_id (cn_sent c) = map Some (request_ids xs))
    \<and> (cn_phase c = Serving \<longrightarrow> (\<exists>i ys ws. xs = Frame (WRequest i (RqHello PROTOCOL_VERSION)) # ys \<and> cn_sent c = WResponse i (RsHello PROTOCOL_VERSION d) # ws))
    \<and> distinct (map fst (cn_forwarders c)) \<and> (cn_phase c = ConnEnded \<longrightarrow> cn_forwarders c = [])
    \<and> mset (cn_aborted c) + mset (map snd (cn_forwarders c)) = mset [0..<length (cn_spawned c)]"
  using conn_run_ok [OF assms] by (simp add: conn_ok_def acts_as_def forwarders_ok_def)

subsection \<open>From the daemon of the host to the workspace of a peer\<close>

text \<open>A network that carries a delivery to the daemon \<open>r\<close>, which sees the endpoint of \<open>sender\<close> on the connection.\<close>

definition wired_to :: "delivery_codecs \<Rightarrow> 's store_ops \<Rightarrow> nat \<Rightarrow> peer_id \<Rightarrow> ('s, 'k) registry \<Rightarrow> deliver_env" where
  "wired_to dl ops permits sender r = \<lparr> dv_endpoint_id = (\<lambda>_. None), dv_connect = None, dv_open_bi = None, dv_write_length = None,
    dv_write_body = None, dv_finish = None,
    dv_answer = (\<lambda>bs. case fst (accept dl ops permits None None None sender bs r) of Inl _ \<Rightarrow> Inl ''stream reset'' | Inr ack \<Rightarrow> Inr ack),
    dv_in_time = True \<rparr>"

definition delivery_bytes :: "delivery_codecs \<Rightarrow> delivery_frame \<Rightarrow> byte list" where
  "delivery_bytes dl frame = to_le_bytes_u32 (length (enc (dl_frame dl) frame)) @ enc (dl_frame dl) frame"

lemma accept_delivery:
  assumes "codec_ok (dl_frame dl)" "length (enc (dl_frame dl) frame) \<le> MAX_DELIVERY_FRAME" "0 < permits"
  shows "accept dl ops permits None None None sender (delivery_bytes dl frame) r =
    (case dispatch_delivery dl ops sender frame r of
       (Inl e, r) \<Rightarrow> (Inl (AcceptError AcPermissionDenied ''delivery rejected''), r) | (Inr _, r) \<Rightarrow> (Inr UPGRADE_ACK, r))"
  unfolding accept_def delivery_bytes_def handle_accept_frame [OF assms(1,2)] using assms(3) by (simp add: try_begin_accept_def)

lemma deliver_frame_wired:
  assumes "codec_ok (dl_frame dl)" "length (enc (dl_frame dl) frame) \<le> MAX_DELIVERY_FRAME" "0 < permits"
  shows "deliver_frame (dl_frame dl) (wired_to dl ops permits sender r) target frame =
    (case fst (dispatch_delivery dl ops sender frame r) of Inl _ \<Rightarrow> Inl ''read ACK failed: stream reset'' | Inr _ \<Rightarrow> Inr ())"
proof -
  have "length (enc (dl_frame dl) frame) < 2 ^ 32" using assms(2) by (simp add: MAX_DELIVERY_FRAME_def)
  then show ?thesis
    using accept_delivery [OF assms, of ops sender r]
    by (auto simp: deliver_frame_def deliver_frame_inner_def wired_to_def Let_def delivery_bytes_def split: prod.splits sum.splits)
qed


subsection \<open>Sample daemons\<close>

definition sd_delivery :: "delivery_frame pcodec" where
  "sd_delivery = sd_iso
    (\<lambda>f. case f of Secret u \<Rightarrow> Inl (Inl (sid_uuid (uf_session_id u), uf_namespace_secret u)) | WorkspaceTicket sid t \<Rightarrow> Inl (Inr (sid_uuid sid, t))
      | Downgrade sid \<Rightarrow> Inr (Inl (sid_uuid sid)) | Rotate sid e t \<Rightarrow> Inr (Inr (sid_uuid sid, e, t)))
    (\<lambda>x. case x of Inl (Inl (sid, k)) \<Rightarrow> Secret \<lparr> uf_session_id = SessionId sid, uf_namespace_secret = k \<rparr>
      | Inl (Inr (sid, t)) \<Rightarrow> WorkspaceTicket (SessionId sid) t
      | Inr (Inl sid) \<Rightarrow> Downgrade (SessionId sid) | Inr (Inr (sid, e, t)) \<Rightarrow> Rotate (SessionId sid) e t)
    (sd_sum (sd_sum (sd_pair (sd_word 16) (sd_word 32)) (sd_pair (sd_word 16) sd_bytes))
      (sd_sum (sd_word 16) (sd_pair (sd_word 16) (sd_pair (sd_word 8) sd_string))))"

definition sample_deliveries :: delivery_codecs where
  "sample_deliveries = \<lparr> dl_frame = to_codec sd_delivery,
    dl_upgrade = to_codec (sd_iso (\<lambda>u. (pid_bits (up_target_peer u), up_namespace_secret u))
      (\<lambda>(p, k). \<lparr> up_target_peer = PeerId p, up_namespace_secret = k \<rparr>) (sd_pair (sd_word 32) (sd_word 32))),
    dl_downgrade = to_codec (sd_iso (\<lambda>d. pid_bits (dp_target_peer d)) (\<lambda>p. \<lparr> dp_target_peer = PeerId p \<rparr>) (sd_word 32)),
    dl_rotate = to_codec (sd_iso (\<lambda>r. (pid_bits (rp_target_peer r), rp_namespace_epoch r, rp_doc_ticket r))
      (\<lambda>(p, e, t). \<lparr> rp_target_peer = PeerId p, rp_namespace_epoch = e, rp_doc_ticket = t \<rparr>) (sd_pair (sd_word 32) (sd_pair (sd_word 8) sd_string))) \<rparr>"

lemma sd_delivery: "self_delim sd_delivery"
  unfolding sd_delivery_def by (intro sd_iso sd_intros) (simp_all split: delivery_frame.splits)

lemma sample_deliveries_ok: "codec_ok (dl_frame sample_deliveries)" "codec_ok (dl_upgrade sample_deliveries)"
  by (simp_all add: sample_deliveries_def)
    (intro to_codec_ok sd_delivery, intro to_codec_ok sd_iso sd_intros, simp_all)

definition sample_request :: "deliver_env \<Rightarrow> request_env" where
  "sample_request dv = \<lparr> rq_now = 9, rq_draws = [], rq_ticket_id = TicketId 4, rq_subscribed = Inr (), rq_answer = (\<lambda>_. Inl BSendTimeout),
    rq_resubscribed = Inr (), rq_deliver = dv, rq_written = True \<rparr>"

definition sample_joined_run :: "(memory_store, peer_id) registry" where
  "sample_joined_run = reg_step sample_env memory_ops (hd mirror_steps) mirror_registry"

lemma sample_joined_daemon: "r_daemon_peer_id sample_joined_run = PeerId 5"
  by (simp add: sample_joined_run_def mirror_steps_def) (simp add: mirror_registry_def)

lemma sample_run_daemon: "r_daemon_peer_id sample_run = PeerId 7"
  by (simp add: sample_defs host_eval)


text \<open>A client says hello, subscribes twice and hangs up.\<close>

theorem connection_discipline_witness:
  "let dv = wired_to sample_deliveries memory_ops 32 (PeerId 7) sample_joined_run;
      sub = (\<lambda>i. Frame (WRequest (RequestId i) (RqSubscribe (SessionId 9) None)));
      xs = [Frame (WRequest (RequestId 1) (RqHello PROTOCOL_VERSION)), sub 2, sub 3, EndOfStream];
      serve = (\<lambda>x (c, r). serve_connection sample_env sample_deliveries memory_ops (sample_request dv) x c r);
      (c, r) = fold serve xs (connection_new, sample_run)
    in cn_phase c = ConnEnded \<and> length (cn_spawned c) = 2 \<and> mset (cn_aborted c) = {#0, 1#}"
proof -
  let ?rq = "sample_request (wired_to sample_deliveries memory_ops 32 (PeerId 7) sample_joined_run)"
  let ?serve = "\<lambda>x (c, r). serve_connection sample_env sample_deliveries memory_ops ?rq x c r"
  let ?sub = "\<lambda>i. Frame (WRequest (RequestId i) (RqSubscribe (SessionId 9) None))"
  let ?xs = "[Frame (WRequest (RequestId 1) (RqHello PROTOCOL_VERSION)), ?sub 2, ?sub 3, EndOfStream]"
  obtain ms where ms: "subscribe sample_run (SessionId 9) None = Inr ms" using sample_session_hosted by (auto simp: subscribe_def Let_def)
  obtain c r where cr: "fold ?serve ?xs (connection_new, sample_run) = (c, r)" by force
  have "conn_run sample_env sample_deliveries memory_ops (PeerId 7) ([] @ ys) (fst (fold ?serve ys (connection_new, sample_run))) (snd (fold ?serve ys (connection_new, sample_run)))" for ys
  proof (induction ys rule: rev_induct)
    case (snoc y ys)
    then show ?case by (auto intro: conn_frame simp flip: append_assoc split: prod.splits)
  qed (simp add: conn_open sample_run_daemon)
  from this [of ?xs] have run: "conn_run sample_env sample_deliveries memory_ops (PeerId 7) ?xs c r" using cr by simp
  have c: "cn_phase c = ConnEnded" "length (cn_spawned c) = 2"
    using cr ms by (auto simp: serve_connection_def serve_hello_def handle_hello_def serve_request_def respond_def sample_request_def
        connection_new_def forwarders_insert_def conn_end_def)
  from connection_discipline [OF run, of "SessionId 9" sample_host] c have "mset (cn_aborted c) = mset [0..<2]" by auto
  then have "mset (cn_aborted c) = {#0, 1#}" by (simp add: numeral_2_eq_2)
  with c cr show ?thesis by (simp add: Let_def)
qed

end
