(* ===== verification/Ipc_Guarantees.thy ===== *)
theory Ipc_Guarantees
  imports Server_Guarantees
begin

text \<open>
  A client and its daemon together: the requests of a client travel to its connection in order, the responses travel
  back, and each future of the client gets the response that the daemon computed for its own request.
\<close>

subsection \<open>The composed system\<close>

text \<open>\<open>ip_served\<close> has every frame the daemon has served, with the state it was served in; \<open>ip_read\<close> is the number of
  responses the client has read.\<close>

record ('s, 'k) ipc =
  ip_client :: client
  ip_conn :: connection
  ip_reg :: "('s, 'k) registry"
  ip_served :: "(wire_message \<times> request_env \<times> connection \<times> ('s, 'k) registry) list"
  ip_read :: nat

text \<open>The steps of a client that take nothing from the socket but events.\<close>

inductive client_local :: "client \<Rightarrow> client \<Rightarrow> bool" where
  "client_local c (snd (request_begin req c))"
| "client_local c (snd (request_poll i c))"
| "client_local c (pending_drop i c)"
| "client_local c (reader_frame (WEvent e) c)"
| "client_local c (reader_gap c)"
| "client_local c (events_recv c)"
| "client_local c (events_drop c)"
| "client_local c (snd (take_events c))"
| "client_local c (reader_exit c)"
| "client_local c (writer_exit c)"

inductive ipc_run :: "'k env \<Rightarrow> delivery_codecs \<Rightarrow> 's store_ops \<Rightarrow> ('s, 'k) ipc \<Rightarrow> bool" for ev dl ops where
  ipc_open: "\<lbrakk>serve_connection ev dl ops rq (Frame hello_frame) connection_new r = (k, r');
      cn_sent k \<noteq> []; handshake None (Some (Inr (hd (cn_sent k)))) = Inr c\<rbrakk>
    \<Longrightarrow> ipc_run ev dl ops \<lparr> ip_client = c, ip_conn = k, ip_reg = r', ip_served = [], ip_read = 1 \<rparr>"
| ipc_client: "\<lbrakk>ipc_run ev dl ops s; client_local (ip_client s) c\<rbrakk> \<Longrightarrow> ipc_run ev dl ops (s\<lparr> ip_client := c \<rparr>)"
| ipc_serve: "\<lbrakk>ipc_run ev dl ops s; cn_phase (ip_conn s) \<noteq> ConnEnded; length (ip_served s) < length (cc_out (ip_client s));
      w = cc_out (ip_client s) ! length (ip_served s); serve_connection ev dl ops rq (Frame w) (ip_conn s) (ip_reg s) = (k, r)\<rbrakk>
    \<Longrightarrow> ipc_run ev dl ops (s\<lparr> ip_conn := k, ip_reg := r, ip_served := ip_served s @ [(w, rq, ip_conn s, ip_reg s)] \<rparr>)"
| ipc_read: "\<lbrakk>ipc_run ev dl ops s; \<not> cc_closed (ip_client s); ip_read s < length (cn_sent (ip_conn s))\<rbrakk>
    \<Longrightarrow> ipc_run ev dl ops (s\<lparr> ip_client := reader_frame (cn_sent (ip_conn s) ! ip_read s) (ip_client s), ip_read := Suc (ip_read s) \<rparr>)"
| ipc_end: "ipc_run ev dl ops s \<Longrightarrow> ipc_run ev dl ops (s\<lparr> ip_conn := conn_end (ip_conn s) \<rparr>)"
| ipc_other: "\<lbrakk>ipc_run ev dl ops s; r_daemon_peer_id r = r_daemon_peer_id (ip_reg s)\<rbrakk> \<Longrightarrow> ipc_run ev dl ops (s\<lparr> ip_reg := r \<rparr>)"

subsection \<open>The requests of a client\<close>

definition nth_id :: "nat \<Rightarrow> request_id" where
  "nth_id j = RequestId (of_nat (Suc j))"

definition out_ok :: "client \<Rightarrow> bool" where
  "out_ok c \<longleftrightarrow> (cc_writer c \<longrightarrow> cc_next_id c = of_nat (Suc (length (cc_out c))))
    \<and> (\<forall>j<length (cc_out c). \<exists>req. cc_out c ! j = WRequest (nth_id j) req)"

definition waits_ok :: "nat \<Rightarrow> client \<Rightarrow> bool" where
  "waits_ok n c \<longleftrightarrow> (\<forall>i\<in>cc_pending c. \<exists>j. n \<le> Suc j \<and> j < length (cc_out c) \<and> i = nth_id j)"

definition answers_ok :: "wire_message list \<Rightarrow> client \<Rightarrow> bool" where
  "answers_ok ws c \<longleftrightarrow> (\<forall>(i, res)\<in>set (cc_answers c). \<exists>j. Suc j < length ws \<and> ws ! Suc j = WResponse i res)"

lemma nth_id_inj: "\<lbrakk>nth_id i = nth_id j; i < 2 ^ 64 - 1; j < 2 ^ 64 - 1\<rbrakk> \<Longrightarrow> i = j"
  by (simp add: nth_id_def word_unat_eq_iff unat_of_nat take_bit_nat_eq_self del: of_nat_Suc)

definition client_shrinks :: "client \<Rightarrow> client \<Rightarrow> bool" where
  "client_shrinks c c' \<longleftrightarrow> cc_out c' = cc_out c \<and> cc_next_id c' = cc_next_id c \<and> (cc_writer c' \<longrightarrow> cc_writer c)
    \<and> cc_pending c' \<subseteq> cc_pending c \<and> set (cc_answers c') \<subseteq> set (cc_answers c)"

lemma local_shrinks: "client_local c c' \<Longrightarrow> (\<exists>req. c' = snd (request_begin req c)) \<or> client_shrinks c c'"
  by (induction rule: client_local.induct)
    (auto simp: client_shrinks_def request_poll_def pending_drop_def reader_event_def reader_gap_def events_recv_def events_drop_def
      take_events_def reader_exit_def writer_exit_def split: option.splits list.splits)

lemma shrinks_ok:
  assumes "client_shrinks c c'"
  shows "out_ok c \<Longrightarrow> out_ok c'" "waits_ok n c \<Longrightarrow> waits_ok n c'" "answers_ok ws c \<Longrightarrow> answers_ok ws c'"
proof -
  have e: "cc_out c' = cc_out c" "cc_next_id c' = cc_next_id c" "cc_writer c' \<longrightarrow> cc_writer c" "cc_pending c' \<subseteq> cc_pending c"
      "set (cc_answers c') \<subseteq> set (cc_answers c)" using assms by (simp_all add: client_shrinks_def)
  show "out_ok c \<Longrightarrow> out_ok c'" "waits_ok n c \<Longrightarrow> waits_ok n c'" "answers_ok ws c \<Longrightarrow> answers_ok ws c'"
    using e(3-5) unfolding out_ok_def waits_ok_def answers_ok_def e(1,2) by blast+
qed

lemma begin_ok:
  fixes req c
  assumes "out_ok c" "waits_ok n c" "answers_ok ws c" "n \<le> Suc (length (cc_out c))"
  defines "c' \<equiv> snd (request_begin req c)"
  shows "out_ok c'" "waits_ok n c'" "answers_ok ws c'" "prefix (cc_out c) (cc_out c')"
proof -
  consider "c' = c" | "\<not> cc_writer c" "c' = (pending_drop (RequestId (cc_next_id c)) c)\<lparr> cc_next_id := cc_next_id c + 1 \<rparr>"
    | "cc_writer c" "c' = c\<lparr> cc_next_id := cc_next_id c + 1, cc_pending := insert (RequestId (cc_next_id c)) (cc_pending c),
        cc_out := cc_out c @ [WRequest (RequestId (cc_next_id c)) req] \<rparr>"
    unfolding c'_def
    by (cases "cc_closed c"; cases "cc_writer c") (simp_all add: request_begin_def alloc_id_def pending_insert_def pending_drop_def Let_def)
  then have "out_ok c' \<and> waits_ok n c' \<and> answers_ok ws c' \<and> prefix (cc_out c) (cc_out c')"
  proof cases
    case 1
    then show ?thesis using assms by simp
  next
    case 2
    then show ?thesis using assms(1-3) by (auto simp: out_ok_def waits_ok_def answers_ok_def pending_drop_def)
  next
    case 3
    then have "RequestId (cc_next_id c) = nth_id (length (cc_out c))" using assms(1) by (simp add: out_ok_def nth_id_def)
    with 3 assms(1-4) show ?thesis
      by (auto simp: out_ok_def waits_ok_def answers_ok_def nth_append less_Suc_eq)
  qed
  then show "out_ok c'" "waits_ok n c'" "answers_ok ws c'" "prefix (cc_out c) (cc_out c')" by blast+
qed

lemma local_ok:
  assumes "client_local c c'" "out_ok c" "waits_ok n c" "answers_ok ws c" "n \<le> Suc (length (cc_out c))"
  shows "out_ok c' \<and> waits_ok n c' \<and> answers_ok ws c' \<and> prefix (cc_out c) (cc_out c')"
  using local_shrinks [OF assms(1)]
proof (elim disjE exE)
  fix req assume "c' = snd (request_begin req c)"
  then show ?thesis using begin_ok [OF assms(2-5), of req] by simp
next
  assume sh: "client_shrinks c c'"
  then have "prefix (cc_out c) (cc_out c')" by (simp add: client_shrinks_def)
  then show ?thesis using shrinks_ok(1) [OF sh assms(2)] shrinks_ok(2) [OF sh assms(3)] shrinks_ok(3) [OF sh assms(4)] by blast
qed

subsection \<open>The responses of the daemon\<close>

text \<open>Response \<open>j + 1\<close> is what dispatch computed for served frame \<open>j\<close>, the first response being the hello.\<close>

definition daemon_ok :: "'k env \<Rightarrow> delivery_codecs \<Rightarrow> 's store_ops \<Rightarrow> ('s, 'k) ipc \<Rightarrow> bool" where
  "daemon_ok ev dl ops s \<longleftrightarrow> cn_phase (ip_conn s) \<noteq> AwaitHello \<and> length (cn_sent (ip_conn s)) \<le> Suc (length (ip_served s))
    \<and> (cn_phase (ip_conn s) \<noteq> ConnEnded \<longrightarrow> length (cn_sent (ip_conn s)) = Suc (length (ip_served s)))
    \<and> (\<forall>j. Suc j < length (cn_sent (ip_conn s)) \<longrightarrow> (\<exists>i req rq c r. ip_served s ! j = (WRequest i req, rq, c, r)
        \<and> cn_sent (ip_conn s) ! Suc j = WResponse i (fst (dispatch ev dl ops rq req c r))))
    \<and> length (ip_served s) \<le> length (cc_out (ip_client s)) \<and> (\<forall>j<length (ip_served s). fst (ip_served s ! j) = cc_out (ip_client s) ! j)"

definition ipc_ok :: "'k env \<Rightarrow> delivery_codecs \<Rightarrow> 's store_ops \<Rightarrow> ('s, 'k) ipc \<Rightarrow> bool" where
  "ipc_ok ev dl ops s \<longleftrightarrow> daemon_ok ev dl ops s \<and> out_ok (ip_client s) \<and> waits_ok (ip_read s) (ip_client s)
    \<and> answers_ok (cn_sent (ip_conn s)) (ip_client s) \<and> 0 < ip_read s \<and> ip_read s \<le> length (cn_sent (ip_conn s))"

lemma serve_request_sent:
  assumes "serve_connection ev dl ops rq (Frame (WRequest i req)) c r = (c', r')" "cn_phase c = Serving"
  shows "cn_sent c' = cn_sent c @ [WResponse i (fst (dispatch ev dl ops rq req c r))] \<and> cn_phase c' = Serving
    \<or> cn_sent c' = cn_sent c \<and> cn_phase c' = ConnEnded"
proof -
  obtain res c1 r1 where d: "dispatch ev dl ops rq req c r = (res, c1, r1)" by (metis prod_cases3)
  have "cn_sent c1 = cn_sent c" "cn_phase c1 = cn_phase c" using dispatch_conn [OF d] by (simp_all add: conn_kept_def)
  then show ?thesis using assms d
    by (cases "rq_written rq") (auto simp: serve_connection_def serve_request_def respond_def simp del: dispatch.simps)
qed

lemma answers_more: "answers_ok ws c \<Longrightarrow> answers_ok (ws @ us) c"
  by (fastforce simp: answers_ok_def nth_append)

lemma ipc_ok_serve:
  assumes "ipc_ok ev dl ops s" "cn_phase (ip_conn s) \<noteq> ConnEnded" "length (ip_served s) < length (cc_out (ip_client s))"
    "w = cc_out (ip_client s) ! length (ip_served s)" "serve_connection ev dl ops rq (Frame w) (ip_conn s) (ip_reg s) = (k, r)"
  shows "ipc_ok ev dl ops (s\<lparr> ip_conn := k, ip_reg := r, ip_served := ip_served s @ [(w, rq, ip_conn s, ip_reg s)] \<rparr>)"
proof -
  have p: "cn_phase (ip_conn s) = Serving" using assms(1,2) by (cases "cn_phase (ip_conn s)") (auto simp: ipc_ok_def daemon_ok_def)
  obtain i req where w: "w = WRequest i req" using assms(1,3,4) by (auto simp: ipc_ok_def out_ok_def)
  have d: "daemon_ok ev dl ops s" and a: "answers_ok (cn_sent (ip_conn s)) (ip_client s)" and n: "ip_read s \<le> length (cn_sent (ip_conn s))"
    using assms(1) by (simp_all add: ipc_ok_def)
  from serve_request_sent [OF assms(5) [unfolded w] p] show ?thesis
  proof (elim disjE conjE)
    assume k: "cn_sent k = cn_sent (ip_conn s) @ [WResponse i (fst (dispatch ev dl ops rq req (ip_conn s) (ip_reg s)))]" "cn_phase k = Serving"
    have "answers_ok (cn_sent k) (ip_client s)" unfolding k(1) by (rule answers_more [OF a])
    moreover have "daemon_ok ev dl ops (s\<lparr> ip_conn := k, ip_reg := r, ip_served := ip_served s @ [(w, rq, ip_conn s, ip_reg s)] \<rparr>)"
      using d k p w assms(3,4) by (auto simp: daemon_ok_def nth_append less_Suc_eq)
    ultimately show ?thesis using assms(1) k n by (simp add: ipc_ok_def)
  next
    assume k: "cn_sent k = cn_sent (ip_conn s)" "cn_phase k = ConnEnded"
    have "daemon_ok ev dl ops (s\<lparr> ip_conn := k, ip_reg := r, ip_served := ip_served s @ [(w, rq, ip_conn s, ip_reg s)] \<rparr>)"
      using d k p w assms(3,4) by (auto simp: daemon_ok_def nth_append less_Suc_eq)
    then show ?thesis using assms(1) k by (simp add: ipc_ok_def)
  qed
qed

lemma waits_read:
  assumes "waits_ok (Suc j) c"
  shows "waits_ok (Suc (Suc j)) (reader_frame (WResponse (nth_id j) res) c)"
proof -
  let ?c = "reader_frame (WResponse (nth_id j) res) c"
  have e: "cc_out ?c = cc_out c" "cc_pending ?c = cc_pending c - {nth_id j}" by (auto simp: reader_response_def)
  show ?thesis unfolding waits_ok_def e
  proof
    fix i assume i: "i \<in> cc_pending c - {nth_id j}"
    then obtain l where l: "Suc j \<le> Suc l" "l < length (cc_out c)" "i = nth_id l" using assms unfolding waits_ok_def by blast
    then have "l \<noteq> j" using i by blast
    with l show "\<exists>l. Suc (Suc j) \<le> Suc l \<and> l < length (cc_out c) \<and> i = nth_id l" by (intro exI [of _ l]) simp
  qed
qed

lemma ipc_ok_read:
  assumes "ipc_ok ev dl ops s" "ip_read s < length (cn_sent (ip_conn s))"
  shows "ipc_ok ev dl ops (s\<lparr> ip_client := reader_frame (cn_sent (ip_conn s) ! ip_read s) (ip_client s), ip_read := Suc (ip_read s) \<rparr>)"
proof -
  obtain j where j: "ip_read s = Suc j" using assms(1) by (cases "ip_read s") (auto simp: ipc_ok_def)
  obtain i req rq c r where d: "ip_served s ! j = (WRequest i req, rq, c, r)" "cn_sent (ip_conn s) ! Suc j = WResponse i (fst (dispatch ev dl ops rq req c r))"
    using assms j unfolding ipc_ok_def daemon_ok_def by metis
  have "j < length (ip_served s)" using assms j by (auto simp: ipc_ok_def daemon_ok_def)
  then have "cc_out (ip_client s) ! j = WRequest i req" "j < length (cc_out (ip_client s))" using assms(1) d(1) by (auto simp: ipc_ok_def daemon_ok_def)
  then have i: "i = nth_id j" using assms(1) by (auto simp: ipc_ok_def out_ok_def)
  let ?c = "reader_frame (cn_sent (ip_conn s) ! ip_read s) (ip_client s)"
  have "cc_out ?c = cc_out (ip_client s)" "cc_next_id ?c = cc_next_id (ip_client s)" "cc_writer ?c = cc_writer (ip_client s)"
    by (simp_all add: j d(2) reader_response_def)
  moreover have "waits_ok (Suc (ip_read s)) ?c" using waits_read [of j "ip_client s"] assms(1) unfolding j d(2) i ipc_ok_def by blast
  moreover have "answers_ok (cn_sent (ip_conn s)) ?c"
    using assms d(2) unfolding j by (auto simp: ipc_ok_def answers_ok_def reader_response_def)
  ultimately show ?thesis using assms by (simp add: ipc_ok_def daemon_ok_def out_ok_def)
qed

lemma ipc_run_ok: "ipc_run ev dl ops s \<Longrightarrow> ipc_ok ev dl ops s"
proof (induction rule: ipc_run.induct)
  case (ipc_open rq r k r' c)
  then show ?case
    by (auto simp: serve_connection_def serve_hello_def hello_frame_def connection_new_def handle_hello_def respond_def handshake_def client_spawn_def
        ipc_ok_def daemon_ok_def out_ok_def waits_ok_def answers_ok_def conn_end_def split: if_splits)
next
  case (ipc_client s c)
  have n: "ip_read s \<le> Suc (length (cc_out (ip_client s)))" "length (ip_served s) \<le> length (cc_out (ip_client s))"
    using ipc_client.IH by (auto simp: ipc_ok_def daemon_ok_def)
  have "out_ok c \<and> waits_ok (ip_read s) c \<and> answers_ok (cn_sent (ip_conn s)) c \<and> prefix (cc_out (ip_client s)) (cc_out c)"
    by (rule local_ok [OF ipc_client.hyps(2)]) (use ipc_client.IH n in \<open>simp_all add: ipc_ok_def\<close>)
  moreover from this have "length (cc_out (ip_client s)) \<le> length (cc_out c)" "\<forall>j<length (ip_served s). cc_out c ! j = cc_out (ip_client s) ! j"
    using n(2) by (auto simp: prefix_def nth_append)
  ultimately show ?case using ipc_client.IH n by (auto simp: ipc_ok_def daemon_ok_def)
next
  case (ipc_serve s w rq k r)
  then show ?case by (intro ipc_ok_serve)
next
  case (ipc_read s)
  then show ?case by (intro ipc_ok_read)
qed (auto simp: ipc_ok_def daemon_ok_def)

text \<open>C24: a future of a client gets the response to its own request.  Over any interleaving of the tasks of a client
  with its daemon, a request that ends without the connection closing ends with what the daemon computed when it
  served exactly that request, which is the only one of its id; and when the client has read a response to everything
  it sent, no request is waiting.\<close>

theorem requests_get_their_responses:
  assumes "ipc_run ev dl ops s" "length (cc_out (ip_client s)) < 2 ^ 64"
  shows "(fst (request_poll i (ip_client s)) = Some x \<longrightarrow> x = Inl CeConnectionClosed \<or>
      (\<exists>j req rq c r. j < length (ip_served s) \<and> ip_served s ! j = (WRequest i req, rq, c, r)
        \<and> x = response_outcome (fst (dispatch ev dl ops rq req c r))
        \<and> (\<forall>l<length (cc_out (ip_client s)). \<forall>req'. cc_out (ip_client s) ! l = WRequest i req' \<longleftrightarrow> l = j \<and> req' = req)))
    \<and> (ip_read s = Suc (length (cc_out (ip_client s))) \<longrightarrow> cc_pending (ip_client s) = {})"
proof (intro conjI impI)
  let ?c = "ip_client s"
  have ok: "ipc_ok ev dl ops s" by (rule ipc_run_ok [OF assms(1)])
  show "cc_pending ?c = {}" if "ip_read s = Suc (length (cc_out ?c))"
    using ok that unfolding ipc_ok_def waits_ok_def by fastforce
  assume x: "fst (request_poll i ?c) = Some x"
  show "x = Inl CeConnectionClosed \<or> (\<exists>j req rq c r. j < length (ip_served s) \<and> ip_served s ! j = (WRequest i req, rq, c, r)
        \<and> x = response_outcome (fst (dispatch ev dl ops rq req c r))
        \<and> (\<forall>l<length (cc_out ?c). \<forall>req'. cc_out ?c ! l = WRequest i req' \<longleftrightarrow> l = j \<and> req' = req))"
  proof (cases "map_of (cc_answers ?c) i")
    case None
    then show ?thesis using x by (auto simp: request_poll_def split: if_splits)
  next
    case (Some res)
    then obtain j where j: "Suc j < length (cn_sent (ip_conn s))" "cn_sent (ip_conn s) ! Suc j = WResponse i res"
      using ok by (fastforce simp: ipc_ok_def answers_ok_def dest: map_of_SomeD)
    then obtain req rq c r where d: "ip_served s ! j = (WRequest i req, rq, c, r)" "res = fst (dispatch ev dl ops rq req c r)"
      using ok unfolding ipc_ok_def daemon_ok_def by (metis wire_message.inject(2))
    have l: "j < length (ip_served s)" "j < length (cc_out ?c)" using ok j(1) by (simp_all add: ipc_ok_def daemon_ok_def)
    have o: "out_ok ?c" "cc_out ?c ! j = WRequest i req" using ok l(1) d(1) by (auto simp: ipc_ok_def daemon_ok_def)
    have "cc_out ?c ! l = WRequest i req' \<longleftrightarrow> l = j \<and> req' = req" if lt: "l < length (cc_out ?c)" for l req'
    proof -
      obtain q q' where q: "cc_out ?c ! l = WRequest (nth_id l) q" "cc_out ?c ! j = WRequest (nth_id j) q'" using o(1) lt l(2) unfolding out_ok_def by blast
      have "l < 2 ^ 64 - 1" "j < 2 ^ 64 - 1" using lt l(2) assms(2) by linarith+
      then have "nth_id l = nth_id j \<longleftrightarrow> l = j" using nth_id_inj by blast
      with q o(2) show ?thesis by auto
    qed
    moreover have "x = response_outcome (fst (dispatch ev dl ops rq req c r))" using x Some d(2) by (simp add: request_poll_def)
    ultimately show ?thesis using l(1) d(1) by blast
  qed
qed

text \<open>A client asks its daemon for the sessions.\<close>

theorem requests_get_their_responses_witness:
  "\<exists>s. ipc_run sample_env sample_deliveries memory_ops s \<and> cc_pending (ip_client s) = {}
    \<and> fst (request_poll (RequestId 1) (ip_client s)) = Some (Inr (RsListSessions (list_sessions sample_run)))
    \<and> (\<exists>j req rq c r. j < length (ip_served s) \<and> ip_served s ! j = (WRequest (RequestId 1) req, rq, c, r)
        \<and> Inr (RsListSessions (list_sessions sample_run)) = response_outcome (fst (dispatch sample_env sample_deliveries memory_ops rq req c r)))"
proof -
  let ?rq = "sample_request (wired_to sample_deliveries memory_ops 32 (PeerId 7) sample_joined_run)" and ?w = "WRequest (RequestId 1) RqListSessions"
  let ?hi = "WResponse (RequestId 0) (RsHello PROTOCOL_VERSION (PeerId 7))" and ?re = "WResponse (RequestId 1) (RsListSessions (list_sessions sample_run))"
  define k0 where "k0 = connection_new\<lparr> cn_phase := Serving, cn_sent := [?hi] \<rparr>"
  define k1 where "k1 = k0\<lparr> cn_sent := [?hi, ?re] \<rparr>"
  define c0 where "c0 = client_spawn PROTOCOL_VERSION (PeerId 7)"
  define c1 where "c1 = snd (request_begin RqListSessions c0)"
  define s1 where "s1 = \<lparr> ip_client = c1, ip_conn = k0, ip_reg = sample_run, ip_served = [], ip_read = 1 \<rparr>"
  define s2 where "s2 = s1\<lparr> ip_conn := k1, ip_reg := sample_run, ip_served := ip_served s1 @ [(?w, ?rq, ip_conn s1, ip_reg s1)] \<rparr>"
  define s3 where "s3 = s2\<lparr> ip_client := reader_frame (cn_sent (ip_conn s2) ! ip_read s2) (ip_client s2), ip_read := Suc (ip_read s2) \<rparr>"
  have c1: "cc_out c1 = [?w]" "\<not> cc_closed c1" "cc_pending c1 = {RequestId 1}" "cc_answers c1 = []"
    by (simp_all add: c1_def c0_def request_begin_def client_spawn_def alloc_id_def pending_insert_def)
  have "ipc_run sample_env sample_deliveries memory_ops \<lparr> ip_client = c0, ip_conn = k0, ip_reg = sample_run, ip_served = [], ip_read = 1 \<rparr>"
    by (rule ipc_open [of _ _ _ ?rq sample_run])
      (simp_all add: k0_def c0_def serve_connection_def serve_hello_def hello_frame_def handle_hello_def respond_def handshake_def connection_new_def
        sample_request_def sample_run_daemon)
  from ipc_client [OF this, of c1] have "ipc_run sample_env sample_deliveries memory_ops s1"
    by (simp add: s1_def c1_def client_local.intros(1))
  then have "ipc_run sample_env sample_deliveries memory_ops s2" unfolding s2_def
    by (rule ipc_serve) (simp_all add: s1_def c1 k0_def k1_def serve_connection_def serve_request_def respond_def connection_new_def sample_request_def)
  then have run: "ipc_run sample_env sample_deliveries memory_ops s3" unfolding s3_def
    by (rule ipc_read) (simp_all add: s2_def s1_def c1 k1_def)
  have s3: "cc_out (ip_client s3) = [?w]" "ip_read s3 = 2" "map_of (cc_answers (ip_client s3)) (RequestId 1) = Some (RsListSessions (list_sessions sample_run))"
    by (simp_all add: s3_def s2_def s1_def k1_def reader_response_def c1)
  then have p: "fst (request_poll (RequestId 1) (ip_client s3)) = Some (Inr (RsListSessions (list_sessions sample_run)))"
    by (simp add: request_poll_def response_outcome_def)
  have "length (cc_out (ip_client s3)) < 2 ^ 64" using s3(1) by simp
  from requests_get_their_responses [OF run this, of "RequestId 1" "Inr (RsListSessions (list_sessions sample_run))"] p s3(1,2) run
  show ?thesis by (intro exI [of _ s3]) auto
qed

end
