(* ===== verification/Spec2Isabelle.thy ===== *)
theory Spec2Isabelle
  imports Disk_Guarantees Workspace_Guarantees Rotation_Guarantees Ipc_Guarantees
begin

text \<open>
  A verification development for \<open>artel\<close>, a daemon for shared sessions and a file workspace on top of
  it.  Paths below are relative to \<open>src/crates/\<close>.

  \<^bold>\<open>The program.\<close>  A daemon (\<open>artel-daemon\<close>) hosts sessions and mirrors sessions of other hosts.  A session has
  a log of messages that the host numbers and signs, a capability for every peer that the host sets by
  messages of the log, a ledger of issued tickets, and an epoch that separates the incarnations of one
  session id.  The registry (\<open>session.rs\<close>) holds the sessions in memory and writes each change to a
  store (\<open>store/\<close>), in memory or on disk.  The gossip bridge (\<open>gossip_bridge.rs\<close>) carries messages, acks,
  announcements, closes and epoch beacons between daemons as frames (\<open>artel-protocol/src/gossip.rs\<close>); what
  a frame claims is checked by the signatures of \<open>artel-protocol/src/signing.rs\<close>.  A workspace (\<open>artel-fs\<close>)
  is a client of the daemon that mirrors a directory into a replicated document: a watcher publishes
  local changes, an applier writes changes of peers to disk, an echo guard keeps the two apart, and a
  listener follows the session log, so that keys go to writers and a revocation rotates the namespace of
  the document.

  \<^bold>\<open>Conventions\<close> (\<open>Prelude\<close>).  A machine integer is a word of its width, so that arithmetic wraps as in a
  release build; identifiers are datatypes over words.  A fallible function returns a sum with the error
  on the left.  A mutable structure is a record that each operation returns updated; what it sends to the
  outside is a trace in the record: events, frames, document writes, requests to the daemon.  A hash map is an
  association list or a HOL map.  Code of other packages is a parameter: a serializer is a record \<open>codec\<close>,
  ed25519 a record \<open>ed25519\<close>, and iroh, the document, the blob store, glob matching and hashing are functions
  in the environment records.  What the theorems need of them is named: \<open>codec_ok\<close> (decoding what was encoded
  gives it back), \<open>ed25519_ok\<close>, and \<open>unforgeable\<close> (a signature that verifies was made by the holder of the key).  \<open>Sample_Codec\<close> has
  concrete serializers that satisfy \<open>codec_ok\<close>, and the witnesses run the model on concrete inputs.

  \<^bold>\<open>Protocol data.\<close>  \<open>Ids\<close> (\<open>artel-protocol/src/ids.rs\<close>), \<open>Message\<close> (\<open>message.rs\<close>, \<open>capability.rs\<close>,
  \<open>version.rs\<close>, \<open>error.rs\<close>, \<open>upgrade.rs\<close>), \<open>Signing\<close> (\<open>signing.rs\<close>), \<open>Ticket\<close> (\<open>ticket.rs\<close>) and \<open>Gossip\<close>
  (\<open>gossip.rs\<close>).  The five signed scopes are instances of one locale \<open>signed_scope\<close>, whose lemmas give that a
  signature accepted in one scope was made for exactly these fields; tickets and frames survive a round trip; a
  message that passes the size gate fits every frame that will carry it.

  \<^bold>\<open>The store.\<close>  \<open>Store\<close> has the contract of the trait in \<open>store/mod.rs\<close> as the locales \<open>session_store\<close> and
  \<open>reliable_store\<close>, and the in-memory store as their interpretation.  \<open>Fs_Log\<close> and \<open>Fs_Store\<close> model \<open>store/fs.rs\<close>
  over an explicit disk whose system calls fail as an oracle says; \<open>Fs_Refine\<close> relates the disk to the
  in-memory store, \<open>Fs_Faults\<close> and \<open>Fs_Floors\<close> treat interrupted calls, and \<open>Disk_Guarantees\<close> has the results: the
  disk refines the in-memory store, an append is all or nothing across a restart, epoch floors stay above
  history; and two defects of an append after a failed append.

  \<^bold>\<open>The registry.\<close>  \<open>Session\<close> is one session with its capability projection, \<open>Registry\<close> the state and the host side,
  \<open>Send\<close> the send path, \<open>Admission\<close> tickets and membership, \<open>Mirror\<close> the joiner side and the log surfaces, all of
  \<open>session.rs\<close>.  \<open>Invariants\<close> proves well-formedness through the locale \<open>session_invariant\<close>, which asks an
  invariant of one session for its preservation by the primitive changes and lifts it to every
  operation; \<open>Agreement\<close> that store and memory agree; \<open>Runs\<close> defines one step per operation (\<open>reg_step\<close>), the reachable
  registries and a restart; \<open>Evolution\<close> and \<open>Epochs\<close> have what holds along runs, with revocation permanent and
  epochs fresh; \<open>Logs\<close> interprets \<open>session_invariant\<close> again for the contents of logs; \<open>Guarantees\<close> has the exact effect
  of sends and admissions, and \<open>Sync\<close> the agreement of hosts and mirrors.

  \<^bold>\<open>The bridge.\<close>  \<open>Slots\<close> is the generation-checked table of subscriptions with its interleavings, \<open>Bridge\<close> every
  published frame and the dispatch of inbound ones, \<open>Bridge_Guarantees\<close> the results over sequences of frames:
  replayed closes are ignored, a remote send returns the outcome of the host, a replay completes a mirror.

  \<^bold>\<open>The IPC surface.\<close>  \<open>Delivery\<close> has the frames of \<open>upgrade.rs\<close>, their sender in \<open>server.rs\<close> and the receiver in \<open>upgrade_protocol.rs\<close>.
  \<open>Server\<close> has the requests and responses of \<open>rpc.rs\<close> and the connections of \<open>server.rs\<close>: the hello, the dispatch of every
  request, and the forwarders of events.  \<open>Client\<close> has the codec of \<open>artel-protocol/src/transport/codec.rs\<close> and the client of
  \<open>artel-client/src/client.rs\<close>: requests, the reader, and the bounded queue of events with its gaps.  \<open>Host_Events\<close> relates the events of a registry to its logs (\<open>tracks\<close>, for every
  operation of \<open>reg_step\<close>) and composes registry, forwarder, client and listener: the workspace of the host follows the
  capabilities of its daemon.  \<open>Server_Guarantees\<close> shows the discipline of a connection, and that a key travels from the
  workspace of the host through both daemons to the workspace of one peer.  \<open>Ipc_Guarantees\<close> composes client and
  connection: a request gets the response computed for it.

  \<^bold>\<open>The workspace.\<close>  \<open>Paths\<close> (\<open>artel-fs/src/keys.rs\<close> and the parts of \<open>std::path\<close> it needs), \<open>Rules\<close> (\<open>rules.rs\<close>, \<open>filter.rs\<close>),
  \<open>Echo_Guard\<close> (\<open>echo_guard.rs\<close>), \<open>Transfers\<close> (\<open>progress.rs\<close> and the events), \<open>Workspace_Files\<close> (\<open>watcher.rs\<close>, \<open>applier.rs\<close> and the
  publish, apply, scan, export and reconcile functions of \<open>workspace.rs\<close>) and \<open>Workspace_Guarantees\<close>: entries stay
  confined, changes are not echoed, edits reach peers, and where deletion errs.  \<open>Peers\<close> (\<open>peer_map.rs\<close>, \<open>peer_filter.rs\<close>,
  \<open>docs_gate.rs\<close>, \<open>session_id.rs\<close>) agrees with the projection of the daemon.  \<open>Cap_Listener\<close> is the listener of \<open>workspace.rs\<close> with its
  spawned deliveries, and \<open>Listener_Guarantees\<close> shows that it ends, misses nothing and hands keys only to
  writers.  \<open>Workspace_Ticket\<close> (\<open>ticket.rs\<close>) and \<open>Rotation\<close> (the rotation and the state files of
  \<open>workspace.rs\<close>) lead to \<open>Rotation_Guarantees\<close>: what a rotation carries forward, that bursts may be coalesced,
  that replayed revocations are inert, and, across daemon and workspace, that any writer can force a rotation.

  \<^bold>\<open>Bounds and fuel.\<close>  The reconnect loop of the listener terminates by its attempt limit and is a total function.
  Only \<open>cap_listener\<close> has fuel: it bounds the number of subscriptions of a task that otherwise runs until shutdown, and
  its theorem holds for every bound.  The directory walk and the log reader recurse on the data.

  \<^bold>\<open>Not modelled.\<close>  The launcher of the daemon and the command line; process start-up, the accept
  loop, pid and key files, the address cache; the construction and the shutdown of workspace and node.  These are
  input and output around the operations modelled here.  Registry operations are
  atomic steps: the daemon serialises them by one lock, except in the join of a remote session, whose
  interleaving with another join of the same session is not modelled.  Logging is dropped, and error
  texts are abbreviated where nothing inspects them.
\<close>

end
